(* ===== verification/Prelude.thy ===== *)
theory Prelude
  imports Main "HOL-Library.Word" "HOL-Library.Char_ord" "HOL-Library.List_Lexorder" "HOL-Library.Sublist"
begin

text \<open>
  Shared vocabulary of the development: strings, decimal numerals, joining and trimming, and the
  small facts about them that several components use.  A string of the program (a Go
  \<^verbatim>\<open>string\<close>, a JavaScript string) is the list of the bytes of its UTF-8 encoding, so that the
  Korean literals of the sources can be written exactly (\<open>utf8\<close>) in an ASCII theory.  Lists
  of characters are ordered bytewise lexicographically (\<^verbatim>\<open>Char_ord\<close> and
  \<^verbatim>\<open>List_Lexorder\<close>), as Go's string comparison orders them.
\<close>

named_theorems digit_facts

section \<open>Bytes and characters\<close>

abbreviation code :: "char \<Rightarrow> nat" where
  "code c \<equiv> of_char c"

definition utf8 :: "nat list \<Rightarrow> string" where
  "utf8 bs = map char_of bs"

definition is_digit :: "char \<Rightarrow> bool" where
  "is_digit c \<longleftrightarrow> 48 \<le> code c \<and> code c \<le> 57"

definition is_lower :: "char \<Rightarrow> bool" where
  "is_lower c \<longleftrightarrow> 97 \<le> code c \<and> code c \<le> 122"

definition is_upper :: "char \<Rightarrow> bool" where
  "is_upper c \<longleftrightarrow> 65 \<le> code c \<and> code c \<le> 90"

definition digit_char :: "nat \<Rightarrow> char" where
  "digit_char n = char_of (48 + n)"

definition digit_val :: "char \<Rightarrow> nat" where
  "digit_val c = code c - 48"

lemma digit_char_props [digit_facts, simp]:
  assumes "n < 10"
  shows "is_digit (digit_char n)" and "digit_val (digit_char n) = n"
  using assms by (simp_all add: is_digit_def digit_char_def digit_val_def of_char_of)

section \<open>Decimal numerals\<close>

text \<open>\<open>dec n\<close> is the decimal numeral of \<open>n\<close>; \<open>undec\<close> reads a digit string, the loop
  \<^verbatim>\<open>v = v*10 + digit\<close> that both languages use.\<close>

fun dec :: "nat \<Rightarrow> string" where
  "dec n = (if n < 10 then [digit_char n] else dec (n div 10) @ [digit_char (n mod 10)])"

declare dec.simps [simp del]

definition undec :: "string \<Rightarrow> nat" where
  "undec ds = foldl (\<lambda>v c. v * 10 + digit_val c) 0 ds"

definition dec_int :: "int \<Rightarrow> string" where
  "dec_int i = (if i < 0 then CHR ''-'' # dec (nat (- i)) else dec (nat i))"

definition pad_left :: "nat \<Rightarrow> char \<Rightarrow> string \<Rightarrow> string" where
  "pad_left w c s = replicate (w - length s) c @ s"

lemma undec_Nil [simp]: "undec [] = 0"
  by (simp add: undec_def)

lemma undec_snoc [simp]: "undec (ds @ [c]) = undec ds * 10 + digit_val c"
  by (simp add: undec_def)

lemma undec_dec [simp]: "undec (dec n) = n"
proof (induction n rule: dec.induct)
  case (1 n)
  show ?case
  proof (cases "n < 10")
    case True
    then have "undec (dec n) = undec ([] @ [digit_char n])"
      by (simp add: dec.simps [of n])
    then show ?thesis using True by (simp only: undec_snoc) simp
  next
    case False
    with "1.IH" show ?thesis by (subst dec.simps) simp
  qed
qed

lemma dec_nonempty [simp]: "dec n \<noteq> []"
  by (subst dec.simps) simp

lemma dec_digits [digit_facts]: "c \<in> set (dec n) \<Longrightarrow> is_digit c"
proof (induction n rule: dec.induct)
  case (1 n)
  then show ?case
    by (cases "n < 10") (simp_all add: dec.simps [of n], auto)
qed

lemma undec_replicate_zero [simp]: "undec (replicate k (CHR ''0'') @ s) = undec s"
  by (induction k) (simp_all add: undec_def digit_val_def)

lemma undec_pad_left [simp]: "undec (pad_left w (CHR ''0'') s) = undec s"
  by (simp add: pad_left_def)

lemma length_pad_left [simp]: "length (pad_left w c s) = max w (length s)"
  by (simp add: pad_left_def)

lemma set_pad_left: "set (pad_left w c s) \<subseteq> insert c (set s)"
  by (auto simp: pad_left_def)

lemma length_dec_le: "0 < w \<Longrightarrow> n < 10 ^ w \<Longrightarrow> length (dec n) \<le> w"
proof (induction w arbitrary: n)
  case 0
  then show ?case by simp
next
  case (Suc w)
  show ?case
  proof (cases "n < 10")
    case True
    then show ?thesis by (simp add: dec.simps [of n])
  next
    case False
    with Suc.prems have "0 < w" by (cases w) auto
    moreover from Suc.prems have "n div 10 < 10 ^ w"
      by (simp add: less_mult_imp_div_less mult.commute)
    ultimately have "length (dec (n div 10)) \<le> w" by (rule Suc.IH)
    with False show ?thesis by (simp add: dec.simps [of n])
  qed
qed

lemma is_digit_zero [digit_facts, simp]: "is_digit (CHR ''0'')"
  by (simp add: is_digit_def)

lemma pad_left_dec_digits [digit_facts]:
  "c \<in> set (pad_left w (CHR ''0'') (dec n)) \<Longrightarrow> is_digit c"
  using set_pad_left dec_digits by fastforce

lemma dec_inject [simp]: "dec m = dec n \<longleftrightarrow> m = n"
  by (metis undec_dec)

lemma digit_val_less [digit_facts]: "is_digit c \<Longrightarrow> digit_val c < 10"
  unfolding is_digit_def digit_val_def by linarith

lemma undec_less: "list_all is_digit ds \<Longrightarrow> undec ds < 10 ^ length ds"
proof (induction ds rule: rev_induct)
  case Nil
  then show ?case by simp
next
  case (snoc c ds)
  then have "undec ds < 10 ^ length ds" and "digit_val c < 10"
    by (simp_all add: digit_val_less)
  then show ?case by simp
qed

lemma list_all_dec [simp]: "list_all is_digit (dec n)"
  by (simp add: list_all_iff dec_digits)

lemma length_dec_eq: "10 ^ k \<le> n \<Longrightarrow> n < 10 ^ Suc k \<Longrightarrow> length (dec n) = Suc k"
proof -
  assume lo: "10 ^ k \<le> n" and hi: "n < 10 ^ Suc k"
  have "n < 10 ^ length (dec n)" using undec_less [of "dec n"] by simp
  with lo have "(10::nat) ^ k < 10 ^ length (dec n)" by linarith
  then have "k < length (dec n)" by simp
  moreover have "length (dec n) \<le> Suc k" using length_dec_le [of "Suc k" n] hi by simp
  ultimately show ?thesis by simp
qed

lemma list_all_pad_left [simp]: "list_all is_digit (pad_left w (CHR ''0'') (dec n))"
  by (simp add: list_all_iff pad_left_dec_digits)

text \<open>Evaluating numerals by rewriting.\<close>

lemma digit_char_eval:
  "digit_char 0 = CHR ''0''" "digit_char (Suc 0) = CHR ''1''" "digit_char 1 = CHR ''1''"
  "digit_char 2 = CHR ''2''" "digit_char 3 = CHR ''3''" "digit_char 4 = CHR ''4''"
  "digit_char 5 = CHR ''5''" "digit_char 6 = CHR ''6''" "digit_char 7 = CHR ''7''"
  "digit_char 8 = CHR ''8''" "digit_char 9 = CHR ''9''"
  by (rule of_char_eq_iff [where 'a = nat, THEN iffD1], simp add: digit_char_def of_char_of)+

lemmas dec_eval = dec.simps digit_char_eval

section \<open>Joining, trimming, searching\<close>

text \<open>\<open>join_with sep xs\<close> is JavaScript's \<^verbatim>\<open>xs.join(sep)\<close> and Go's
  \<^verbatim>\<open>strings.Join(xs, sep)\<close>; \<open>trim_right_set\<close> is \<^verbatim>\<open>strings.TrimRight\<close> for an
  ASCII cutset.\<close>

fun join_with :: "string \<Rightarrow> string list \<Rightarrow> string" where
  "join_with sep [] = []"
| "join_with sep [x] = x"
| "join_with sep (x # y # xs) = x @ sep @ join_with sep (y # xs)"

definition trim_right_set :: "string \<Rightarrow> string \<Rightarrow> string" where
  "trim_right_set cs s = rev (dropWhile (\<lambda>c. c \<in> set cs) (rev s))"

definition contains_str :: "string \<Rightarrow> string \<Rightarrow> bool" where
  "contains_str s t \<longleftrightarrow> sublist t s"

text \<open>\<open>index_of c s\<close> is \<^verbatim>\<open>strings.Index(s, c)\<close> for a one-byte needle; \<open>None\<close> is -1.\<close>

fun index_of :: "char \<Rightarrow> string \<Rightarrow> nat option" where
  "index_of c [] = None"
| "index_of c (x # xs) = (if x = c then Some 0 else map_option Suc (index_of c xs))"

lemma index_of_append:
  "c \<notin> set s \<Longrightarrow> index_of c (s @ c # t) = Some (length s)"
  by (induction s) auto

lemma takeWhile_all_append:
  "(\<And>x. x \<in> set xs \<Longrightarrow> P x) \<Longrightarrow> \<not> P y \<Longrightarrow> takeWhile P (xs @ y # ys) = xs"
  by (induction xs) auto

lemma takeWhile_all: "(\<And>x. x \<in> set xs \<Longrightarrow> P x) \<Longrightarrow> takeWhile P xs = xs"
  by (induction xs) auto

section \<open>Lists\<close>

lemma find_filter: "find P xs = (case filter P xs of [] \<Rightarrow> None | y # ys \<Rightarrow> Some y)"
  by (induction xs) auto

end
