(* ===== verification/Regex.thy ===== *)
theory Regex
  imports Prelude
begin

text \<open>
  The regular expressions of the sources, as an executable matcher.  The program's patterns are
  all anchored (\<^verbatim>\<open>^...$\<close>, no flags), so a pattern accepts a string when the whole string
  is in its language; JavaScript's \<^verbatim>\<open>RegExp.test\<close> and Go's \<^verbatim>\<open>MatchString\<close> agree on
  such patterns (\<^verbatim>\<open>\d\<close> is ASCII in both, \<^verbatim>\<open>$\<close> without a multi-line flag is the end of the
  text).  \<open>rx_test\<close> matches by derivatives; \<open>rx_test_lang\<close> says it decides the language, and
  \<open>rx_shape\<close> collects the shapes of the three patterns the program uses.
\<close>

datatype rx =
    RFail
  | REmpty
  | RClass "char \<Rightarrow> bool"
  | RCat rx rx
  | RAlt rx rx
  | RStar rx

fun rx_empty_ok :: "rx \<Rightarrow> bool" where
  "rx_empty_ok RFail = False"
| "rx_empty_ok REmpty = True"
| "rx_empty_ok (RClass P) = False"
| "rx_empty_ok (RCat r s) = (rx_empty_ok r \<and> rx_empty_ok s)"
| "rx_empty_ok (RAlt r s) = (rx_empty_ok r \<or> rx_empty_ok s)"
| "rx_empty_ok (RStar r) = True"

fun rx_step :: "char \<Rightarrow> rx \<Rightarrow> rx" where
  "rx_step c RFail = RFail"
| "rx_step c REmpty = RFail"
| "rx_step c (RClass P) = (if P c then REmpty else RFail)"
| "rx_step c (RCat r s) =
     (if rx_empty_ok r then RAlt (RCat (rx_step c r) s) (rx_step c s) else RCat (rx_step c r) s)"
| "rx_step c (RAlt r s) = RAlt (rx_step c r) (rx_step c s)"
| "rx_step c (RStar r) = RCat (rx_step c r) (RStar r)"

fun rx_test :: "rx \<Rightarrow> string \<Rightarrow> bool" where
  "rx_test r [] = rx_empty_ok r"
| "rx_test r (c # s) = rx_test (rx_step c r) s"

section \<open>The language of a pattern\<close>

inductive in_lang :: "rx \<Rightarrow> string \<Rightarrow> bool" where
  lang_empty: "in_lang REmpty []"
| lang_class: "P c \<Longrightarrow> in_lang (RClass P) [c]"
| lang_cat: "in_lang r u \<Longrightarrow> in_lang s v \<Longrightarrow> in_lang (RCat r s) (u @ v)"
| lang_alt1: "in_lang r u \<Longrightarrow> in_lang (RAlt r s) u"
| lang_alt2: "in_lang s u \<Longrightarrow> in_lang (RAlt r s) u"
| lang_star0: "in_lang (RStar r) []"
| lang_star1: "in_lang r u \<Longrightarrow> in_lang (RStar r) v \<Longrightarrow> in_lang (RStar r) (u @ v)"

inductive_simps in_lang_simps:
  "in_lang RFail s"
  "in_lang REmpty s"
  "in_lang (RClass P) s"
  "in_lang (RAlt r1 r2) s"
  "in_lang (RCat r1 r2) s"

inductive_cases star_nonempty: "in_lang (RStar r) (c # s)"

lemma star_consD:
  assumes "in_lang (RStar r) s" and "s \<noteq> []"
  shows "\<exists>u v. s = u @ v \<and> u \<noteq> [] \<and> in_lang r u \<and> in_lang (RStar r) v"
  using assms
proof (induction "RStar r" s rule: in_lang.induct)
  case (lang_star1 u v)
  then show ?case by (cases "u = []") auto
qed simp

lemma rx_empty_ok_lang: "rx_empty_ok r \<longleftrightarrow> in_lang r []"
  by (induction r) (auto simp: in_lang_simps intro: in_lang.intros)

lemma rx_step_lang: "in_lang (rx_step c r) s \<longleftrightarrow> in_lang r (c # s)"
proof (induction r arbitrary: s)
  case (RCat r1 r2)
  show ?case
    by (auto simp: in_lang_simps RCat rx_empty_ok_lang Cons_eq_append_conv split: if_splits)
next
  case (RStar r)
  show ?case
  proof
    assume "in_lang (rx_step c (RStar r)) s"
    then obtain u v where "s = u @ v" "in_lang r (c # u)" "in_lang (RStar r) v"
      by (auto simp: in_lang_simps RStar)
    then show "in_lang (RStar r) (c # s)"
      using lang_star1 [of r "c # u" v] by simp
  next
    assume "in_lang (RStar r) (c # s)"
    then obtain u v where "c # s = u @ v" "u \<noteq> []" "in_lang r u" "in_lang (RStar r) v"
      using star_consD by blast
    then show "in_lang (rx_step c (RStar r)) s"
      by (cases u) (auto simp: in_lang_simps RStar)
  qed
qed (auto simp: in_lang_simps)

theorem rx_test_lang: "rx_test r s \<longleftrightarrow> in_lang r s"
  by (induction s arbitrary: r) (simp_all add: rx_empty_ok_lang rx_step_lang)

section \<open>Pattern combinators\<close>

definition rx_char :: "char \<Rightarrow> rx" where
  "rx_char c = RClass (\<lambda>x. x = c)"

definition rx_plus :: "rx \<Rightarrow> rx" where
  "rx_plus r = RCat r (RStar r)"

fun rx_times :: "nat \<Rightarrow> rx \<Rightarrow> rx" where
  "rx_times 0 r = REmpty"
| "rx_times (Suc n) r = RCat r (rx_times n r)"

fun rx_word :: "string \<Rightarrow> rx" where
  "rx_word [] = REmpty"
| "rx_word (c # s) = RCat (rx_char c) (rx_word s)"

fun rx_seq :: "rx list \<Rightarrow> rx" where
  "rx_seq [] = REmpty"
| "rx_seq (r # rs) = RCat r (rx_seq rs)"

lemma lang_char: "in_lang (rx_char c) s \<longleftrightarrow> s = [c]"
  by (auto simp: rx_char_def in_lang_simps)

lemma lang_class_cat:
  "in_lang (RCat (RClass P) r) s \<longleftrightarrow> (\<exists>c u. s = c # u \<and> P c \<and> in_lang r u)"
  by (auto simp: in_lang_simps) (metis append_Cons append_Nil)

lemma lang_cat_empty: "in_lang (RCat r REmpty) s \<longleftrightarrow> in_lang r s"
  by (simp add: in_lang_simps)

lemma lang_star_class: "in_lang (RStar (RClass P)) s \<longleftrightarrow> (\<forall>c \<in> set s. P c)"
proof
  assume "in_lang (RStar (RClass P)) s"
  then show "\<forall>c \<in> set s. P c"
    by (induction "RStar (RClass P)" s rule: in_lang.induct) (auto simp: in_lang_simps)
next
  show "\<forall>c \<in> set s. P c \<Longrightarrow> in_lang (RStar (RClass P)) s"
  proof (induction s)
    case Nil
    show ?case by (rule lang_star0)
  next
    case (Cons c s)
    then show ?case
      using lang_star1 [OF lang_class [of P c], of s] by simp
  qed
qed

lemma lang_plus_class:
  "in_lang (rx_plus (RClass P)) s \<longleftrightarrow> s \<noteq> [] \<and> (\<forall>c \<in> set s. P c)"
  by (cases s) (auto simp: rx_plus_def lang_class_cat lang_star_class)

lemma lang_times_class:
  "in_lang (rx_times n (RClass P)) s \<longleftrightarrow> length s = n \<and> (\<forall>c \<in> set s. P c)"
proof (induction n arbitrary: s)
  case 0
  then show ?case by (auto simp: in_lang_simps)
next
  case (Suc n)
  show ?case
    by (cases s) (auto simp: lang_class_cat Suc)
qed

lemma lang_word: "in_lang (rx_word w) s \<longleftrightarrow> s = w"
  by (induction w arbitrary: s) (auto simp: in_lang_simps lang_char)

declare rx_word.simps [simp del]

lemma lang_seq_Nil: "in_lang (rx_seq []) s \<longleftrightarrow> s = []"
  by (simp add: in_lang_simps)

lemma lang_seq_Cons:
  "in_lang (rx_seq (r # rs)) s \<longleftrightarrow> (\<exists>u v. s = u @ v \<and> in_lang r u \<and> in_lang (rx_seq rs) v)"
  by (auto simp: in_lang_simps)

declare rx_seq.simps [simp del]

lemmas rx_lang = rx_test_lang lang_seq_Cons lang_seq_Nil lang_char lang_plus_class
  lang_times_class lang_star_class lang_word in_lang_simps(3)

section \<open>The program's patterns\<close>

definition snake_char :: "char \<Rightarrow> bool" where
  "snake_char c \<longleftrightarrow> is_lower c \<or> is_digit c \<or> c = CHR ''_''"

text \<open>\<^verbatim>\<open>^\d+\.\d{2}\.\d{2}$\<close>\<close>

definition version_rx :: rx where
  "version_rx = rx_seq [rx_plus (RClass is_digit), rx_char (CHR ''.''), rx_times 2 (RClass is_digit),
     rx_char (CHR ''.''), rx_times 2 (RClass is_digit)]"

text \<open>\<^verbatim>\<open>^[a-z0-9][a-z0-9_]*$\<close>\<close>

definition name_rx :: rx where
  "name_rx = rx_seq [RClass (\<lambda>c. is_lower c \<or> is_digit c), RStar (RClass snake_char)]"

text \<open>\<^verbatim>\<open>^\d{14}_[a-z0-9_]+\.sql$\<close>\<close>

definition filename_rx :: rx where
  "filename_rx = rx_seq [rx_times 14 (RClass is_digit), rx_char (CHR ''_''),
     rx_plus (RClass snake_char), rx_word ''.sql'']"

lemma version_rx_shape:
  "rx_test version_rx s \<longleftrightarrow>
     (\<exists>maj mid low. s = maj @ ''.'' @ mid @ ''.'' @ low \<and> maj \<noteq> [] \<and> length mid = 2 \<and> length low = 2
        \<and> (\<forall>c \<in> set (maj @ mid @ low). is_digit c))"
  unfolding version_rx_def by (simp only: rx_lang) fastforce

lemma name_rx_shape:
  "rx_test name_rx s \<longleftrightarrow>
     s \<noteq> [] \<and> (is_lower (hd s) \<or> is_digit (hd s)) \<and> (\<forall>c \<in> set s. snake_char c)"
  by (cases s) (auto simp: name_rx_def rx_test_lang rx_seq.simps lang_class_cat lang_cat_empty
      lang_star_class snake_char_def)

lemma filename_rx_shape:
  "rx_test filename_rx s \<longleftrightarrow>
     (\<exists>ts body. s = ts @ ''_'' @ body @ ''.sql'' \<and> length ts = 14 \<and> body \<noteq> []
        \<and> (\<forall>c \<in> set ts. is_digit c) \<and> (\<forall>c \<in> set body. snake_char c))"
  unfolding filename_rx_def by (simp only: rx_lang) auto

lemmas rx_shape = version_rx_shape name_rx_shape filename_rx_shape

end
