(* ===== verification/JsRuntime.thy ===== *)
theory JsRuntime
  imports Prelude "HOL-Library.Monad_Syntax"
begin

text \<open>
  What the admin front end uses of the JavaScript language and its standard library:
  \<^verbatim>\<open>String.prototype.trim\<close>, numbers (an IEEE double whose value is an integer, or one of the
  special values), \<^verbatim>\<open>parseInt(s, 10)\<close>, \<^verbatim>\<open>String(n)\<close>, the JSON value of a number,
  thrown errors, \<^verbatim>\<open>URLSearchParams.toString\<close> and the two date formats it parses.
\<close>

section \<open>White space and trim\<close>

text \<open>The white space and line terminators of ECMAScript, as UTF-8 sequences.\<close>

definition js_ws :: "string list" where
  "js_ws = map utf8
     ([[9], [10], [11], [12], [13], [32], [0xC2, 0xA0], [0xE1, 0x9A, 0x80]]
      @ map (\<lambda>k. [0xE2, 0x80, k]) [0x80..<0x8B]
      @ [[0xE2, 0x80, 0xA8], [0xE2, 0x80, 0xA9], [0xE2, 0x80, 0xAF], [0xE2, 0x81, 0x9F],
         [0xE3, 0x80, 0x80], [0xEF, 0xBB, 0xBF]])"

lemma js_ws_nonempty: "w \<in> set js_ws \<Longrightarrow> w \<noteq> []"
  by (auto simp: js_ws_def utf8_def)

lemma find_js_ws: "find P js_ws = Some w \<Longrightarrow> w \<noteq> [] \<and> P w"
  by (auto simp: find_Some_iff intro!: js_ws_nonempty)

function trim_start :: "string \<Rightarrow> string" where
  "trim_start s = (case find (\<lambda>w. prefix w s) js_ws of
       None \<Rightarrow> s
     | Some w \<Rightarrow> trim_start (drop (length w) s))"
  by pat_completeness auto
termination
  by (relation "measure length") (auto dest!: find_js_ws simp: prefix_def)

function trim_end :: "string \<Rightarrow> string" where
  "trim_end s = (case find (\<lambda>w. suffix w s) js_ws of
       None \<Rightarrow> s
     | Some w \<Rightarrow> trim_end (take (length s - length w) s))"
  by pat_completeness auto
termination
  by (relation "measure length") (auto dest!: find_js_ws simp: suffix_def)

declare trim_start.simps [simp del] trim_end.simps [simp del]

definition js_trim :: "string \<Rightarrow> string" where
  "js_trim s = trim_end (trim_start s)"

definition no_ws_start :: "string \<Rightarrow> bool" where
  "no_ws_start s \<longleftrightarrow> (\<forall>w \<in> set js_ws. \<not> prefix w s)"

definition no_ws_end :: "string \<Rightarrow> bool" where
  "no_ws_end s \<longleftrightarrow> (\<forall>w \<in> set js_ws. \<not> suffix w s)"

lemma trim_start_id: "no_ws_start s \<Longrightarrow> trim_start s = s"
  by (subst trim_start.simps) (auto simp: no_ws_start_def find_None_iff split: option.splits
      dest!: find_Some_iff [THEN iffD1])

lemma trim_end_id: "no_ws_end s \<Longrightarrow> trim_end s = s"
  by (subst trim_end.simps) (auto simp: no_ws_end_def find_None_iff split: option.splits
      dest!: find_Some_iff [THEN iffD1])

lemma no_ws_start_trim_start: "no_ws_start (trim_start s)"
proof (induction s rule: trim_start.induct)
  case (1 s)
  show ?case
  proof (cases "find (\<lambda>w. prefix w s) js_ws")
    case None
    then have "no_ws_start s" by (simp add: no_ws_start_def find_None_iff)
    then show ?thesis by (simp add: trim_start_id)
  next
    case (Some w)
    with "1.IH" show ?thesis by (subst trim_start.simps) simp
  qed
qed

lemma no_ws_end_trim_end: "no_ws_end (trim_end s)"
proof (induction s rule: trim_end.induct)
  case (1 s)
  show ?case
  proof (cases "find (\<lambda>w. suffix w s) js_ws")
    case None
    then have "no_ws_end s" by (simp add: no_ws_end_def find_None_iff)
    then show ?thesis by (simp add: trim_end_id)
  next
    case (Some w)
    with "1.IH" show ?thesis by (subst trim_end.simps) simp
  qed
qed

lemma trim_end_prefix: "prefix (trim_end s) s"
proof (induction s rule: trim_end.induct)
  case (1 s)
  show ?case
  proof (cases "find (\<lambda>w. suffix w s) js_ws")
    case None
    then show ?thesis by (subst trim_end.simps) simp
  next
    case (Some w)
    with "1.IH" have "prefix (trim_end (take (length s - length w) s)) (take (length s - length w) s)"
      by simp
    then have "prefix (trim_end (take (length s - length w) s)) s"
      using take_is_prefix prefix_order.trans by blast
    with Some show ?thesis by (subst trim_end.simps) simp
  qed
qed

lemma no_ws_start_prefix: "prefix t s \<Longrightarrow> no_ws_start s \<Longrightarrow> no_ws_start t"
  by (meson no_ws_start_def prefix_order.trans)

lemma no_ws_start_js_trim: "no_ws_start (js_trim s)"
  unfolding js_trim_def by (rule no_ws_start_prefix [OF trim_end_prefix no_ws_start_trim_start])

lemma no_ws_end_js_trim: "no_ws_end (js_trim s)"
  unfolding js_trim_def by (rule no_ws_end_trim_end)

lemma js_trim_id: "no_ws_start s \<Longrightarrow> no_ws_end s \<Longrightarrow> js_trim s = s"
  by (simp add: js_trim_def trim_start_id trim_end_id)

lemma js_trim_idem [simp]: "js_trim (js_trim s) = js_trim s"
  by (rule js_trim_id [OF no_ws_start_js_trim no_ws_end_js_trim])

lemma trim_start_Nil [simp]: "trim_start [] = []"
  by (rule trim_start_id) (auto simp: no_ws_start_def js_ws_nonempty)

lemma js_trim_Nil [simp]: "js_trim [] = []"
  by (simp add: js_trim_def) (rule trim_end_id, auto simp: no_ws_end_def js_ws_nonempty)

lemma js_trim_nonempty_source: "js_trim s \<noteq> [] \<Longrightarrow> s \<noteq> []"
  by auto

section \<open>Numbers\<close>

text \<open>
  A number of the front end is an IEEE double.  The only doubles the code computes with are
  integers and the special values; \<open>f64_nat\<close> rounds a natural number to the nearest double
  (53 significant bits, ties to even), so arithmetic beyond \<open>2 ^ 53\<close> loses precision as it does in
  the browser.
\<close>

datatype jsnum = NaN | PosInf | NegInf | Fin int

fun bit_size :: "nat \<Rightarrow> nat" where
  "bit_size n = (if n = 0 then 0 else Suc (bit_size (n div 2)))"

declare bit_size.simps [simp del]

definition f64_nat :: "nat \<Rightarrow> nat" where
  "f64_nat n =
     (let k = bit_size n in
      if k \<le> 53 then n
      else let u = 2 ^ (k - 53); q = n div u; r = n mod u in
        u * (if u < 2 * r \<or> (2 * r = u \<and> odd q) then q + 1 else q))"

definition to_num :: "int \<Rightarrow> jsnum" where
  "to_num i =
     (let m = f64_nat (nat \<bar>i\<bar>) in
      if 2 ^ 1024 \<le> m then (if i < 0 then NegInf else PosInf)
      else Fin (if i < 0 then - int m else int m))"

lemma bit_size_le: "n < 2 ^ k \<Longrightarrow> bit_size n \<le> k"
proof (induction k arbitrary: n)
  case 0
  then show ?case by (simp add: bit_size.simps)
next
  case (Suc k)
  then have "n div 2 < 2 ^ k" by simp
  then have "bit_size (n div 2) \<le> k" by (rule Suc.IH)
  then show ?case by (subst bit_size.simps) simp
qed

lemma f64_nat_exact: "n < 2 ^ 53 \<Longrightarrow> f64_nat n = n"
  using bit_size_le [of n 53] by (simp add: f64_nat_def Let_def)

lemma to_num_exact: "\<bar>i\<bar> < 2 ^ 53 \<Longrightarrow> to_num i = Fin i"
proof -
  assume a: "\<bar>i\<bar> < 2 ^ 53"
  then have n: "nat \<bar>i\<bar> < 2 ^ 53" by (simp add: nat_less_iff)
  have "(2::nat) ^ 53 \<le> 2 ^ 1024" by (rule power_increasing) simp_all
  with n have "\<not> 2 ^ 1024 \<le> nat \<bar>i\<bar>" by linarith
  then show "to_num i = Fin i" using n by (simp add: to_num_def f64_nat_exact Let_def)
qed

text \<open>Addition and subtraction, the test \<^verbatim>\<open>x > 0\<close>, and \<^verbatim>\<open>x || 0\<close>, which replaces NaN and zero by zero.\<close>

fun num_add :: "jsnum \<Rightarrow> jsnum \<Rightarrow> jsnum" where
  "num_add (Fin a) (Fin b) = to_num (a + b)"
| "num_add PosInf NegInf = NaN"
| "num_add NegInf PosInf = NaN"
| "num_add NaN y = NaN"
| "num_add x NaN = NaN"
| "num_add PosInf y = PosInf"
| "num_add x PosInf = PosInf"
| "num_add NegInf y = NegInf"
| "num_add x NegInf = NegInf"

fun num_neg :: "jsnum \<Rightarrow> jsnum" where
  "num_neg NaN = NaN"
| "num_neg PosInf = NegInf"
| "num_neg NegInf = PosInf"
| "num_neg (Fin i) = Fin (- i)"

definition num_sub :: "jsnum \<Rightarrow> jsnum \<Rightarrow> jsnum" where
  "num_sub x y = num_add x (num_neg y)"

fun num_pos :: "jsnum \<Rightarrow> bool" where
  "num_pos PosInf = True"
| "num_pos (Fin i) = (0 < i)"
| "num_pos _ = False"

fun or_zero :: "jsnum \<Rightarrow> jsnum" where
  "or_zero NaN = Fin 0"
| "or_zero x = x"

text \<open>\<^verbatim>\<open>parseInt(s, 10)\<close>: skip leading white space, an optional sign, the longest run of
  digits; NaN when there is no digit; what follows the digits is ignored.\<close>

definition parse_int10 :: "string \<Rightarrow> jsnum" where
  "parse_int10 s =
     (let t = trim_start s;
          neg = (t \<noteq> [] \<and> hd t = CHR ''-'');
          u = (if t \<noteq> [] \<and> (hd t = CHR ''-'' \<or> hd t = CHR ''+'') then tl t else t);
          ds = takeWhile is_digit u
      in if ds = [] then NaN else to_num (if neg then - int (undec ds) else int (undec ds)))"

text \<open>\<^verbatim>\<open>String(n)\<close> (also a number in a template literal): the decimal numeral up to
  \<open>2 ^ 53\<close>, beyond it the shortest digits that read back as the same double, padded with zeros,
  and exponent notation from \<open>10 ^ 21\<close>.\<close>

definition digit_cands :: "nat \<Rightarrow> nat \<Rightarrow> nat list" where
  "digit_cands n e =
     (let u = 10 ^ e; lo = n div u * u; hi = lo + u in
      filter (\<lambda>m. f64_nat m = n) (if n - lo \<le> hi - n then [lo, hi] else [hi, lo]))"

definition shortest_digits :: "nat \<Rightarrow> nat" where
  "shortest_digits n = hd (concat (map (digit_cands n) (rev [0..<length (dec n)])) @ [n])"

definition big_to_string :: "nat \<Rightarrow> string" where
  "big_to_string n =
     (let s = dec (shortest_digits n); e = length s - 1;
          ds = trim_right_set ''0'' s
      in if n < 10 ^ 21 then s
         else hd ds # (if tl ds = [] then [] else CHR ''.'' # tl ds) @ ''e+'' @ dec e)"

fun num_to_string :: "jsnum \<Rightarrow> string" where
  "num_to_string NaN = ''NaN''"
| "num_to_string PosInf = ''Infinity''"
| "num_to_string NegInf = ''-Infinity''"
| "num_to_string (Fin i) =
     (if \<bar>i\<bar> < 2 ^ 53 then dec_int i
      else (if i < 0 then ''-'' else []) @ big_to_string (nat \<bar>i\<bar>))"

text \<open>No white space sequence starts with a visible ASCII character, such as a digit or a sign.\<close>

lemma no_ws_start_ascii:
  assumes "32 < code c" and "code c < 128"
  shows "no_ws_start (c # s)"
proof -
  have "\<forall>w \<in> set js_ws. code (hd w) \<le> 32 \<or> 128 \<le> code (hd w)"
    by (simp add: js_ws_def utf8_def of_char_of upt_rec)
  with assms show ?thesis
    by (fastforce simp: no_ws_start_def prefix_Cons dest: js_ws_nonempty)
qed

lemma no_ws_end_ascii:
  assumes "32 < code c" and "code c < 128"
  shows "no_ws_end (s @ [c])"
proof -
  have "\<forall>w \<in> set js_ws. code (last w) \<le> 32 \<or> 128 \<le> code (last w)"
    by (simp add: js_ws_def utf8_def of_char_of upt_rec)
  moreover have "suffix w (s @ [c]) \<Longrightarrow> w \<noteq> [] \<Longrightarrow> last w = c" for w
    by (auto simp: suffix_def) (metis last_appendR last_snoc)
  ultimately show ?thesis using assms
    by (fastforce simp: no_ws_end_def dest: js_ws_nonempty)
qed

definition visible :: "char \<Rightarrow> bool" where
  "visible c \<longleftrightarrow> 32 < code c \<and> code c < 128"

lemma js_trim_visible: "s \<noteq> [] \<Longrightarrow> visible (hd s) \<Longrightarrow> visible (last s) \<Longrightarrow> js_trim s = s"
  using no_ws_start_ascii [of "hd s" "tl s"] no_ws_end_ascii [of "last s" "butlast s"]
  by (simp add: visible_def js_trim_id)

lemma no_ws_start_digit: "is_digit c \<or> c = CHR ''-'' \<Longrightarrow> no_ws_start (c # s)"
  by (rule no_ws_start_ascii) (auto simp: is_digit_def)

lemma parse_int10_dec: "parse_int10 (dec n) = to_num (int n)"
proof -
  obtain c s where cs: "dec n = c # s" by (cases "dec n") (simp add: dec_nonempty, blast)
  have all: "takeWhile is_digit (dec n) = dec n"
    by (rule takeWhile_all) (rule dec_digits)
  have c: "is_digit c" using cs dec_digits [of c n] by simp
  then have "c \<noteq> CHR ''-''" "c \<noteq> CHR ''+''" by (auto simp: is_digit_def)
  moreover have "trim_start (dec n) = dec n"
    using cs c by (simp add: trim_start_id no_ws_start_digit)
  ultimately show ?thesis
    using all cs undec_dec [of n] by (simp add: parse_int10_def Let_def)
qed

lemma parse_int10_neg_dec: "parse_int10 (CHR ''-'' # dec n) = to_num (- int n)"
proof -
  have "takeWhile is_digit (dec n) = dec n"
    by (rule takeWhile_all) (rule dec_digits)
  moreover have "trim_start (CHR ''-'' # dec n) = CHR ''-'' # dec n"
    by (simp add: trim_start_id no_ws_start_digit)
  ultimately show ?thesis
    by (simp add: parse_int10_def Let_def del: takeWhile_eq_all_conv)
qed

lemma parse_int10_num_to_string:
  "\<bar>i\<bar> < 2 ^ 53 \<Longrightarrow> parse_int10 (num_to_string (Fin i)) = Fin i"
  by (simp add: dec_int_def parse_int10_dec parse_int10_neg_dec to_num_exact)

section \<open>JSON values and thrown errors\<close>

text \<open>
  The request bodies of the admin API, as the JSON value that \<^verbatim>\<open>JSON.stringify\<close> writes and
  \<^verbatim>\<open>encoding/json\<close> reads.  \<^verbatim>\<open>JSON.stringify\<close> writes NaN and the infinities as
  \<^verbatim>\<open>null\<close>.
\<close>

datatype json = JNull | JBool bool | JInt int | JStr string | JObj "(string \<times> json) list"

fun json_num :: "jsnum \<Rightarrow> json" where
  "json_num (Fin i) = JInt i"
| "json_num _ = JNull"

text \<open>A thrown \<^verbatim>\<open>Error\<close> by its name and message; \<open>exn_to_string\<close> is \<^verbatim>\<open>String(e)\<close>.\<close>

datatype exn = Exn (exn_name: string) (exn_message: string)

fun exn_to_string :: "exn \<Rightarrow> string" where
  "exn_to_string (Exn n m) = (if n = [] then m else if m = [] then n else n @ '': '' @ m)"

section \<open>URLSearchParams\<close>

definition hex_upper :: "nat \<Rightarrow> char" where
  "hex_upper n = (if n < 10 then char_of (48 + n) else char_of (55 + n))"

definition form_plain :: "char \<Rightarrow> bool" where
  "form_plain c \<longleftrightarrow> is_lower c \<or> is_upper c \<or> is_digit c \<or> c \<in> set ''*-._''"

definition form_encode_byte :: "char \<Rightarrow> string" where
  "form_encode_byte c =
     (if form_plain c then [c]
      else if c = CHR '' '' then ''+''
      else [CHR ''%'', hex_upper (code c div 16), hex_upper (code c mod 16)])"

definition form_encode :: "string \<Rightarrow> string" where
  "form_encode s = concat (map form_encode_byte s)"

definition search_params :: "(string \<times> string) list \<Rightarrow> string" where
  "search_params kvs = join_with ''&'' (map (\<lambda>(k, v). form_encode k @ ''='' @ form_encode v) kvs)"

section \<open>Dates\<close>

text \<open>
  A broken-down civil time, and its milliseconds since the epoch as if it were UTC
  (ECMAScript's \<^verbatim>\<open>MakeDay\<close> and \<^verbatim>\<open>MakeTime\<close>).  Two formats are parsed: a local
  date-time \<^verbatim>\<open>yyyy-MM-ddTHH:mm:ss\<close>, whose offset is the browser's time zone, and RFC 3339
  with an explicit offset.
\<close>

record civil =
  c_year :: int
  c_month :: nat
  c_day :: nat
  c_hour :: nat
  c_min :: nat
  c_sec :: nat

definition leap :: "int \<Rightarrow> bool" where
  "leap y \<longleftrightarrow> y mod 4 = 0 \<and> (y mod 100 \<noteq> 0 \<or> y mod 400 = 0)"

definition day_from_year :: "int \<Rightarrow> int" where
  "day_from_year y =
     365 * (y - 1970) + (y - 1969) div 4 - (y - 1901) div 100 + (y - 1601) div 400"

definition days_before_month :: "bool \<Rightarrow> nat \<Rightarrow> int" where
  "days_before_month lp m =
     [0, 31, 59, 90, 120, 151, 181, 212, 243, 273, 304, 334] ! (m - 1) + (if lp \<and> 2 < m then 1 else 0)"

definition civil_ms :: "civil \<Rightarrow> int" where
  "civil_ms c =
     ((day_from_year (c_year c) + days_before_month (leap (c_year c)) (c_month c) + int (c_day c) - 1)
        * 86400 + int (c_hour c) * 3600 + int (c_min c) * 60 + int (c_sec c)) * 1000"

definition civil_ok :: "civil \<Rightarrow> bool" where
  "civil_ok c \<longleftrightarrow> 1 \<le> c_month c \<and> c_month c \<le> 12 \<and> 1 \<le> c_day c \<and> c_day c \<le> 31
     \<and> c_hour c < 24 \<and> c_min c < 60 \<and> c_sec c < 60"

definition read_digits :: "nat \<Rightarrow> string \<Rightarrow> (nat \<times> string) option" where
  "read_digits k s =
     (if k \<le> length s \<and> list_all is_digit (take k s) then Some (undec (take k s), drop k s) else None)"

definition read_char :: "char \<Rightarrow> string \<Rightarrow> string option" where
  "read_char c s = (if s \<noteq> [] \<and> hd s = c then Some (tl s) else None)"

definition read_civil :: "string \<Rightarrow> (civil \<times> string) option" where
  "read_civil s0 = do {
     (y, s) \<leftarrow> read_digits 4 s0; s \<leftarrow> read_char (CHR ''-'') s;
     (mo, s) \<leftarrow> read_digits 2 s; s \<leftarrow> read_char (CHR ''-'') s;
     (d, s) \<leftarrow> read_digits 2 s; s \<leftarrow> read_char (CHR ''T'') s;
     (h, s) \<leftarrow> read_digits 2 s; s \<leftarrow> read_char (CHR '':'') s;
     (mi, s) \<leftarrow> read_digits 2 s; s \<leftarrow> read_char (CHR '':'') s;
     (sec, s) \<leftarrow> read_digits 2 s;
     Some (\<lparr>c_year = int y, c_month = mo, c_day = d, c_hour = h, c_min = mi, c_sec = sec\<rparr>, s) }"

definition parse_local :: "string \<Rightarrow> civil option" where
  "parse_local s = do {
     (c, r) \<leftarrow> read_civil s;
     (if r = [] \<and> civil_ok c then Some c else None) }"

definition read_offset :: "string \<Rightarrow> int option" where
  "read_offset s =
     (if s = ''Z'' then Some 0
      else if s \<noteq> [] \<and> (hd s = CHR ''+'' \<or> hd s = CHR ''-'') then do {
        (h, r) \<leftarrow> read_digits 2 (tl s); r \<leftarrow> read_char (CHR '':'') r; (m, r) \<leftarrow> read_digits 2 r;
        (if r = [] \<and> h < 24 \<and> m < 60
         then Some ((if hd s = CHR ''-'' then -1 else 1) * (int h * 3600 + int m * 60)) else None) }
      else None)"

definition parse_rfc3339 :: "string \<Rightarrow> int option" where
  "parse_rfc3339 s = do {
     (c, r) \<leftarrow> read_civil s;
     off \<leftarrow> read_offset r;
     (if civil_ok c then Some (civil_ms c - off * 1000) else None) }"

lemma read_char_Cons [simp]: "read_char c (x # s) = (if x = c then Some s else None)"
  by (simp add: read_char_def)

lemma read_digits_append:
  "length ds = k \<Longrightarrow> list_all is_digit ds \<Longrightarrow> read_digits k (ds @ r) = Some (undec ds, r)"
  by (simp add: read_digits_def)

end
