(* ===== verification/Texts.thy ===== *)
theory Texts
  imports Prelude
begin

text \<open>
  The Korean and symbol texts of the admin pages, as the UTF-8 bytes of the source literals.  The
  comment after each definition gives its sense.  Nothing depends on the texts beyond their being
  the ones the pages show.
\<close>

definition t_plus_hour :: string where \<comment> \<open>+1 hour\<close>
  "t_plus_hour = utf8
    [43, 49, 236, 139, 156, 234, 176, 132]"

definition t_plus_day :: string where \<comment> \<open>+1 day\<close>
  "t_plus_day = utf8
    [43, 49, 236, 157, 188]"

definition t_plus_week :: string where \<comment> \<open>+1 week\<close>
  "t_plus_week = utf8
    [43, 49, 236, 163, 188, 236, 157, 188]"

definition t_plus_month :: string where \<comment> \<open>+1 month\<close>
  "t_plus_month = utf8
    [43, 49, 234, 176, 156, 236, 155, 148]"

definition t_minus_day :: string where \<comment> \<open>-1 day\<close>
  "t_minus_day = utf8
    [45, 49, 236, 157, 188]"

definition t_restore :: string where \<comment> \<open>restore (0)\<close>
  "t_restore = utf8
    [236, 155, 144, 235, 179, 181, 40, 48, 41]"

definition t_user_required :: string where \<comment> \<open>user is required\<close>
  "t_user_required = utf8
    [117, 115, 101, 114, 32, 234, 176, 128, 32, 237, 149, 132, 236, 154, 148, 237, 149, 169,
     235, 139, 136, 235, 139, 164]"

definition t_clock_title :: string where \<comment> \<open>time travel\<close>
  "t_clock_title = utf8
    [236, 139, 156, 234, 176, 132, 32, 236, 157, 180, 235, 143, 153]"

definition t_current_state :: string where \<comment> \<open>current state\<close>
  "t_current_state = utf8
    [237, 152, 132, 236, 158, 172, 32, 236, 131, 129, 237, 131, 156]"

definition t_loading :: string where \<comment> \<open>loading ...\<close>
  "t_loading = utf8
    [235, 182, 136, 235, 159, 172, 236, 152, 164, 235, 138, 148, 32, 236, 164, 145, 226, 128,
     166]"

definition t_refresh :: string where \<comment> \<open>refresh\<close>
  "t_refresh = utf8
    [236, 131, 136, 235, 161, 156, 234, 179, 160, 236, 185, 168]"

definition t_jump :: string where \<comment> \<open>jump\<close>
  "t_jump = utf8
    [236, 160, 144, 237, 148, 132]"

definition t_user_label :: string where \<comment> \<open>user (operator)\<close>
  "t_user_label = utf8
    [117, 115, 101, 114, 32, 40, 236, 158, 145, 236, 151, 133, 236, 158, 144, 41]"

definition t_target_time :: string where \<comment> \<open>target time\<close>
  "t_target_time = utf8
    [235, 170, 169, 237, 145, 156, 32, 236, 139, 156, 234, 176, 129, 32]"

definition t_target_hint :: string where \<comment> \<open>(pick a date, seconds are computed, 24-hour clock)\<close>
  "t_target_hint = utf8
    [40, 235, 139, 172, 235, 160, 165, 32, 236, 132, 160, 237, 131, 157, 32, 226, 134, 146, 32,
     236, 180, 136, 32, 236, 158, 144, 235, 143, 153, 32, 234, 179, 132, 236, 130, 176, 44, 32,
     50, 52, 236, 139, 156, 234, 176, 132, 236, 160, 156, 41]"

definition t_pick_date :: string where \<comment> \<open>pick from the calendar\<close>
  "t_pick_date = utf8
    [235, 139, 172, 235, 160, 165, 236, 151, 144, 236, 132, 156, 32, 236, 132, 160, 237, 131,
     157]"

definition t_editable :: string where \<comment> \<open>(can be edited)\<close>
  "t_editable = utf8
    [40, 236, 167, 129, 236, 160, 145, 32, 236, 136, 152, 236, 160, 149, 32, 234, 176, 128,
     235, 138, 165, 41]"

definition t_set_absolute :: string where \<comment> \<open>set as absolute value\<close>
  "t_set_absolute = utf8
    [236, 160, 136, 235, 140, 128, 234, 176, 146, 236, 156, 188, 235, 161, 156, 32, 236, 132,
     164, 236, 160, 149]"

definition t_presets :: string where \<comment> \<open>presets\<close>
  "t_presets = utf8
    [237, 148, 132, 235, 166, 172, 236, 133, 139]"

definition t_ok_mark :: string where \<comment> \<open>check mark\<close>
  "t_ok_mark = utf8
    [226, 156, 147, 32]"

definition t_err_mark :: string where \<comment> \<open>cross mark\<close>
  "t_err_mark = utf8
    [226, 156, 151, 32]"

definition t_versions_required :: string where \<comment> \<open>client_version and server_version are required\<close>
  "t_versions_required = utf8
    [99, 108, 105, 101, 110, 116, 95, 118, 101, 114, 115, 105, 111, 110, 44, 32, 115, 101, 114,
     118, 101, 114, 95, 118, 101, 114, 115, 105, 111, 110, 32, 236, 157, 128, 32, 237, 149,
     132, 236, 136, 152, 236, 158, 133, 235, 139, 136, 235, 139, 164]"

definition t_added :: string where \<comment> \<open>added (idx=\<close>
  "t_added = utf8
    [226, 156, 147, 32, 236, 182, 148, 234, 176, 128, 32, 236, 153, 132, 235, 163, 140, 32, 40,
     105, 100, 120, 61]"

definition t_reloaded :: string where \<comment> \<open>catalog reload: \<close>
  "t_reloaded = utf8
    [226, 156, 147, 32, 67, 97, 116, 97, 108, 111, 103, 32, 114, 101, 108, 111, 97, 100, 58, 32]"

definition t_row_bullet :: string where \<comment> \<open>  . idx=\<close>
  "t_row_bullet = utf8
    [32, 32, 194, 183, 32, 105, 100, 120, 61]"

definition t_more_pre :: string where \<comment> \<open>... and\<close>
  "t_more_pre = utf8
    [10, 32, 32, 46, 46, 46, 32, 236, 153, 184, 32]"

definition t_count_suffix :: string where \<comment> \<open>items\<close>
  "t_count_suffix = utf8
    [234, 177, 180]"

definition t_confirm_q :: string where \<comment> \<open>delete these items?\<close>
  "t_confirm_q = utf8
    [234, 177, 180, 236, 157, 132, 32, 236, 130, 173, 236, 160, 156, 237, 149, 152, 236, 139,
     156, 234, 178, 160, 236, 138, 181, 235, 139, 136, 234, 185, 140, 63, 10, 10]"

definition t_confirm_tail :: string where \<comment> \<open>press Design Reload afterwards\<close>
  "t_confirm_tail = utf8
    [67, 97, 116, 97, 108, 111, 103, 32, 235, 176, 152, 236, 152, 129, 236, 157, 132, 32, 236,
     156, 132, 237, 149, 180, 32, 236, 130, 173, 236, 160, 156, 32, 237, 155, 132, 32, 68, 101,
     115, 105, 103, 110, 32, 82, 101, 108, 111, 97, 100, 32, 235, 165, 188, 32, 235, 136, 140,
     235, 159, 172, 236, 149, 188, 32, 237, 149, 169, 235, 139, 136, 235, 139, 164, 46]"

definition t_deleted :: string where \<comment> \<open>items deleted\<close>
  "t_deleted = utf8
    [234, 177, 180, 32, 236, 130, 173, 236, 160, 156, 32, 236, 153, 132, 235, 163, 140]"

definition t_version_title :: string where \<comment> \<open>version management\<close>
  "t_version_title = utf8
    [235, 178, 132, 236, 160, 132, 32, 234, 180, 128, 235, 166, 172]"

definition t_design_reload :: string where \<comment> \<open>design reload\<close>
  "t_design_reload = utf8
    [240, 159, 148, 132, 32, 68, 101, 115, 105, 103, 110, 32, 82, 101, 108, 111, 97, 100]"

definition t_new_version :: string where \<comment> \<open>add a new version\<close>
  "t_new_version = utf8
    [236, 131, 136, 32, 235, 178, 132, 236, 160, 132, 32, 236, 182, 148, 234, 176, 128]"

definition t_comment_ph :: string where \<comment> \<open>ten new cards\<close>
  "t_comment_ph = utf8
    [236, 139, 160, 234, 183, 156, 32, 236, 185, 180, 235, 147, 156, 32, 49, 48, 236, 162, 133]"

definition t_add :: string where \<comment> \<open>add\<close>
  "t_add = utf8
    [236, 182, 148, 234, 176, 128]"

definition t_after_add :: string where \<comment> \<open>after adding\<close>
  "t_after_add = utf8
    [236, 182, 148, 234, 176, 128, 32, 237, 155, 132, 32]"

definition t_press_reload :: string where \<comment> \<open>must be pressed to update the catalog\<close>
  "t_press_reload = utf8
    [32, 235, 165, 188, 32, 235, 136, 140, 235, 159, 172, 236, 149, 188, 32, 67, 97, 116, 97,
     108, 111, 103, 32, 236, 151, 144, 32, 235, 176, 152, 236, 152, 129, 235, 144, 169, 235,
     139, 136, 235, 139, 164, 46]"

definition t_version_list :: string where \<comment> \<open>version list (latest 200)\<close>
  "t_version_list = utf8
    [235, 178, 132, 236, 160, 132, 32, 235, 170, 169, 235, 161, 157, 32, 40, 236, 181, 156,
     234, 183, 188, 32, 50, 48, 48, 234, 177, 180, 41]"

definition t_sel_pre :: string where \<comment> \<open>bullet\<close>
  "t_sel_pre = utf8
    [194, 183, 32]"

definition t_selected :: string where \<comment> \<open>items selected\<close>
  "t_selected = utf8
    [234, 177, 180, 32, 236, 132, 160, 237, 131, 157, 235, 144, 168]"

definition t_delete :: string where \<comment> \<open>delete\<close>
  "t_delete = utf8
    [236, 130, 173, 236, 160, 156]"

definition t_no_rows :: string where \<comment> \<open>no rows\<close>
  "t_no_rows = utf8
    [237, 150, 137, 236, 157, 180, 32, 236, 151, 134, 236, 138, 181, 235, 139, 136, 235, 139,
     164]"

definition t_no_data :: string where \<comment> \<open>no data\<close>
  "t_no_data = utf8
    [235, 141, 176, 236, 157, 180, 237, 132, 176, 234, 176, 128, 32, 236, 151, 134, 236, 138,
     181, 235, 139, 136, 235, 139, 164]"

definition t_nav_clock :: string where \<comment> \<open>time travel (navigation)\<close>
  "t_nav_clock = utf8
    [236, 139, 156, 234, 176, 132, 32, 236, 157, 180, 235, 143, 153]"

definition t_nav_version :: string where \<comment> \<open>version management (navigation)\<close>
  "t_nav_version = utf8
    [235, 178, 132, 236, 160, 132, 32, 234, 180, 128, 235, 166, 172]"

definition t_nav_migrations :: string where \<comment> \<open>DB migrations (navigation)\<close>
  "t_nav_migrations = utf8
    [68, 66, 32, 235, 167, 136, 236, 157, 180, 234, 183, 184, 235, 160, 136, 236, 157, 180,
     236, 133, 152]"

definition t_mig_title :: string where \<comment> \<open>DB migrations\<close>
  "t_mig_title = utf8
    [68, 66, 32, 235, 167, 136, 236, 157, 180, 234, 183, 184, 235, 160, 136, 236, 157, 180,
     236, 133, 152]"

definition t_new_mig_button :: string where \<comment> \<open>+ new migration\<close>
  "t_new_mig_button = utf8
    [43, 32, 236, 131, 136, 32, 235, 167, 136, 236, 157, 180, 234, 183, 184, 235, 160, 136,
     236, 157, 180, 236, 133, 152]"

definition t_refresh_icon :: string where \<comment> \<open>refresh\<close>
  "t_refresh_icon = utf8
    [240, 159, 148, 132, 32, 236, 131, 136, 235, 161, 156, 234, 179, 160, 236, 185, 168]"

definition t_page_is :: string where \<comment> \<open>this page is\<close>
  "t_page_is = utf8
    [235, 179, 184, 32, 237, 142, 152, 236, 157, 180, 236, 167, 128, 235, 138, 148, 32]"

definition t_apply_only :: string where \<comment> \<open>apply and roll back in a terminal only\<close>
  "t_apply_only = utf8
    [236, 139, 164, 236, 160, 156, 32, 236, 160, 129, 236, 154, 169, 47, 235, 161, 164, 235,
     176, 177, 236, 157, 128, 32, 237, 132, 176, 235, 175, 184, 235, 132, 144, 236, 151, 144,
     236, 132, 156, 32]"

definition t_only_by :: string where \<comment> \<open>is the only way\<close>
  "t_only_by = utf8
    [32, 236, 156, 188, 235, 161, 156, 235, 167, 140, 32, 234, 176, 128, 235, 138, 165, 46]"

definition t_create_only :: string where \<comment> \<open>creating a file is\<close>
  "t_create_only = utf8
    [236, 131, 136, 32, 235, 167, 136, 236, 157, 180, 234, 183, 184, 235, 160, 136, 236, 157,
     180, 236, 133, 152, 32, 237, 140, 140, 236, 157, 188, 32, 236, 131, 157, 236, 132, 177,
     236, 157, 128, 32]"

definition t_local_only :: string where \<comment> \<open>in the local stage only\<close>
  "t_local_only = utf8
    [235, 161, 156, 236, 187, 172, 32, 237, 153, 152, 234, 178, 189, 236, 151, 144, 236, 132,
     156, 235, 167, 140]"

definition t_possible_now :: string where \<comment> \<open>possible (now:\<close>
  "t_possible_now = utf8
    [32, 234, 176, 128, 235, 138, 165, 237, 149, 169, 235, 139, 136, 235, 139, 164, 32, 40,
     237, 152, 132, 236, 158, 172, 58, 32]"

definition t_col_version :: string where \<comment> \<open>version column\<close>
  "t_col_version = utf8
    [235, 178, 132, 236, 160, 132]"

definition t_col_file :: string where \<comment> \<open>file name column\<close>
  "t_col_file = utf8
    [237, 140, 140, 236, 157, 188, 235, 170, 133]"

definition t_col_state :: string where \<comment> \<open>state column\<close>
  "t_col_state = utf8
    [236, 131, 129, 237, 131, 156]"

definition t_mig_error :: string where \<comment> \<open>error mark\<close>
  "t_mig_error = utf8
    [226, 156, 151, 32, 101, 114, 114, 111, 114]"

definition t_mig_ok :: string where \<comment> \<open>check mark\<close>
  "t_mig_ok = utf8
    [226, 156, 147]"

definition t_mig_files :: string where \<comment> \<open>migration files\<close>
  "t_mig_files = utf8
    [194, 183, 32, 235, 167, 136, 236, 157, 180, 234, 183, 184, 235, 160, 136, 236, 157, 180,
     236, 133, 152, 32, 237, 140, 140, 236, 157, 188, 32]"

definition t_mig_files_title :: string where \<comment> \<open>migration files\<close>
  "t_mig_files_title = utf8
    [235, 167, 136, 236, 157, 180, 234, 183, 184, 235, 160, 136, 236, 157, 180, 236, 133, 152,
     32, 237, 140, 140, 236, 157, 188]"

definition t_mig_empty :: string where \<comment> \<open>no migration files\<close>
  "t_mig_empty = utf8
    [235, 167, 136, 236, 157, 180, 234, 183, 184, 235, 160, 136, 236, 157, 180, 236, 133, 152,
     32, 237, 140, 140, 236, 157, 188, 236, 157, 180, 32, 236, 151, 134, 236, 138, 181, 235,
     139, 136, 235, 139, 164]"

definition t_created_toast :: string where \<comment> \<open>migration file created\<close>
  "t_created_toast = utf8
    [226, 156, 147, 32, 235, 167, 136, 236, 157, 180, 234, 183, 184, 235, 160, 136, 236, 157,
     180, 236, 133, 152, 32, 237, 140, 140, 236, 157, 188, 32, 236, 131, 157, 236, 132, 177,
     235, 144, 168]"

definition t_to_apply :: string where \<comment> \<open>to apply, in a terminal\<close>
  "t_to_apply = utf8
    [235, 176, 152, 236, 152, 129, 237, 149, 152, 235, 160, 164, 235, 169, 180, 32, 237, 132,
     176, 235, 175, 184, 235, 132, 144, 236, 151, 144, 236, 132, 156, 32]"

definition t_run :: string where \<comment> \<open>run\<close>
  "t_run = utf8
    [32, 236, 139, 164, 237, 150, 137]"

definition t_cross :: string where \<comment> \<open>close\<close>
  "t_cross = utf8
    [226, 156, 149]"

definition t_version_format :: string where \<comment> \<open>bad version format\<close>
  "t_version_format = utf8
    [235, 178, 132, 236, 160, 132, 32, 237, 152, 149, 236, 139, 157, 32, 236, 152, 164, 235,
     165, 152, 32, 226, 128, 148, 32, 120, 46, 121, 121, 46, 122, 122, 32, 40, 236, 152, 136,
     58, 32, 50, 46, 48, 49, 46, 48, 50, 41]"

definition t_name_format :: string where \<comment> \<open>names are snake_case\<close>
  "t_name_format = utf8
    [236, 157, 180, 235, 166, 132, 236, 157, 128, 32, 115, 110, 97, 107, 101, 95, 99, 97, 115,
     101, 32, 235, 167, 140, 32, 237, 151, 136, 236, 154, 169, 32, 40, 236, 152, 136, 58, 32,
     97, 100, 100, 95, 97, 99, 99, 111, 117, 110, 116, 95, 108, 97, 115, 116, 95, 115, 101,
     101, 110, 41]"

definition t_author_required :: string where \<comment> \<open>author is required\<close>
  "t_author_required = utf8
    [236, 158, 145, 236, 151, 133, 236, 158, 144, 32, 235, 170, 133, 236, 139, 156, 32, 237,
     149, 132, 236, 154, 148]"

definition t_new_mig :: string where \<comment> \<open>new migration\<close>
  "t_new_mig = utf8
    [236, 131, 136, 32, 235, 167, 136, 236, 157, 180, 234, 183, 184, 235, 160, 136, 236, 157,
     180, 236, 133, 152]"

definition t_author :: string where \<comment> \<open>author *\<close>
  "t_author = utf8
    [236, 158, 145, 236, 151, 133, 236, 158, 144, 32, 42]"

definition t_version_field :: string where \<comment> \<open>version *\<close>
  "t_version_field = utf8
    [235, 178, 132, 236, 160, 132, 32, 42, 32, 40, 120, 46, 121, 121, 46, 122, 122, 41]"

definition t_name_field :: string where \<comment> \<open>name *\<close>
  "t_name_field = utf8
    [236, 157, 180, 235, 166, 132, 32, 42, 32, 40, 115, 110, 97, 107, 101, 95, 99, 97, 115,
     101, 41]"

definition t_forward_only :: string where \<comment> \<open>(may be left empty)\<close>
  "t_forward_only = utf8
    [40, 102, 111, 114, 119, 97, 114, 100, 45, 111, 110, 108, 121, 32, 235, 169, 180, 32, 235,
     185, 132, 236, 155, 140, 235, 145, 172, 235, 143, 132, 32, 235, 144, 168, 41]"

definition t_saved_to :: string where \<comment> \<open>the file is saved to\<close>
  "t_saved_to = utf8
    [236, 131, 157, 236, 132, 177, 235, 144, 156, 32, 237, 140, 140, 236, 157, 188, 236, 157,
     128, 32, 235, 148, 148, 236, 138, 164, 237, 129, 172, 236, 157, 152, 32]"

definition t_saved_dir :: string where \<comment> \<open>sql/migrations/<db>/<version>/\<close>
  "t_saved_dir = utf8
    [115, 113, 108, 47, 109, 105, 103, 114, 97, 116, 105, 111, 110, 115, 47, 60, 100, 98, 62,
     47, 60, 235, 178, 132, 236, 160, 132, 62, 47]"

definition t_saved_note :: string where \<comment> \<open>not picked up by the running server until the next\<close>
  "t_saved_note = utf8
    [236, 151, 144, 32, 236, 160, 128, 236, 158, 165, 235, 144, 168, 46, 32, 237, 152, 132,
     236, 158, 172, 32, 235, 150, 160, 32, 236, 158, 136, 235, 138, 148, 32, 236, 132, 156,
     235, 178, 132, 236, 151, 144, 235, 138, 148, 32, 236, 166, 137, 236, 139, 156, 32, 235,
     176, 152, 236, 152, 129, 235, 144, 152, 236, 167, 128, 32, 236, 149, 138, 236, 156, 188,
     235, 169, 176, 44, 32, 235, 139, 164, 236, 157, 140, 32]"

definition t_saved_when :: string where \<comment> \<open>rebuild\<close>
  "t_saved_when = utf8
    [32, 236, 139, 156, 236, 160, 144, 236, 151, 144, 32, 236, 158, 172, 235, 185, 140, 235,
     147, 156, 235, 144, 152, 236, 150, 180, 32, 236, 160, 129, 236, 154, 169, 235, 144, 168,
     46]"

definition t_cancel :: string where \<comment> \<open>cancel\<close>
  "t_cancel = utf8
    [236, 183, 168, 236, 134, 140]"

definition t_creating :: string where \<comment> \<open>creating ...\<close>
  "t_creating = utf8
    [236, 131, 157, 236, 132, 177, 32, 236, 164, 145, 226, 128, 166]"

definition t_create :: string where \<comment> \<open>create\<close>
  "t_create = utf8
    [236, 131, 157, 236, 132, 177]"

end
