(* ===== verification/ApiClient.thy ===== *)
theory ApiClient
  imports JsRuntime
begin

text \<open>
  The front end's API wrapper, \<^verbatim>\<open>web/admin/src/api/client.ts\<close>: the request each call sends and
  what the promise it returns settles to.  The browser's \<^verbatim>\<open>fetch\<close> is the environment: it
  rejects, or resolves to a response with a status and a body whose \<^verbatim>\<open>text()\<close> and
  \<^verbatim>\<open>json()\<close> may themselves reject.  A settled promise is a value of \<open>exn + 'a\<close>.
\<close>

section \<open>fetch and request\<close>

record http_request =
  rq_method :: string
  rq_url :: string
  rq_headers :: "(string \<times> string) list"
  rq_body :: "json option"

record 'a http_response =
  res_status :: nat
  res_status_text :: string
  res_text :: "exn + string"
  res_json :: "exn + 'a"

datatype 'a fetch_outcome = FetchRejected exn | FetchResolved "'a http_response"

definition BASE :: string where
  "BASE = ''/admin''"

definition res_ok :: "'a http_response \<Rightarrow> bool" where
  "res_ok res \<longleftrightarrow> 200 \<le> res_status res \<and> res_status res \<le> 299"

text \<open>\<open>send path method body\<close> is the request of \<^verbatim>\<open>request(path, init)\<close>; \<open>settle\<close> is what its
  promise becomes.\<close>

definition send :: "string \<Rightarrow> string \<Rightarrow> json option \<Rightarrow> http_request" where
  "send path meth body =
     \<lparr>rq_method = meth, rq_url = BASE @ path,
      rq_headers = [(''Content-Type'', ''application/json'')], rq_body = body\<rparr>"

fun settle :: "'a fetch_outcome \<Rightarrow> exn + 'a" where
  "settle (FetchRejected e) = Inl e"
| "settle (FetchResolved res) =
     (if \<not> res_ok res then
        (let text = (case res_text res of Inr t \<Rightarrow> t | Inl _ \<Rightarrow> res_status_text res)
         in Inl (Exn ''Error'' (dec (res_status res) @ '' '' @ text)))
      else res_json res)"

section \<open>Types\<close>

datatype stage = StageLocal | StageDev | StageQA | StageStaging | StageLive

record admin_info =
  ai_stage :: stage

record clock_info =
  ci_offset_sec :: jsnum
  ci_offset_human :: string
  ci_real_time :: string
  ci_logical_time :: string

record clock_jump_result =
  cj_add_second :: jsnum
  cj_logical_time :: string

record version_row =
  v_idx :: jsnum
  v_client_version :: string
  v_server_version :: string
  v_app_id :: string
  v_is_active :: jsnum
  v_update_flag :: jsnum
  v_inspection_flag :: jsnum
  v_catalog_filename :: string
  v_comment :: string
  v_insert_time :: string
  v_update_time :: string

record version_create_input =
  vi_client_version :: string
  vi_server_version :: string
  vi_app_id :: string
  vi_is_active :: jsnum
  vi_update_flag :: jsnum
  vi_inspection_flag :: jsnum
  vi_catalog_filename :: string
  vi_comment :: string

datatype category = Game | Shard

fun category_name :: "category \<Rightarrow> string" where
  "category_name Game = ''game''"
| "category_name Shard = ''shard''"

record migration_file_status =
  mf_version :: string
  mf_filename :: string
  mf_version_id :: jsnum
  mf_applied :: bool

record db_migration_status =
  db_label :: string
  db_category :: category
  db_shard_id :: jsnum
  db_name :: string
  db_total :: jsnum
  db_pending :: jsnum
  db_migrations :: "migration_file_status list option"
  db_error :: "string option"

record migration_file_content =
  fc_path :: string
  fc_content :: string

record create_migration_input =
  cm_category :: category
  cm_version :: string
  cm_name :: string
  cm_author :: string
  cm_up_sql :: string
  cm_down_sql :: string

section \<open>The calls\<close>

definition adminApi_info :: http_request where
  "adminApi_info = send ''/info'' ''GET'' None"

definition clockApi_get :: http_request where
  "clockApi_get = send ''/clock'' ''GET'' None"

definition clockApi_jump :: "jsnum \<Rightarrow> string \<Rightarrow> http_request" where
  "clockApi_jump addSecond user =
     send ''/clock/jump'' ''POST'' (Some (JObj [(''add_second'', json_num addSecond), (''user'', JStr user)]))"

definition migrationsApi_status :: http_request where
  "migrationsApi_status = send ''/migrations/status'' ''GET'' None"

definition migrationsApi_file :: "category \<Rightarrow> string \<Rightarrow> string \<Rightarrow> http_request" where
  "migrationsApi_file category version filename =
     (let qs = search_params
        [(''category'', category_name category), (''version'', version), (''filename'', filename)]
      in send (''/migrations/file?'' @ qs) ''GET'' None)"

definition migrationsApi_create :: "create_migration_input \<Rightarrow> http_request" where
  "migrationsApi_create i =
     send ''/migrations'' ''POST'' (Some (JObj
       [(''category'', JStr (category_name (cm_category i))), (''version'', JStr (cm_version i)),
        (''name'', JStr (cm_name i)), (''author'', JStr (cm_author i)),
        (''up_sql'', JStr (cm_up_sql i)), (''down_sql'', JStr (cm_down_sql i))]))"

definition versionApi_list :: http_request where
  "versionApi_list = send ''/versions'' ''GET'' None"

definition versionApi_create :: "version_create_input \<Rightarrow> http_request" where
  "versionApi_create v =
     send ''/version'' ''POST'' (Some (JObj
       [(''client_version'', JStr (vi_client_version v)), (''server_version'', JStr (vi_server_version v)),
        (''app_id'', JStr (vi_app_id v)), (''is_active'', json_num (vi_is_active v)),
        (''update_flag'', json_num (vi_update_flag v)),
        (''inspection_flag'', json_num (vi_inspection_flag v)),
        (''catalog_filename'', JStr (vi_catalog_filename v)), (''comment'', JStr (vi_comment v))]))"

definition versionApi_delete :: "jsnum \<Rightarrow> http_request" where
  "versionApi_delete idx = send (''/version/'' @ num_to_string idx) ''DELETE'' None"

text \<open>\<^verbatim>\<open>versionApi.reload\<close> calls \<^verbatim>\<open>fetch\<close> itself: no headers, the body read as text, and a
  failing \<^verbatim>\<open>text()\<close> is not replaced by the status text.\<close>

definition versionApi_reload :: http_request where
  "versionApi_reload = \<lparr>rq_method = ''POST'', rq_url = ''/admin/design/reload'', rq_headers = [], rq_body = None\<rparr>"

fun settle_reload :: "'a fetch_outcome \<Rightarrow> exn + string" where
  "settle_reload (FetchRejected e) = Inl e"
| "settle_reload (FetchResolved r) =
     (if \<not> res_ok r then
        (case res_text r of
           Inl e \<Rightarrow> Inl e
         | Inr t \<Rightarrow> Inl (Exn ''Error'' (dec (res_status r) @ '' '' @ t)))
      else res_text r)"

section \<open>Facts\<close>

lemma settle_Inr_iff:
  "settle out = Inr v \<longleftrightarrow> (\<exists>res. out = FetchResolved res \<and> res_ok res \<and> res_json res = Inr v)"
  by (cases out) (auto simp: Let_def split: sum.splits)

lemma settle_not_ok:
  "\<not> res_ok res \<Longrightarrow> res_text res = Inr t \<Longrightarrow>
     settle (FetchResolved res) = Inl (Exn ''Error'' (dec (res_status res) @ '' '' @ t))"
  by simp

text \<open>A plain success, for the concrete runs.\<close>

definition ok_response :: "'a \<Rightarrow> 'a fetch_outcome" where
  "ok_response v = FetchResolved \<lparr>res_status = 200, res_status_text = ''OK'', res_text = Inr [], res_json = Inr v\<rparr>"

lemma settle_ok_response [simp]: "settle (ok_response v) = Inr v"
  by (simp add: ok_response_def res_ok_def)

end
