(* ===== verification/Ui.thy ===== *)
theory Ui
  imports Prelude JsRuntime
begin

text \<open>
  The vocabulary of the React pages.  A page is a state record; its render function becomes a
  \<open>vnode\<close> tree that keeps the elements, their texts, the disabled flags and the event each control
  raises, and leaves out style sheets (\<open>Check checked indeterminate e\<close> is a checkbox,
  \<open>Select v options h\<close> a drop-down whose choice is an event).  What a user can do in a state is read off the rendered
  tree: click an enabled button, edit a field, pick a date.  An asynchronous handler runs up to its
  first \<^verbatim>\<open>await\<close> when the event is raised; the promise it waits for is recorded in the page's
  list of pending operations, and the rest runs as a step of its own when the promise settles, in
  any order.  \<open>reaches\<close> is reachability by such steps.
\<close>

datatype 'e vnode =
    Txt string
  | El string "'e vnode list"
  | Btn string bool 'e
  | Inp string string "string \<Rightarrow> 'e"
  | Picker string string "civil option \<Rightarrow> 'e"
  | Clickable bool 'e "'e vnode list"
  | Check bool bool 'e
  | Select string "string list" "string \<Rightarrow> 'e"

fun clicks :: "'e vnode \<Rightarrow> 'e list" where
  "clicks (Txt s) = []"
| "clicks (El t vs) = concat (map clicks vs)"
| "clicks (Btn l dis e) = (if dis then [] else [e])"
| "clicks (Inp v p h) = []"
| "clicks (Picker v p h) = []"
| "clicks (Clickable en e vs) = (if en then [e] else []) @ concat (map clicks vs)"
| "clicks (Check c ind e) = [e]"
| "clicks (Select v os h) = map h os"

fun inputs :: "'e vnode \<Rightarrow> (string \<Rightarrow> 'e) list" where
  "inputs (El t vs) = concat (map inputs vs)"
| "inputs (Inp v p h) = [h]"
| "inputs (Clickable en e vs) = concat (map inputs vs)"
| "inputs _ = []"

fun pickers :: "'e vnode \<Rightarrow> (civil option \<Rightarrow> 'e) list" where
  "pickers (El t vs) = concat (map pickers vs)"
| "pickers (Picker v p h) = [h]"
| "pickers (Clickable en e vs) = concat (map pickers vs)"
| "pickers _ = []"

fun texts :: "'e vnode \<Rightarrow> string list" where
  "texts (Txt s) = [s]"
| "texts (El t vs) = concat (map texts vs)"
| "texts (Btn l dis e) = [l]"
| "texts (Clickable en e vs) = concat (map texts vs)"
| "texts _ = []"

text \<open>A conditional part of a render function, \<^verbatim>\<open>cond && node\<close>.\<close>

definition when_nodes :: "bool \<Rightarrow> 'e vnode list \<Rightarrow> 'e vnode list" where
  "when_nodes b vs = (if b then vs else [])"

section \<open>Reachable states\<close>

inductive reaches :: "('s \<Rightarrow> bool) \<Rightarrow> ('s \<Rightarrow> 's \<Rightarrow> bool) \<Rightarrow> 's \<Rightarrow> bool" for init step where
  reaches_init: "init s \<Longrightarrow> reaches init step s"
| reaches_step: "reaches init step s \<Longrightarrow> step s t \<Longrightarrow> reaches init step t"

lemma reaches_invariant:
  assumes "reaches init step s"
    and "\<And>s. init s \<Longrightarrow> I s"
    and "\<And>s t. step s t \<Longrightarrow> I s \<Longrightarrow> I t"
  shows "I s"
  using assms(1) by (induction rule: reaches.induct) (auto intro: assms(2,3))

section \<open>The contract of a page with a busy flag\<close>

text \<open>
  Several pages share a discipline: a handler that must not overlap with itself sets a flag before
  its first \<^verbatim>\<open>await\<close>, clears it in its \<^verbatim>\<open>finally\<close>, and the controls that start it are disabled
  while the flag is set.  \<open>guarded\<close> counts the operations of that kind in flight.  A page promises
  that each of its steps starts one from the idle state, ends the one in flight, or leaves flag and
  count alone; then the flag is set exactly while one operation is in flight.
\<close>

locale guarded_page =
  fixes init :: "'s \<Rightarrow> bool"
    and step :: "'s \<Rightarrow> 's \<Rightarrow> bool"
    and busy :: "'s \<Rightarrow> bool"
    and guarded :: "'s \<Rightarrow> nat"
  assumes init_count: "init s \<Longrightarrow> guarded s = (if busy s then 1 else 0)"
    and step_kind: "step s t \<Longrightarrow>
      (\<not> busy s \<and> busy t \<and> guarded t = Suc (guarded s))
      \<or> (guarded s = Suc (guarded t) \<and> \<not> busy t)
      \<or> (busy t = busy s \<and> guarded t = guarded s)"
begin

lemma guarded_count: "reaches init step s \<Longrightarrow> guarded s = (if busy s then 1 else 0)"
proof (induction rule: reaches.induct)
  case (reaches_init s)
  then show ?case by (rule init_count)
next
  case (reaches_step s t)
  from step_kind [OF reaches_step.hyps(2)] reaches_step.IH show ?case
    by (auto split: if_splits)
qed

lemma at_most_one: "reaches init step s \<Longrightarrow> guarded s \<le> 1"
  using guarded_count by simp

lemma idle_when_not_busy: "reaches init step s \<Longrightarrow> \<not> busy s \<longleftrightarrow> guarded s = 0"
  using guarded_count by simp

end

text \<open>
  A page whose promises settle: \<open>net\<close> are the steps in which a pending request settles, with
  any outcome, and \<open>load\<close> measures what is pending.  Each settling lowers the load, something
  can settle while there is load, and without load no guarded operation is in flight.  Then the
  network alone cannot keep the page going for ever, and when it has nothing left to answer the page
  is not busy.
\<close>

locale settling_page = guarded_page +
  fixes net :: "'s \<Rightarrow> 's \<Rightarrow> bool"
    and load :: "'s \<Rightarrow> nat"
  assumes net_step: "net s t \<Longrightarrow> step s t"
    and net_load: "net s t \<Longrightarrow> load t < load s"
    and net_progress: "0 < load s \<Longrightarrow> \<exists>t. net s t"
    and no_load: "load s = 0 \<Longrightarrow> guarded s = 0"
begin

lemma net_wf: "wfP (\<lambda>t s. net s t)"
proof -
  have "{(t, s). net s t} \<subseteq> measure load" using net_load by auto
  then show ?thesis unfolding wfp_def by (rule wf_subset [OF wf_measure])
qed

lemma no_endless_run: "\<not> (\<exists>f. \<forall>n. net (f n) (f (Suc n)))"
  using net_wf unfolding wfp_def by (simp add: wf_iff_no_infinite_down_chain)

lemma net_reaches: "net\<^sup>*\<^sup>* s t \<Longrightarrow> reaches init step s \<Longrightarrow> reaches init step t"
  by (induction rule: rtranclp_induct) (auto intro: reaches_step net_step)

lemma quiet_not_busy:
  assumes "reaches init step s" and "net\<^sup>*\<^sup>* s t" and "\<nexists>u. net t u"
  shows "\<not> busy t"
proof -
  have "load t = 0" using net_progress assms(3) by blast
  then show ?thesis using no_load idle_when_not_busy [OF net_reaches [OF assms(2,1)]] by simp
qed

lemma becomes_quiet: "\<exists>t. net\<^sup>*\<^sup>* s t \<and> (\<nexists>u. net t u)"
proof (induction "load s" arbitrary: s rule: less_induct)
  case less
  show ?case
  proof (cases "\<exists>u. net s u")
    case True
    then obtain u where "net s u" by blast
    with less [OF net_load [OF this]] show ?thesis by (meson converse_rtranclp_into_rtranclp)
  qed blast
qed

end

text \<open>Counting a kind of pending operation when one is removed or appended.\<close>

definition count_ops :: "('o \<Rightarrow> bool) \<Rightarrow> 'o list \<Rightarrow> nat" where
  "count_ops P xs = length (filter P xs)"

lemma count_ops_simps [simp]:
  "count_ops P [] = 0"
  "count_ops P (x # xs) = (if P x then Suc (count_ops P xs) else count_ops P xs)"
  "count_ops P (xs @ ys) = count_ops P xs + count_ops P ys"
  by (simp_all add: count_ops_def)

end
