(* ===== verification/ClockPage.thy ===== *)
theory ClockPage
  imports ApiClient Ui Texts
begin

text \<open>
  The clock page, \<^verbatim>\<open>web/admin/src/pages/ClockPage.tsx\<close>: the state of the component, its
  handlers cut at their \<^verbatim>\<open>await\<close>s, the rendered tree and the step relation.  The server
  fixes the offset absolutely, so the page sends the whole number of seconds; the date picker turns
  a target time into that number, relative to the server's real clock.
\<close>

section \<open>State and environment\<close>

text \<open>
  \<open>br_local_ms\<close> is the browser's reading of a local civil time in its time zone,
  \<open>br_other_date\<close> what \<^verbatim>\<open>new Date(s).getTime()\<close> gives for a string in neither of the
  two standard formats (implementation-defined in ECMAScript; None is NaN).
\<close>

record browser =
  br_local_ms :: "civil \<Rightarrow> int"
  br_other_date :: "string \<Rightarrow> int option"

definition date_ms :: "browser \<Rightarrow> string \<Rightarrow> int option" where
  "date_ms br s =
     (case parse_local s of
        Some c \<Rightarrow> Some (br_local_ms br c)
      | None \<Rightarrow> (case parse_rfc3339 s of Some ms \<Rightarrow> Some ms | None \<Rightarrow> br_other_date br s))"

datatype clock_op = RefreshOp | JumpOp jsnum string | JumpRefreshOp

fun clock_request :: "clock_op \<Rightarrow> http_request" where
  "clock_request RefreshOp = clockApi_get"
| "clock_request (JumpOp n u) = clockApi_jump n u"
| "clock_request JumpRefreshOp = clockApi_get"

record clock_page =
  cp_info :: "clock_info option"
  cp_user :: string
  cp_add_second :: string
  cp_target :: string
  cp_busy :: bool
  cp_error :: "string option"
  cp_last_result :: "string option"
  cp_pending :: "clock_op list"

record preset =
  pr_label :: string
  pr_sec :: int
  pr_absolute :: bool

definition PRESETS :: "preset list" where
  "PRESETS =
     [\<lparr>pr_label = t_plus_hour, pr_sec = 3600, pr_absolute = False\<rparr>,
      \<lparr>pr_label = t_plus_day, pr_sec = 86400, pr_absolute = False\<rparr>,
      \<lparr>pr_label = t_plus_week, pr_sec = 604800, pr_absolute = False\<rparr>,
      \<lparr>pr_label = t_plus_month, pr_sec = 2592000, pr_absolute = False\<rparr>,
      \<lparr>pr_label = t_minus_day, pr_sec = -86400, pr_absolute = False\<rparr>,
      \<lparr>pr_label = t_restore, pr_sec = 0, pr_absolute = True\<rparr>]"

section \<open>Handlers\<close>

definition round_sec :: "int \<Rightarrow> int" where
  "round_sec ms = (ms + 500) div 1000"

text \<open>\<open>now\<close> is the value of \<^verbatim>\<open>Date.now()\<close> when the handler runs.\<close>

definition ref_ms :: "browser \<Rightarrow> int \<Rightarrow> clock_info option \<Rightarrow> int option" where
  "ref_ms br now info =
     (case info of
        Some i \<Rightarrow> if ci_real_time i \<noteq> [] then date_ms br (ci_real_time i) else Some now
      | None \<Rightarrow> Some now)"

definition on_target_change :: "browser \<Rightarrow> int \<Rightarrow> string \<Rightarrow> clock_page \<Rightarrow> clock_page" where
  "on_target_change br now v s0 =
     (let s = s0\<lparr>cp_target := v\<rparr> in
      if v = [] then s
      else case date_ms br v of
        None \<Rightarrow> s
      | Some target_ms \<Rightarrow>
          (let delta_sec = (case ref_ms br now (cp_info s) of
                 None \<Rightarrow> NaN | Some r \<Rightarrow> Fin (round_sec (target_ms - r)))
           in s\<lparr>cp_add_second := num_to_string delta_sec\<rparr>))"

text \<open>The picker's \<^verbatim>\<open>onChange\<close> formats the chosen date in local fields.\<close>

definition pad2 :: "nat \<Rightarrow> string" where
  "pad2 n = pad_left 2 (CHR ''0'') (dec n)"

definition format_local :: "civil \<Rightarrow> string" where
  "format_local d =
     dec_int (c_year d) @ ''-'' @ pad2 (c_month d) @ ''-'' @ pad2 (c_day d) @ ''T'' @ pad2 (c_hour d)
       @ '':'' @ pad2 (c_min d) @ '':'' @ pad2 (c_sec d)"

definition on_pick :: "browser \<Rightarrow> int \<Rightarrow> civil option \<Rightarrow> clock_page \<Rightarrow> clock_page" where
  "on_pick br now d s =
     (case d of None \<Rightarrow> on_target_change br now [] s
      | Some c \<Rightarrow> on_target_change br now (format_local c) s)"

definition refresh :: "clock_page \<Rightarrow> clock_page" where
  "refresh s = s\<lparr>cp_pending := cp_pending s @ [RefreshOp]\<rparr>"

definition refresh_result :: "clock_info fetch_outcome \<Rightarrow> clock_page \<Rightarrow> clock_page" where
  "refresh_result out s =
     (case settle out of
        Inr i \<Rightarrow> s\<lparr>cp_info := Some i\<rparr>
      | Inl e \<Rightarrow> s\<lparr>cp_error := Some (exn_to_string e)\<rparr>)"

definition apply_sec :: "jsnum \<Rightarrow> clock_page \<Rightarrow> clock_page" where
  "apply_sec total_sec s =
     (if js_trim (cp_user s) = [] then s\<lparr>cp_error := Some t_user_required\<rparr>
      else s\<lparr>cp_busy := True, cp_error := None,
             cp_pending := cp_pending s @ [JumpOp total_sec (js_trim (cp_user s))]\<rparr>)"

definition jump_result :: "clock_jump_result fetch_outcome \<Rightarrow> clock_page \<Rightarrow> clock_page" where
  "jump_result out s =
     (case settle out of
        Inr r \<Rightarrow> s\<lparr>cp_last_result := Some (''add_second='' @ num_to_string (cj_add_second r)
                     @ '', logical_time='' @ cj_logical_time r),
                   cp_pending := cp_pending s @ [JumpRefreshOp]\<rparr>
      | Inl e \<Rightarrow> s\<lparr>cp_error := Some (exn_to_string e), cp_busy := False\<rparr>)"

definition jump_refresh_result :: "clock_info fetch_outcome \<Rightarrow> clock_page \<Rightarrow> clock_page" where
  "jump_refresh_result out s = (refresh_result out s)\<lparr>cp_busy := False\<rparr>"

definition on_apply :: "clock_page \<Rightarrow> clock_page" where
  "on_apply s = apply_sec (or_zero (parse_int10 (cp_add_second s))) s"

definition on_preset :: "preset \<Rightarrow> clock_page \<Rightarrow> clock_page" where
  "on_preset p s =
     (if pr_absolute p then apply_sec (Fin 0) s
      else apply_sec
        (num_add (case cp_info s of Some i \<Rightarrow> ci_offset_sec i | None \<Rightarrow> Fin 0) (Fin (pr_sec p))) s)"

section \<open>The rendered page\<close>

datatype clock_event =
    RefreshClick | ApplyClick | PresetClick preset
  | SetUser string | SetAddSecond string | Pick "civil option"

fun clock_handle :: "browser \<Rightarrow> int \<Rightarrow> clock_event \<Rightarrow> clock_page \<Rightarrow> clock_page" where
  "clock_handle br now RefreshClick s = refresh s"
| "clock_handle br now ApplyClick s = on_apply s"
| "clock_handle br now (PresetClick p) s = on_preset p s"
| "clock_handle br now (SetUser v) s = s\<lparr>cp_user := v\<rparr>"
| "clock_handle br now (SetAddSecond v) s = s\<lparr>cp_add_second := v\<rparr>"
| "clock_handle br now (Pick d) s = on_pick br now d s"

definition row_view :: "string \<Rightarrow> string \<Rightarrow> 'e vnode" where
  "row_view label value = El ''div'' [El ''dt'' [Txt label], El ''dd'' [Txt value]]"

text \<open>\<^verbatim>\<open>msg && node\<close>: the empty string is falsy.\<close>

definition message_nodes :: "string \<Rightarrow> string option \<Rightarrow> 'e vnode list" where
  "message_nodes mark m =
     (case m of Some t \<Rightarrow> when_nodes (t \<noteq> []) [El ''p'' [Txt (mark @ t)]] | None \<Rightarrow> [])"

definition clock_view :: "clock_page \<Rightarrow> clock_event vnode" where
  "clock_view s = El ''section'' (
     [El ''h2'' [Txt t_clock_title],
      El ''div'' [El ''h3'' [Txt t_current_state],
        (case cp_info s of
           Some i \<Rightarrow> El ''dl''
             [row_view ''offset_sec'' (num_to_string (ci_offset_sec i)),
              row_view ''offset_human'' (ci_offset_human i),
              row_view ''real_time'' (ci_real_time i),
              row_view ''logical_time'' (ci_logical_time i)]
         | None \<Rightarrow> El ''p'' [Txt t_loading]),
        Btn t_refresh False RefreshClick],
      El ''div''
       [El ''h3'' [Txt t_jump],
        El ''label'' [Txt t_user_label, Inp (cp_user s) ''qa-mega'' SetUser],
        El ''label'' [Txt t_target_time, Txt t_target_hint, Picker (cp_target s) t_pick_date Pick],
        El ''label'' [Txt ''add_second '', Txt t_editable, Inp (cp_add_second s) [] SetAddSecond],
        Btn t_set_absolute (cp_busy s) ApplyClick,
        El ''div'' [Txt t_presets],
        El ''div'' (map (\<lambda>p. Btn (pr_label p) (cp_busy s) (PresetClick p)) PRESETS)]]
     @ message_nodes t_ok_mark (cp_last_result s)
     @ message_nodes t_err_mark (cp_error s))"

section \<open>Steps\<close>

text \<open>The mount effect has issued the first \<^verbatim>\<open>refresh\<close>.\<close>

definition clock_init :: "clock_page \<Rightarrow> bool" where
  "clock_init s \<longleftrightarrow> s =
     \<lparr>cp_info = None, cp_user = [], cp_add_second = ''0'', cp_target = [], cp_busy = False,
      cp_error = None, cp_last_result = None, cp_pending = [RefreshOp]\<rparr>"

inductive clock_step :: "browser \<Rightarrow> clock_page \<Rightarrow> clock_page \<Rightarrow> bool" for br where
  clock_click: "e \<in> set (clicks (clock_view s)) \<Longrightarrow> clock_step br s (clock_handle br now e s)"
| clock_input: "h \<in> set (inputs (clock_view s)) \<Longrightarrow> clock_step br s (clock_handle br now (h v) s)"
| clock_pick: "h \<in> set (pickers (clock_view s)) \<Longrightarrow> clock_step br s (clock_handle br now (h d) s)"
| clock_refreshed: "cp_pending s = xs @ RefreshOp # ys \<Longrightarrow>
    clock_step br s (refresh_result out (s\<lparr>cp_pending := xs @ ys\<rparr>))"
| clock_jumped: "cp_pending s = xs @ JumpOp n u # ys \<Longrightarrow>
    clock_step br s (jump_result out' (s\<lparr>cp_pending := xs @ ys\<rparr>))"
| clock_jump_refreshed: "cp_pending s = xs @ JumpRefreshOp # ys \<Longrightarrow>
    clock_step br s (jump_refresh_result out (s\<lparr>cp_pending := xs @ ys\<rparr>))"

inductive_cases clock_stepE: "clock_step br s t"

text \<open>A jump is in flight from its request until its trailing refresh has settled.\<close>

fun is_jump :: "clock_op \<Rightarrow> bool" where
  "is_jump RefreshOp = False"
| "is_jump (JumpOp n u) = True"
| "is_jump JumpRefreshOp = True"

section \<open>Lemmas\<close>

named_theorems clock_defs

lemmas clock_handlers [clock_defs] =
  refresh_def refresh_result_def apply_sec_def jump_result_def jump_refresh_result_def on_apply_def
  on_preset_def on_pick_def on_target_change_def

lemma message_nodes_inert [simp]:
  "concat (map clicks (message_nodes m x)) = []"
  "concat (map inputs (message_nodes m x)) = []"
  "concat (map pickers (message_nodes m x)) = []"
  by (auto simp: message_nodes_def when_nodes_def split: option.splits)

lemma row_view_inert [simp]:
  "clicks (row_view l v) = []" "inputs (row_view l v) = []" "pickers (row_view l v) = []"
  by (simp_all add: row_view_def)

text \<open>What the user can do: refresh always, jump by the button or a preset when not busy.\<close>

lemma clock_clicks:
  "set (clicks (clock_view s)) =
     insert RefreshClick (if cp_busy s then {} else insert ApplyClick (PresetClick ` set PRESETS))"
  by (auto simp: clock_view_def split: option.splits)

lemma clock_inputs: "set (inputs (clock_view s)) = {SetUser, SetAddSecond}"
  by (auto simp: clock_view_def split: option.splits)

lemma clock_pickers: "set (pickers (clock_view s)) = {Pick}"
  by (auto simp: clock_view_def split: option.splits)

lemma on_target_change_frame [simp]:
  "cp_busy (on_target_change br now v s) = cp_busy s"
  "cp_pending (on_target_change br now v s) = cp_pending s"
  "cp_info (on_target_change br now v s) = cp_info s"
  "cp_user (on_target_change br now v s) = cp_user s"
  by (simp_all add: on_target_change_def Let_def split: option.splits)

interpretation clock_guard: guarded_page clock_init "clock_step br" cp_busy
  "\<lambda>s. count_ops is_jump (cp_pending s)" for br
proof unfold_locales
  show "clock_init s \<Longrightarrow> count_ops is_jump (cp_pending s) = (if cp_busy s then 1 else 0)" for s
    by (simp add: clock_init_def)
next
  fix s t
  assume "clock_step br s t"
  then show "(\<not> cp_busy s \<and> cp_busy t \<and> count_ops is_jump (cp_pending t) = Suc (count_ops is_jump (cp_pending s)))
      \<or> (count_ops is_jump (cp_pending s) = Suc (count_ops is_jump (cp_pending t)) \<and> \<not> cp_busy t)
      \<or> (cp_busy t = cp_busy s \<and> count_ops is_jump (cp_pending t) = count_ops is_jump (cp_pending s))"
    by (cases rule: clock_step.cases)
      (auto simp: clock_clicks clock_inputs clock_pickers refresh_def apply_sec_def on_apply_def
        on_preset_def on_pick_def refresh_result_def jump_result_def jump_refresh_result_def
        split: if_splits option.splits sum.splits)
qed

section \<open>Settling\<close>

text \<open>The steps of the network alone.\<close>

inductive clock_net :: "clock_page \<Rightarrow> clock_page \<Rightarrow> bool" where
  net_refreshed: "cp_pending s = xs @ RefreshOp # ys \<Longrightarrow>
    clock_net s (refresh_result out (s\<lparr>cp_pending := xs @ ys\<rparr>))"
| net_jumped: "cp_pending s = xs @ JumpOp n u # ys \<Longrightarrow>
    clock_net s (jump_result out' (s\<lparr>cp_pending := xs @ ys\<rparr>))"
| net_jump_refreshed: "cp_pending s = xs @ JumpRefreshOp # ys \<Longrightarrow>
    clock_net s (jump_refresh_result out (s\<lparr>cp_pending := xs @ ys\<rparr>))"

fun clock_weight :: "clock_op \<Rightarrow> nat" where
  "clock_weight RefreshOp = 1"
| "clock_weight (JumpOp n u) = 2"
| "clock_weight JumpRefreshOp = 1"

definition clock_load :: "clock_page \<Rightarrow> nat" where
  "clock_load s = sum_list (map clock_weight (cp_pending s))"

lemma clock_weight_pos [simp]: "clock_weight p \<noteq> 0"
  by (cases p) simp_all

interpretation clock_quiet: settling_page clock_init "clock_step br" cp_busy
  "\<lambda>s. count_ops is_jump (cp_pending s)" clock_net clock_load for br
proof unfold_locales
  fix s t
  assume "clock_net s t"
  then show "clock_step br s t" by cases (auto intro: clock_step.intros)
next
  fix s t
  assume "clock_net s t"
  then show "clock_load t < clock_load s"
    by cases (auto simp: clock_load_def refresh_result_def jump_result_def jump_refresh_result_def split: sum.splits)
next
  fix s
  assume "0 < clock_load s"
  then obtain p ps where p: "cp_pending s = [] @ p # ps" by (cases "cp_pending s") (auto simp: clock_load_def)
  then show "\<exists>t. clock_net s t" by (cases p) (blast intro: clock_net.intros)+
next
  fix s
  assume "clock_load s = 0"
  then have "cp_pending s = []" by (cases "cp_pending s") (auto simp: clock_load_def)
  then show "count_ops is_jump (cp_pending s) = 0" by simp
qed

section \<open>Properties\<close>

lemma read_pad2 [simp]: "n < 100 \<Longrightarrow> read_digits 2 (pad2 n @ r) = Some (n, r)"
  using length_dec_le [of 2 n] by (simp add: pad2_def read_digits_append)

lemma read_year:
  assumes "1000 \<le> y" and "y \<le> 9999"
  shows "read_digits 4 (dec_int y @ r) = Some (nat y, r)"
proof -
  have "length (dec (nat y)) = Suc 3" by (rule length_dec_eq) (use assms in auto)
  with assms show ?thesis by (simp add: dec_int_def read_digits_append)
qed

lemma local_text_read:
  assumes "civil_ok c" and "1000 \<le> c_year c" and "c_year c \<le> 9999"
  shows "parse_local (format_local c) = Some c"
proof -
  have lt: "c_month c < 100" "c_day c < 100" "c_hour c < 100" "c_min c < 100" "c_sec c < 100"
    using assms(1) by (auto simp: civil_ok_def)
  have "read_civil (format_local c @ []) = Some (c, [])"
    using lt read_year [OF assms(2,3)] read_pad2 [of "c_sec c" "[]"] assms(2)
    by (simp add: read_civil_def format_local_def)
  then show ?thesis using assms(1) by (simp add: parse_local_def)
qed

text \<open>The date picker's formatting and the parsing behind \<^verbatim>\<open>new Date(v)\<close> are inverse:
  a picked civil time with a four-digit year is read back as itself.\<close>

theorem parse_format_local:
  assumes "civil_ok c" and "1000 \<le> c_year c" and "c_year c \<le> 9999"
  shows "parse_local (format_local c) = Some c"
  using assms by (rule local_text_read)

lemma or_zero_Fin [simp]: "or_zero (Fin i) = Fin i"
  by simp

lemma format_local_nonempty [simp]: "format_local c \<noteq> []"
  by (simp add: format_local_def)

lemma date_ms_format_local:
  "civil_ok c \<Longrightarrow> 1000 \<le> c_year c \<Longrightarrow> c_year c \<le> 9999 \<Longrightarrow>
     date_ms br (format_local c) = Some (br_local_ms br c)"
  by (simp add: date_ms_def local_text_read)

lemma round_sec_error: "\<bar>1000 * round_sec d - d\<bar> \<le> 500"
  unfolding round_sec_def by linarith

lemma on_apply_number:
  assumes "cp_add_second s = num_to_string (Fin n)" and "\<bar>n\<bar> < 2 ^ 53"
  shows "on_apply s = apply_sec (Fin n) s"
  using parse_int10_num_to_string [OF assms(2)] assms(1) by (simp add: on_apply_def)

text \<open>Picking a target time and pressing apply sends one jump whose whole number of seconds,
  added to the server's real clock, is within half a second of the target; the jump carries the
  trimmed operator name.\<close>

lemma pick_apply_sends:
  assumes "cp_info s = Some i" and "ci_real_time i \<noteq> []" and "date_ms br (ci_real_time i) = Some r"
    and "civil_ok c" and "1000 \<le> c_year c" and "c_year c \<le> 9999"
    and "\<bar>br_local_ms br c - r\<bar> \<le> 2 ^ 53" and "js_trim (cp_user s) \<noteq> []"
  shows "\<exists>n. cp_pending (clock_handle br now' ApplyClick (clock_handle br now (Pick (Some c)) s))
             = cp_pending s @ [JumpOp (Fin n) (js_trim (cp_user s))]
           \<and> \<bar>r + 1000 * n - br_local_ms br c\<bar> \<le> 500"
proof -
  define n where "n = round_sec (br_local_ms br c - r)"
  have err: "\<bar>1000 * n - (br_local_ms br c - r)\<bar> \<le> 500"
    unfolding n_def by (rule round_sec_error)
  with assms(7) have "\<bar>n\<bar> < 2 ^ 53" by (simp add: abs_if split: if_splits)
  moreover have "cp_add_second (on_pick br now (Some c) s) = num_to_string (Fin n)"
    using assms(1-3) date_ms_format_local [OF assms(4-6)]
    by (simp add: on_pick_def on_target_change_def ref_ms_def n_def Let_def del: num_to_string.simps)
  ultimately have "on_apply (on_pick br now (Some c) s)
      = apply_sec (Fin n) (on_pick br now (Some c) s)"
    by (intro on_apply_number)
  moreover have "\<bar>r + 1000 * n - br_local_ms br c\<bar> \<le> 500" using err by linarith
  ultimately show ?thesis using assms(8)
    by (intro exI [of _ n]) (simp add: apply_sec_def on_pick_def)
qed

text \<open>C18: in every reachable state the busy flag says exactly that one jump is in flight, and the
  jump controls are enabled exactly when none is.\<close>

theorem one_jump_in_flight:
  assumes "reaches clock_init (clock_step br) s"
  shows "count_ops is_jump (cp_pending s) = (if cp_busy s then 1 else 0)
    \<and> (ApplyClick \<in> set (clicks (clock_view s)) \<longleftrightarrow> count_ops is_jump (cp_pending s) = 0)
    \<and> (set (clicks (clock_view s)) \<inter> PresetClick ` set PRESETS
         = (if count_ops is_jump (cp_pending s) = 0 then PresetClick ` set PRESETS else {}))"
  using clock_guard.guarded_count [OF assms] by (auto simp: clock_clicks)

text \<open>C37: the page never hangs: from every reachable state the answers of the network, in any order
  and with any outcome, are finitely many, they can all come in, and when they have the page is
  enabled again.\<close>

theorem clock_page_settles:
  assumes "reaches clock_init (clock_step br) s"
  shows "\<not> (\<exists>f. f 0 = s \<and> (\<forall>n. clock_net (f n) (f (Suc n))))
    \<and> (\<exists>t. clock_net\<^sup>*\<^sup>* s t \<and> (\<nexists>u. clock_net t u))
    \<and> (\<forall>t. clock_net\<^sup>*\<^sup>* s t \<longrightarrow> (\<nexists>u. clock_net t u) \<longrightarrow>
          \<not> cp_busy t \<and> ApplyClick \<in> set (clicks (clock_view t)))"
  using clock_quiet.no_endless_run clock_quiet.becomes_quiet clock_quiet.quiet_not_busy [OF assms]
  by (auto simp: clock_clicks)

section \<open>Concrete runs\<close>

definition utc_browser :: browser where
  "utc_browser = \<lparr>br_local_ms = civil_ms, br_other_date = (\<lambda>_. None)\<rparr>"

definition demo_civil :: civil where
  "demo_civil = \<lparr>c_year = 2025, c_month = 3, c_day = 9, c_hour = 8, c_min = 5, c_sec = 1\<rparr>"

definition demo_info :: clock_info where
  "demo_info = \<lparr>ci_offset_sec = Fin 0, ci_offset_human = ''0s'',
     ci_real_time = ''2025-03-09T17:00:00+09:00'', ci_logical_time = ''2025-03-09T17:00:00+09:00''\<rparr>"

definition demo_start :: clock_page where
  "demo_start = \<lparr>cp_info = None, cp_user = [], cp_add_second = ''0'', cp_target = [], cp_busy = False,
      cp_error = None, cp_last_result = None, cp_pending = [RefreshOp]\<rparr>"

definition demo_named :: clock_page where
  "demo_named = demo_start\<lparr>cp_user := ''qa''\<rparr>"

definition demo_jumping :: clock_page where
  "demo_jumping = demo_named\<lparr>cp_busy := True, cp_pending := [RefreshOp, JumpOp (Fin 0) ''qa'']\<rparr>"

lemma js_trim_qa [simp]: "js_trim ''qa'' = ''qa''"
  by (rule js_trim_visible) (simp_all add: visible_def)

lemma demo_jumping_reachable: "reaches clock_init (clock_step br) demo_jumping"
proof -
  have "reaches clock_init (clock_step br) demo_start"
    by (rule reaches_init) (simp add: clock_init_def demo_start_def)
  moreover have "clock_step br demo_start (clock_handle br 0 (SetUser ''qa'') demo_start)"
    by (rule clock_input) (simp add: clock_inputs)
  ultimately have "reaches clock_init (clock_step br) demo_named"
    by (metis reaches_step clock_handle.simps(4) demo_named_def)
  moreover have "clock_step br demo_named (clock_handle br 0 ApplyClick demo_named)"
    by (rule clock_click) (simp add: clock_clicks demo_named_def demo_start_def)
  moreover have "dec 0 = ''0''" by code_simp
  then have "parse_int10 ''0'' = Fin 0" using parse_int10_dec [of 0] by (simp add: to_num_exact)
  then have "clock_handle br 0 ApplyClick demo_named = demo_jumping"
    by (simp add: demo_jumping_def demo_named_def demo_start_def on_apply_def apply_sec_def)
  ultimately show ?thesis by (metis reaches_step)
qed

lemma parse_format_local_witness:
  "civil_ok demo_civil \<and> parse_local (format_local demo_civil) = Some demo_civil"
  using parse_format_local [of demo_civil] by (simp add: demo_civil_def civil_ok_def)

lemma one_jump_in_flight_witness:
  "count_ops is_jump (cp_pending demo_jumping) = 1 \<and> cp_busy demo_jumping
    \<and> ApplyClick \<notin> set (clicks (clock_view demo_jumping))"
  using one_jump_in_flight [OF demo_jumping_reachable]
  by (simp add: demo_jumping_def)

lemma clock_page_settles_witness:
  "cp_busy demo_jumping \<and> (\<exists>t. clock_net\<^sup>*\<^sup>* demo_jumping t \<and> \<not> cp_busy t)"
  using clock_page_settles [OF demo_jumping_reachable] by (auto simp: demo_jumping_def) 

end
