(* ===== verification/DataTable.thy ===== *)
theory DataTable
  imports Ui Texts
begin

text \<open>
  The shared table, \<^verbatim>\<open>web/admin/src/components/DataTable.tsx\<close>: which selection it
  shows, where a selection change goes, what it renders, and the style it sets once at mount.  The
  row model of TanStack Table is a library outside the repository: the four functions the code
  calls are the fields of \<open>table_lib\<close>, and \<open>table_lib_ok\<close> is what its documentation
  says of the selection updaters.
\<close>

section \<open>Selection state and the table library\<close>

text \<open>\<^verbatim>\<open>RowSelectionState\<close>: the entries of an object from row ids to booleans.\<close>

type_synonym selection = "(string \<times> bool) list"

definition sel_on :: "selection \<Rightarrow> string set" where
  "sel_on sel = {k. (k, True) \<in> set sel}"

text \<open>
  \<open>tl_toggle_row id v sel\<close> is the state after \<^verbatim>\<open>row.getToggleSelectedHandler()\<close> ran for
  an event whose target is a checkbox with new value \<open>Some v\<close>, or any other element
  (\<open>None\<close>); \<open>tl_toggle_all ids v sel\<close> the one after the header's handler.
\<close>

record table_lib =
  tl_toggle_row :: "string \<Rightarrow> bool option \<Rightarrow> selection \<Rightarrow> selection"
  tl_toggle_all :: "string list \<Rightarrow> bool \<Rightarrow> selection \<Rightarrow> selection"
  tl_all_selected :: "string list \<Rightarrow> selection \<Rightarrow> bool"
  tl_some_selected :: "string list \<Rightarrow> selection \<Rightarrow> bool"

definition table_lib_ok :: "table_lib \<Rightarrow> bool" where
  "table_lib_ok lib \<longleftrightarrow>
     (\<forall>i v sel. sel_on (tl_toggle_row lib i v sel) =
        (if (case v of Some b \<Rightarrow> b | None \<Rightarrow> i \<notin> sel_on sel) then insert i (sel_on sel) else sel_on sel - {i}))
   \<and> (\<forall>ids b sel. sel_on (tl_toggle_all lib ids b sel) = (if b then sel_on sel \<union> set ids else sel_on sel - set ids))"

text \<open>A library that behaves so, for the concrete runs.\<close>

definition list_lib :: table_lib where
  "list_lib = \<lparr>
     tl_toggle_row = (\<lambda>i v sel.
       (let rest = filter (\<lambda>kv. fst kv \<noteq> i) sel in
        if (case v of Some b \<Rightarrow> b | None \<Rightarrow> (i, True) \<notin> set sel) then (i, True) # rest else rest)),
     tl_toggle_all = (\<lambda>ids b sel.
       (let rest = filter (\<lambda>kv. fst kv \<notin> set ids) sel in if b then map (\<lambda>i. (i, True)) ids @ rest else rest)),
     tl_all_selected = (\<lambda>ids sel. list_all (\<lambda>i. (i, True) \<in> set sel) ids),
     tl_some_selected = (\<lambda>ids sel. list_ex (\<lambda>i. (i, True) \<in> set sel) ids)\<rparr>"

lemma list_lib_ok: "table_lib_ok list_lib"
  unfolding table_lib_ok_def list_lib_def
  by (auto simp: sel_on_def Let_def split: option.splits)

section \<open>Props\<close>

datatype resize_mode = Vertical | Horizontal | Both

datatype updater = UpdateFun "selection \<Rightarrow> selection" | UpdateValue selection

record ('r, 'e) column =
  col_header :: "'e vnode"
  col_cell :: "'r \<Rightarrow> 'e vnode"
  col_resizable :: bool

record ('r, 'e) table_props =
  tp_data :: "'r list"
  tp_columns :: "('r, 'e) column list"
  tp_enable_selection :: bool
  tp_selection :: "selection option"
  tp_on_selection_change :: "(selection \<Rightarrow> 'e) option"
  tp_get_row_id :: "('r \<Rightarrow> string) option"
  tp_resize :: "resize_mode option"
  tp_initial_height :: nat
  tp_min_height :: nat
  tp_loading :: bool
  tp_loading_text :: string
  tp_empty_text :: string

text \<open>The default values of the props; the caller overrides some.\<close>

definition default_props :: "'r list \<Rightarrow> ('r, 'e) column list \<Rightarrow> ('r, 'e) table_props" where
  "default_props d cols =
     \<lparr>tp_data = d, tp_columns = cols, tp_enable_selection = False, tp_selection = None,
      tp_on_selection_change = None, tp_get_row_id = None, tp_resize = None,
      tp_initial_height = 360, tp_min_height = 120, tp_loading = False,
      tp_loading_text = t_loading, tp_empty_text = t_no_data\<rparr>"

section \<open>Selection\<close>

definition shown_selection :: "('r, 'e) table_props \<Rightarrow> selection \<Rightarrow> selection" where
  "shown_selection p internal = (case tp_selection p of Some s \<Rightarrow> s | None \<Rightarrow> internal)"

text \<open>A change goes to the parent when there is a callback, to the internal state otherwise: the
  event raised at the parent and the new internal state.\<close>

definition on_row_selection_change ::
  "('r, 'e) table_props \<Rightarrow> updater \<Rightarrow> selection \<Rightarrow> 'e option \<times> selection" where
  "on_row_selection_change p u internal =
     (let sel = shown_selection p internal;
          next = (case u of UpdateFun f \<Rightarrow> f sel | UpdateValue v \<Rightarrow> v)
      in case tp_on_selection_change p of
           Some h \<Rightarrow> (Some (h next), internal)
         | None \<Rightarrow> (None, next))"

definition row_ids :: "('r, 'e) table_props \<Rightarrow> string list" where
  "row_ids p =
     (case tp_get_row_id p of
        Some f \<Rightarrow> map f (tp_data p)
      | None \<Rightarrow> map dec [0..<length (tp_data p)])"

section \<open>Layout\<close>

definition has_vertical :: "resize_mode option \<Rightarrow> bool" where
  "has_vertical r \<longleftrightarrow> r = Some Vertical \<or> r = Some Both"

definition has_horizontal :: "resize_mode option \<Rightarrow> bool" where
  "has_horizontal r \<longleftrightarrow> r = Some Horizontal \<or> r = Some Both"

definition resize_class :: "resize_mode option \<Rightarrow> string" where
  "resize_class r = (case r of Some Vertical \<Rightarrow> ''resize-y'' | Some Horizontal \<Rightarrow> ''resize-x''
     | Some Both \<Rightarrow> ''resize'' | None \<Rightarrow> [])"

definition wrapper_class :: "resize_mode option \<Rightarrow> string" where
  "wrapper_class r =
     (if has_vertical r then ''overflow-auto '' @ resize_class r
      else if has_horizontal r then ''overflow-x-auto '' @ resize_class r
      else ''overflow-x-auto'')"

text \<open>The style properties the mount effect sets on the wrapper; \<open>width\<close> is its
  \<^verbatim>\<open>offsetWidth\<close>.\<close>

definition mount_style :: "('r, 'e) table_props \<Rightarrow> nat \<Rightarrow> (string \<times> string) list" where
  "mount_style p width =
     (if has_vertical (tp_resize p) then
        [(''height'', dec (tp_initial_height p) @ ''px''), (''minHeight'', dec (tp_min_height p) @ ''px'')] else [])
   @ (if has_horizontal (tp_resize p) then [(''width'', dec width @ ''px'')] else [])"

section \<open>Rendering\<close>

text \<open>The event a row's toggle raises at the page: that of the callback, for the selection after the
  toggle.  A table without a callback keeps the change in its internal state (the second component
  of \<open>on_row_selection_change\<close>) and raises none.\<close>

definition toggle_event ::
  "table_lib \<Rightarrow> ('r, 'e) table_props \<Rightarrow> selection \<Rightarrow> string \<Rightarrow> bool option \<Rightarrow> 'e option" where
  "toggle_event lib p internal i v =
     fst (on_row_selection_change p (UpdateFun (tl_toggle_row lib i v)) internal)"

definition data_rows ::
  "table_lib \<Rightarrow> ('r, 'e) table_props \<Rightarrow> selection \<Rightarrow> 'e vnode list" where
  "data_rows lib p internal =
     map (\<lambda>(i, r).
       let cells = map (\<lambda>c. El ''td'' [col_cell c r]) (tp_columns p) in
       case toggle_event lib p internal i None of
         Some e \<Rightarrow> Clickable (tp_enable_selection p) e cells
       | None \<Rightarrow> El ''tr'' cells)
     (zip (row_ids p) (tp_data p))"

definition data_table ::
  "table_lib \<Rightarrow> ('r, 'e) table_props \<Rightarrow> selection \<Rightarrow> 'e vnode" where
  "data_table lib p internal = El ''table'' [
     El ''thead'' [El ''tr'' (map (\<lambda>c. El ''th'' [col_header c]) (tp_columns p))],
     El ''tbody''
       (when_nodes (tp_loading p) [El ''tr'' [El ''td'' [Txt (tp_loading_text p)]]]
        @ when_nodes (\<not> tp_loading p \<and> tp_data p = []) [El ''tr'' [El ''td'' [Txt (tp_empty_text p)]]]
        @ when_nodes (\<not> tp_loading p) (data_rows lib p internal))]"

definition select_checkbox :: "bool \<Rightarrow> bool option \<Rightarrow> 'e \<Rightarrow> 'e vnode" where
  "select_checkbox checked indeterminate e = Check checked (indeterminate = Some True) e"

section \<open>Lemmas\<close>

lemma sel_on_Nil [simp]: "sel_on [] = {}"
  by (simp add: sel_on_def)

lemma sel_on_toggle_row:
  "table_lib_ok lib \<Longrightarrow> sel_on (tl_toggle_row lib i v sel) \<subseteq> insert i (sel_on sel)"
  by (auto simp: table_lib_ok_def split: if_splits)

lemma sel_on_toggle_all:
  "table_lib_ok lib \<Longrightarrow> sel_on (tl_toggle_all lib ids b sel) \<subseteq> set ids \<union> sel_on sel"
  by (auto simp: table_lib_ok_def split: if_splits)

text \<open>A controlled table leaves its internal selection alone; an uncontrolled one shows what it
  stored.\<close>

lemma controlled_change:
  "tp_on_selection_change p = Some h \<Longrightarrow> tp_selection p = Some sel \<Longrightarrow>
     on_row_selection_change p (UpdateFun f) internal = (Some (h (f sel)), internal)"
  by (simp add: on_row_selection_change_def shown_selection_def)

lemma uncontrolled_change:
  "tp_on_selection_change p = None \<Longrightarrow> tp_selection p = None \<Longrightarrow>
     on_row_selection_change p (UpdateFun f) internal = (None, f internal)"
  by (simp add: on_row_selection_change_def shown_selection_def)

lemma length_row_ids [simp]: "length (row_ids p) = length (tp_data p)"
  by (simp add: row_ids_def split: option.splits)

lemma zip_row_ids [simp]: "zip (map f xs) xs = map (\<lambda>x. (f x, x)) xs"
  by (simp add: zip_map1 zip_same_conv_map)

text \<open>The clicks of a controlled selectable table: the header's and, unless loading, per row its
  toggle and the cells' own.\<close>

lemma data_table_clicks:
  assumes "tp_on_selection_change p = Some h" and "tp_selection p = Some sel"
    and "tp_enable_selection p"
  shows "set (clicks (data_table lib p internal)) =
     (\<Union>c \<in> set (tp_columns p). set (clicks (col_header c)))
     \<union> (if tp_loading p then {} else
         (\<Union>(i, r) \<in> set (zip (row_ids p) (tp_data p)).
            insert (h (tl_toggle_row lib i None sel)) (\<Union>c \<in> set (tp_columns p). set (clicks (col_cell c r)))))"
  using assms
  by (simp add: data_table_def data_rows_def toggle_event_def controlled_change when_nodes_def
      case_prod_unfold comp_def Let_def)

text \<open>A table of cells without input fields has none.\<close>

lemma data_table_inert:
  assumes "\<And>c. c \<in> set (tp_columns p) \<Longrightarrow> inputs (col_header c) = []"
    and "\<And>c r. c \<in> set (tp_columns p) \<Longrightarrow> inputs (col_cell c r) = []"
  shows "inputs (data_table lib p internal) = []"
  using assms
  by (auto simp: data_table_def data_rows_def when_nodes_def Let_def split: option.splits)

end
