(* ===== verification/VersionPage.thy ===== *)
theory VersionPage
  imports ApiClient DataTable ClockPage
begin

text \<open>
  The version page, \<^verbatim>\<open>web/admin/src/pages/VersionPage.tsx\<close>: listing, creating and deleting
  rows of the version table and reloading the catalog.  A deletion sends one request per selected
  row and waits for \<^verbatim>\<open>Promise.all\<close>: \<open>VDelete n rest\<close> is such a batch with the requests in
  \<open>rest\<close> unsettled and none failed so far, \<open>VDeleteRest\<close> the requests still in flight after
  one has failed.
\<close>

section \<open>State\<close>

definition APP_IDS :: "string list" where
  "APP_IDS = [''com.com2us.ent.futurenpb'', ''com.com2us.heatfuturenpb.android.google.jp.normal'']"

definition EMPTY_INPUT :: version_create_input where
  "EMPTY_INPUT = \<lparr>vi_client_version = [], vi_server_version = [], vi_app_id = APP_IDS ! 0,
     vi_is_active = Fin 1, vi_update_flag = Fin 0, vi_inspection_flag = Fin 0,
     vi_catalog_filename = [], vi_comment = []\<rparr>"

datatype version_op =
    VRefresh | VCreate version_create_input | VCreateRefresh | VReload
  | VDelete nat "jsnum list" | VDeleteRest "jsnum list" | VDeleteRefresh

fun version_requests :: "version_op \<Rightarrow> http_request list" where
  "version_requests VRefresh = [versionApi_list]"
| "version_requests (VCreate i) = [versionApi_create i]"
| "version_requests VCreateRefresh = [versionApi_list]"
| "version_requests VReload = [versionApi_reload]"
| "version_requests (VDelete n rest) = map versionApi_delete rest"
| "version_requests (VDeleteRest rest) = map versionApi_delete rest"
| "version_requests VDeleteRefresh = [versionApi_list]"

record version_page =
  vp_rows :: "version_row list option"
  vp_selection :: selection
  vp_input :: version_create_input
  vp_busy :: bool
  vp_error :: "string option"
  vp_info :: "string option"
  vp_pending :: "version_op list"

section \<open>Handlers\<close>

definition v_pend :: "version_op \<Rightarrow> version_page \<Rightarrow> version_page" where
  "v_pend p s = s\<lparr>vp_pending := vp_pending s @ [p]\<rparr>"

definition v_fail :: "exn \<Rightarrow> version_page \<Rightarrow> version_page" where
  "v_fail e s = s\<lparr>vp_error := Some (exn_to_string e)\<rparr>"

definition v_refresh :: "version_page \<Rightarrow> version_page" where
  "v_refresh s = v_pend VRefresh s"

definition v_refresh_result :: "version_row list fetch_outcome \<Rightarrow> version_page \<Rightarrow> version_page" where
  "v_refresh_result out s =
     (case settle out of
        Inr rows \<Rightarrow> s\<lparr>vp_rows := Some rows, vp_selection := []\<rparr>
      | Inl e \<Rightarrow> v_fail e s)"

definition on_create :: "version_page \<Rightarrow> version_page" where
  "on_create s =
     (if js_trim (vi_client_version (vp_input s)) = [] \<or> js_trim (vi_server_version (vp_input s)) = []
      then s\<lparr>vp_error := Some t_versions_required\<rparr>
      else v_pend (VCreate (vp_input s)) (s\<lparr>vp_busy := True, vp_error := None\<rparr>))"

definition create_result :: "version_row fetch_outcome \<Rightarrow> version_page \<Rightarrow> version_page" where
  "create_result out s =
     (case settle out of
        Inr v \<Rightarrow> v_pend VCreateRefresh
          (s\<lparr>vp_info := Some (t_added @ num_to_string (v_idx v) @ '')''), vp_input := EMPTY_INPUT\<rparr>)
      | Inl e \<Rightarrow> (v_fail e s)\<lparr>vp_busy := False\<rparr>)"

definition trailing_refresh_result :: "version_row list fetch_outcome \<Rightarrow> version_page \<Rightarrow> version_page" where
  "trailing_refresh_result out s = (v_refresh_result out s)\<lparr>vp_busy := False\<rparr>"

definition on_reload :: "version_page \<Rightarrow> version_page" where
  "on_reload s = v_pend VReload (s\<lparr>vp_busy := True, vp_error := None\<rparr>)"

definition reload_result :: "string fetch_outcome \<Rightarrow> version_page \<Rightarrow> version_page" where
  "reload_result out s =
     (case settle_reload out of
        Inr r \<Rightarrow> s\<lparr>vp_info := Some (t_reloaded @ r), vp_busy := False\<rparr>
      | Inl e \<Rightarrow> (v_fail e s)\<lparr>vp_busy := False\<rparr>)"

text \<open>
  \<open>js_number\<close> is \<^verbatim>\<open>Number(k)\<close> on the keys that occur, decimal numerals of row numbers
  (\<^verbatim>\<open>String(r.idx)\<close> of an integer below \<open>10 ^ 21\<close>); it gives NaN on other strings.
\<close>

definition js_number :: "string \<Rightarrow> jsnum" where
  "js_number k =
     (let ds = (if k \<noteq> [] \<and> hd k = CHR ''-'' then tl k else k)
      in if ds \<noteq> [] \<and> list_all is_digit ds then parse_int10 k else NaN)"

definition selected_idx_list :: "selection \<Rightarrow> jsnum list" where
  "selected_idx_list sel = map (\<lambda>(k, v). js_number k) (filter (\<lambda>(k, v). v) sel)"

definition delete_targets :: "version_row list \<Rightarrow> jsnum list \<Rightarrow> version_row list" where
  "delete_targets rows idxs = filter (\<lambda>r. v_idx r \<in> set idxs) rows"

definition delete_line :: "version_row \<Rightarrow> string" where
  "delete_line r = t_row_bullet @ num_to_string (v_idx r) @ '' ('' @ v_client_version r @ '' / ''
     @ v_server_version r @ '')''"

definition delete_lines :: "version_row list \<Rightarrow> string list" where
  "delete_lines targets = map delete_line (take 10 targets)"

definition delete_more :: "version_row list \<Rightarrow> string" where
  "delete_more targets =
     (if 10 < length targets then t_more_pre @ dec (length targets - 10) @ t_count_suffix else [])"

definition newline :: string where
  "newline = [char_of (10::nat)]"

definition confirm_text :: "version_row list \<Rightarrow> string" where
  "confirm_text targets =
     dec (length targets) @ t_confirm_q @ join_with newline (delete_lines targets)
       @ delete_more targets @ newline @ newline @ t_confirm_tail"

text \<open>\<open>ok\<close> answers the \<^verbatim>\<open>window.confirm\<close> dialogue, as a function of its text.\<close>

definition on_delete_selected :: "(string \<Rightarrow> bool) \<Rightarrow> version_page \<Rightarrow> version_page" where
  "on_delete_selected ok s =
     (case vp_rows s of
        None \<Rightarrow> s
      | Some rows \<Rightarrow>
          (let idxs = selected_idx_list (vp_selection s) in
           if idxs = [] then s
           else let targets = delete_targets rows idxs in
             if \<not> ok (confirm_text targets) then s
             else v_pend (VDelete (length targets) (map v_idx targets))
                    (s\<lparr>vp_busy := True, vp_error := None\<rparr>)))"

definition delete_done :: "nat \<Rightarrow> version_page \<Rightarrow> version_page" where
  "delete_done n s =
     v_pend VDeleteRefresh (s\<lparr>vp_info := Some (t_ok_mark @ dec n @ t_deleted)\<rparr>)"

text \<open>One request of a batch has settled and \<open>rest\<close> are the unsettled ones: the first failure
  rejects \<^verbatim>\<open>Promise.all\<close>, the last success resolves it.\<close>

definition delete_result :: "nat \<Rightarrow> jsnum list \<Rightarrow> (jsnum \<times> jsnum) fetch_outcome \<Rightarrow> version_page \<Rightarrow> version_page" where
  "delete_result n rest out s =
     (case settle out of
        Inr _ \<Rightarrow> if rest = [] then delete_done n s else v_pend (VDelete n rest) s
      | Inl e \<Rightarrow> (let s' = (v_fail e s)\<lparr>vp_busy := False\<rparr>
                in if rest = [] then s' else v_pend (VDeleteRest rest) s'))"

definition delete_rest_result :: "jsnum list \<Rightarrow> version_page \<Rightarrow> version_page" where
  "delete_rest_result rest s = (if rest = [] then s else v_pend (VDeleteRest rest) s)"

datatype str_field = FClient | FServer | FApp | FCatalog | FComment
datatype num_field = FActive | FUpdate | FInspection

fun update_str :: "str_field \<Rightarrow> string \<Rightarrow> version_create_input \<Rightarrow> version_create_input" where
  "update_str FClient v i = i\<lparr>vi_client_version := v\<rparr>"
| "update_str FServer v i = i\<lparr>vi_server_version := v\<rparr>"
| "update_str FApp v i = i\<lparr>vi_app_id := v\<rparr>"
| "update_str FCatalog v i = i\<lparr>vi_catalog_filename := v\<rparr>"
| "update_str FComment v i = i\<lparr>vi_comment := v\<rparr>"

fun update_num :: "num_field \<Rightarrow> jsnum \<Rightarrow> version_create_input \<Rightarrow> version_create_input" where
  "update_num FActive v i = i\<lparr>vi_is_active := v\<rparr>"
| "update_num FUpdate v i = i\<lparr>vi_update_flag := v\<rparr>"
| "update_num FInspection v i = i\<lparr>vi_inspection_flag := v\<rparr>"

datatype version_event =
    CreateSubmit | ReloadClick | VRefreshClick | DeleteClick
  | SetSelection selection | UpdStr str_field string | UpdNum num_field jsnum

fun version_handle :: "(string \<Rightarrow> bool) \<Rightarrow> version_event \<Rightarrow> version_page \<Rightarrow> version_page" where
  "version_handle ok CreateSubmit s = on_create s"
| "version_handle ok ReloadClick s = on_reload s"
| "version_handle ok VRefreshClick s = v_refresh s"
| "version_handle ok DeleteClick s = on_delete_selected ok s"
| "version_handle ok (SetSelection sel) s = s\<lparr>vp_selection := sel\<rparr>"
| "version_handle ok (UpdStr k v) s = s\<lparr>vp_input := update_str k v (vp_input s)\<rparr>"
| "version_handle ok (UpdNum k v) s = s\<lparr>vp_input := update_num k v (vp_input s)\<rparr>"

section \<open>Rendering\<close>

definition field :: "string \<Rightarrow> string \<Rightarrow> str_field \<Rightarrow> string \<Rightarrow> version_event vnode" where
  "field label value k placeholder = El ''label'' [Txt label, Inp value placeholder (UpdStr k)]"

definition select_field :: "string \<Rightarrow> string \<Rightarrow> str_field \<Rightarrow> string list \<Rightarrow> version_event vnode" where
  "select_field label value k options = El ''label'' [Txt label, Select value options (UpdStr k)]"

definition number_field :: "string \<Rightarrow> jsnum \<Rightarrow> num_field \<Rightarrow> version_event vnode" where
  "number_field label value k = El ''label'' [Txt label,
     Inp (num_to_string value) [] (\<lambda>v. UpdNum k (parse_int10 (if v = [] then ''0'' else v)))]"

definition badge :: "string \<Rightarrow> 'e vnode" where
  "badge label = El ''span'' [Txt label]"

definition row_id :: "version_row \<Rightarrow> string" where
  "row_id r = num_to_string (v_idx r)"

definition text_column :: "string \<Rightarrow> (version_row \<Rightarrow> string) \<Rightarrow> (version_row, version_event) column" where
  "text_column h f = \<lparr>col_header = Txt h, col_cell = (\<lambda>r. Txt (f r)), col_resizable = True\<rparr>"

definition version_columns ::
  "table_lib \<Rightarrow> version_row list \<Rightarrow> selection \<Rightarrow> (version_row, version_event) column list" where
  "version_columns lib rows sel =
     (let ids = map row_id rows in
      [\<lparr>col_header = select_checkbox (tl_all_selected lib ids sel) (Some (tl_some_selected lib ids sel))
           (SetSelection (tl_toggle_all lib ids (\<not> tl_all_selected lib ids sel) sel)),
        col_cell = (\<lambda>r. let on = (row_id r, True) \<in> set sel in
           select_checkbox on None (SetSelection (tl_toggle_row lib (row_id r) (Some (\<not> on)) sel))),
        col_resizable = False\<rparr>,
       text_column ''idx'' (\<lambda>r. num_to_string (v_idx r)),
       text_column ''client'' v_client_version,
       text_column ''server'' v_server_version,
       text_column ''app_id'' v_app_id,
       \<lparr>col_header = Txt ''active'',
        col_cell = (\<lambda>r. badge (if v_is_active r = Fin 1 then ''ON'' else ''off'')), col_resizable = True\<rparr>,
       text_column ''update'' (\<lambda>r. num_to_string (v_update_flag r)),
       text_column ''inspect'' (\<lambda>r. num_to_string (v_inspection_flag r)),
       text_column ''comment'' v_comment,
       text_column ''insert_time'' v_insert_time])"

definition version_props ::
  "table_lib \<Rightarrow> version_page \<Rightarrow> (version_row, version_event) table_props" where
  "version_props lib s =
     (let rows = (case vp_rows s of Some rs \<Rightarrow> rs | None \<Rightarrow> []) in
      (default_props rows (version_columns lib rows (vp_selection s)))
        \<lparr>tp_enable_selection := True, tp_selection := Some (vp_selection s),
         tp_on_selection_change := Some SetSelection, tp_get_row_id := Some row_id,
         tp_loading := (vp_rows s = None), tp_empty_text := t_no_rows,
         tp_resize := Some Vertical, tp_initial_height := 300\<rparr>)"

definition version_view :: "table_lib \<Rightarrow> version_page \<Rightarrow> version_event vnode" where
  "version_view lib s =
     (let i = vp_input s; n = length (selected_idx_list (vp_selection s)) in
      El ''section'' (
       [El ''div'' [El ''h2'' [Txt t_version_title], Btn t_design_reload (vp_busy s) ReloadClick],
        El ''form''
         [El ''h3'' [Txt t_new_version],
          field ''client_version *'' (vi_client_version i) FClient ''1.2.0'',
          field ''server_version *'' (vi_server_version i) FServer ''2.02.01.00'',
          select_field ''app_id'' (vi_app_id i) FApp APP_IDS,
          field ''catalog_filename'' (vi_catalog_filename i) FCatalog ''manifest.json'',
          number_field ''is_active'' (vi_is_active i) FActive,
          number_field ''update_flag'' (vi_update_flag i) FUpdate,
          number_field ''inspection_flag'' (vi_inspection_flag i) FInspection,
          field ''comment'' (vi_comment i) FComment t_comment_ph,
          Btn t_add (vp_busy s) CreateSubmit,
          Txt t_after_add, Txt ''Design Reload'', Txt t_press_reload]]
       @ message_nodes [] (vp_info s) @ message_nodes t_err_mark (vp_error s)
       @ [El ''div''
           [El ''h3'' (Txt t_version_list
              # when_nodes (0 < n) [Txt (t_sel_pre @ dec n @ t_selected)]),
            Btn t_refresh (vp_busy s) VRefreshClick,
            Btn (t_delete @ (if 0 < n then '' ('' @ dec n @ '')'' else [])) (vp_busy s \<or> n = 0) DeleteClick,
            data_table lib (version_props lib s) []]]))"

section \<open>Steps\<close>

definition version_init :: "version_page \<Rightarrow> bool" where
  "version_init s \<longleftrightarrow> s = \<lparr>vp_rows = None, vp_selection = [], vp_input = EMPTY_INPUT,
     vp_busy = False, vp_error = None, vp_info = None, vp_pending = [VRefresh]\<rparr>"

abbreviation settled :: "version_page \<Rightarrow> version_op list \<Rightarrow> version_page" where
  "settled s ps \<equiv> s\<lparr>vp_pending := ps\<rparr>"

inductive version_step :: "table_lib \<Rightarrow> version_page \<Rightarrow> version_page \<Rightarrow> bool" for lib where
  version_click: "e \<in> set (clicks (version_view lib s)) \<Longrightarrow> version_step lib s (version_handle ok e s)"
| version_input: "h \<in> set (inputs (version_view lib s)) \<Longrightarrow> version_step lib s (version_handle ok (h v) s)"
| version_refreshed: "vp_pending s = xs @ VRefresh # ys \<Longrightarrow>
    version_step lib s (v_refresh_result out (settled s (xs @ ys)))"
| version_created: "vp_pending s = xs @ VCreate i # ys \<Longrightarrow>
    version_step lib s (create_result out' (settled s (xs @ ys)))"
| version_trailing: "vp_pending s = xs @ p # ys \<Longrightarrow> p = VCreateRefresh \<or> p = VDeleteRefresh \<Longrightarrow>
    version_step lib s (trailing_refresh_result out (settled s (xs @ ys)))"
| version_reloaded: "vp_pending s = xs @ VReload # ys \<Longrightarrow>
    version_step lib s (reload_result out'' (settled s (xs @ ys)))"
| version_deleted: "vp_pending s = xs @ VDelete n (as @ i # bs) # ys \<Longrightarrow>
    version_step lib s (delete_result n (as @ bs) outd (settled s (xs @ ys)))"
| version_none_deleted: "vp_pending s = xs @ VDelete n [] # ys \<Longrightarrow>
    version_step lib s (delete_done n (settled s (xs @ ys)))"
| version_rest_deleted: "vp_pending s = xs @ VDeleteRest (as @ i # bs) # ys \<Longrightarrow>
    version_step lib s (delete_rest_result (as @ bs) (settled s (xs @ ys)))"

fun is_guarded_op :: "version_op \<Rightarrow> bool" where
  "is_guarded_op VRefresh = False"
| "is_guarded_op (VDeleteRest r) = False"
| "is_guarded_op _ = True"

section \<open>Lemmas\<close>

definition page_rows :: "version_page \<Rightarrow> version_row list" where
  "page_rows s = (case vp_rows s of Some rs \<Rightarrow> rs | None \<Rightarrow> [])"

text \<open>The selections the table can raise: those of the header box, of a row and of a row's box.\<close>

lemma version_table_clicks:
  assumes "e \<in> set (clicks (data_table lib (version_props lib s) internal))"
  obtains sel where "e = SetSelection sel"
    and "table_lib_ok lib \<Longrightarrow> sel_on sel \<subseteq> sel_on (vp_selection s) \<union> row_id ` set (page_rows s)"
proof -
  let ?rows = "page_rows s" and ?sel = "vp_selection s"
  have "(\<exists>b. e = SetSelection (tl_toggle_all lib (map row_id ?rows) b ?sel))
      \<or> (\<exists>r \<in> set ?rows. \<exists>v. e = SetSelection (tl_toggle_row lib (row_id r) v ?sel))"
    using assms
    by (subst (asm) data_table_clicks [where h = SetSelection and sel = ?sel])
      (auto simp: version_props_def version_columns_def default_props_def text_column_def badge_def
        select_checkbox_def row_ids_def page_rows_def Let_def
        split: if_splits option.splits)
  then show thesis
  proof (elim disjE exE bexE)
    fix b assume "e = SetSelection (tl_toggle_all lib (map row_id ?rows) b ?sel)"
    then show thesis
      using sel_on_toggle_all [of lib "map row_id ?rows" b ?sel] by (intro that) auto
  next
    fix r v assume "r \<in> set ?rows" "e = SetSelection (tl_toggle_row lib (row_id r) v ?sel)"
    then show thesis
      using sel_on_toggle_row [of lib "row_id r" v ?sel] by (intro that) auto
  qed
qed

lemma version_clicks:
  assumes "e \<in> set (clicks (version_view lib s))"
  shows "(e \<in> {CreateSubmit, ReloadClick, VRefreshClick} \<and> \<not> vp_busy s)
    \<or> (e = DeleteClick \<and> \<not> vp_busy s \<and> selected_idx_list (vp_selection s) \<noteq> [])
    \<or> (\<exists>v. e = UpdStr FApp v)
    \<or> (\<exists>sel. e = SetSelection sel
        \<and> (table_lib_ok lib \<longrightarrow> sel_on sel \<subseteq> sel_on (vp_selection s) \<union> row_id ` set (page_rows s)))"
  using assms
  by (auto simp: version_view_def Let_def field_def select_field_def number_field_def when_nodes_def
      elim!: version_table_clicks split: if_splits)

lemma version_table_inert [simp]: "inputs (data_table lib (version_props lib s) internal) = []"
  by (rule data_table_inert)
    (auto simp: version_props_def version_columns_def text_column_def badge_def
      select_checkbox_def default_props_def Let_def)

lemma version_inputs:
  assumes "h \<in> set (inputs (version_view lib s))"
  shows "(\<exists>k. h v = UpdStr k v) \<or> (\<exists>k n. h v = UpdNum k n)"
  using assms
  by (auto simp: version_view_def Let_def field_def select_field_def number_field_def when_nodes_def
      split: if_splits)

lemmas version_handlers =
  v_pend_def v_fail_def v_refresh_def v_refresh_result_def on_create_def create_result_def
  trailing_refresh_result_def on_reload_def reload_result_def on_delete_selected_def
  delete_done_def delete_result_def delete_rest_result_def

lemma version_update_frame:
  "vp_busy (version_handle ok (UpdStr k v) s) = vp_busy s"
  "vp_pending (version_handle ok (UpdStr k v) s) = vp_pending s"
  "vp_busy (version_handle ok (UpdNum k' n) s) = vp_busy s"
  "vp_pending (version_handle ok (UpdNum k' n) s) = vp_pending s"
  by simp_all

interpretation version_guard: guarded_page version_init "version_step lib" vp_busy
  "\<lambda>s. count_ops is_guarded_op (vp_pending s)" for lib
proof unfold_locales
  show "version_init s \<Longrightarrow> count_ops is_guarded_op (vp_pending s) = (if vp_busy s then 1 else 0)" for s
    by (simp add: version_init_def)
next
  fix s t
  assume "version_step lib s t"
  then show "(\<not> vp_busy s \<and> vp_busy t \<and> count_ops is_guarded_op (vp_pending t) = Suc (count_ops is_guarded_op (vp_pending s)))
      \<or> (count_ops is_guarded_op (vp_pending s) = Suc (count_ops is_guarded_op (vp_pending t)) \<and> \<not> vp_busy t)
      \<or> (vp_busy t = vp_busy s \<and> count_ops is_guarded_op (vp_pending t) = count_ops is_guarded_op (vp_pending s))"
  proof (cases rule: version_step.cases)
    case (version_click e ok)
    from version_clicks [OF this(2)] version_click(1) show ?thesis
      by (auto simp: version_handlers Let_def split: if_splits option.splits)
  next
    case (version_input h ok v)
    from version_inputs [OF this(2), of v] version_input(1) show ?thesis by auto
  qed (auto simp: version_handlers Let_def split: if_splits option.splits sum.splits)
qed

section \<open>Settling\<close>

inductive version_net :: "version_page \<Rightarrow> version_page \<Rightarrow> bool" where
  vnet_refreshed: "vp_pending s = xs @ VRefresh # ys \<Longrightarrow>
    version_net s (v_refresh_result out (settled s (xs @ ys)))"
| vnet_created: "vp_pending s = xs @ VCreate i # ys \<Longrightarrow>
    version_net s (create_result out' (settled s (xs @ ys)))"
| vnet_trailing: "vp_pending s = xs @ p # ys \<Longrightarrow> p = VCreateRefresh \<or> p = VDeleteRefresh \<Longrightarrow>
    version_net s (trailing_refresh_result out (settled s (xs @ ys)))"
| vnet_reloaded: "vp_pending s = xs @ VReload # ys \<Longrightarrow>
    version_net s (reload_result out'' (settled s (xs @ ys)))"
| vnet_deleted: "vp_pending s = xs @ VDelete n (as @ i # bs) # ys \<Longrightarrow>
    version_net s (delete_result n (as @ bs) outd (settled s (xs @ ys)))"
| vnet_none_deleted: "vp_pending s = xs @ VDelete n [] # ys \<Longrightarrow>
    version_net s (delete_done n (settled s (xs @ ys)))"
| vnet_rest_deleted: "vp_pending s = xs @ VDeleteRest (as @ i # bs) # ys \<Longrightarrow>
    version_net s (delete_rest_result (as @ bs) (settled s (xs @ ys)))"

fun version_weight :: "version_op \<Rightarrow> nat" where
  "version_weight (VCreate i) = 2"
| "version_weight (VDelete n rest) = length rest + 2"
| "version_weight (VDeleteRest rest) = length rest"
| "version_weight _ = 1"

definition version_load :: "version_page \<Rightarrow> nat" where
  "version_load s = sum_list (map version_weight (vp_pending s))"

lemma version_net_op:
  assumes "vp_pending s = xs @ p # ys" and "0 < version_weight p"
  shows "\<exists>t. version_net s t"
proof (cases p)
  case (VDelete n rest)
  with assms(1) show ?thesis
    by (cases rest) (auto intro: vnet_none_deleted vnet_deleted [of s xs n "[]", simplified])
next
  case (VDeleteRest rest)
  with assms show ?thesis
    by (cases rest) (auto intro: vnet_rest_deleted [of s xs "[]", simplified])
qed (use assms(1) in \<open>auto intro: version_net.intros\<close>)

lemma weightless: "is_guarded_op p \<Longrightarrow> version_weight p \<noteq> 0"
  by (cases p) simp_all

interpretation version_quiet: settling_page version_init "version_step lib" vp_busy
  "\<lambda>s. count_ops is_guarded_op (vp_pending s)" version_net version_load for lib
proof unfold_locales
  fix s t
  assume "version_net s t"
  then show "version_step lib s t" by cases (auto intro: version_step.intros)
next
  fix s t
  assume "version_net s t"
  then show "version_load t < version_load s"
    by cases (auto simp: version_load_def version_handlers Let_def split: sum.splits if_splits)
next
  fix s
  assume "0 < version_load s"
  then obtain p where "p \<in> set (vp_pending s)" "0 < version_weight p"
    by (auto simp: version_load_def sum_list_eq_0_iff simp flip: neq0_conv)
  then show "\<exists>t. version_net s t" by (metis split_list version_net_op)
next
  fix s
  assume "version_load s = 0"
  then have "\<forall>p \<in> set (vp_pending s). \<not> is_guarded_op p"
    using weightless by (force simp: version_load_def sum_list_eq_0_iff)
  then show "count_ops is_guarded_op (vp_pending s) = 0" by (simp add: count_ops_def filter_empty_conv)
qed

section \<open>The selection stays inside the list\<close>

lemma page_rows_frame [simp]:
  "page_rows (vp_selection_update f s) = page_rows s"
  "page_rows (vp_pending_update g s) = page_rows s"
  "page_rows (vp_busy_update b s) = page_rows s"
  "page_rows (vp_error_update e s) = page_rows s"
  "page_rows (vp_info_update i s) = page_rows s"
  "page_rows (vp_input_update j s) = page_rows s"
  by (simp_all add: page_rows_def)

lemma page_rows_set [simp]: "page_rows (vp_rows_update (\<lambda>_. Some rows) s) = rows"
  by (simp add: page_rows_def)

lemma selection_within_rows:
  assumes "reaches version_init (version_step lib) s" and "table_lib_ok lib"
  shows "sel_on (vp_selection s) \<subseteq> row_id ` set (page_rows s)"
  using assms(1)
proof (rule reaches_invariant)
  show "version_init s \<Longrightarrow> sel_on (vp_selection s) \<subseteq> row_id ` set (page_rows s)" for s
    by (simp add: version_init_def)
next
  fix s t
  assume "version_step lib s t" and inv: "sel_on (vp_selection s) \<subseteq> row_id ` set (page_rows s)"
  then show "sel_on (vp_selection t) \<subseteq> row_id ` set (page_rows t)"
  proof (cases rule: version_step.cases)
    case (version_click e ok)
    from version_clicks [OF this(2)] version_click(1) inv assms(2) show ?thesis
      by (auto simp: version_handlers Let_def split: if_splits option.splits) blast
  next
    case (version_input h ok v)
    from version_inputs [OF this(2), of v] version_input(1) inv show ?thesis
      by auto
  qed (auto simp: version_handlers Let_def split: if_splits option.splits sum.splits)
qed

text \<open>A create request in flight has passed the check of the form.\<close>

definition form_ok :: "version_create_input \<Rightarrow> bool" where
  "form_ok i \<longleftrightarrow> js_trim (vi_client_version i) \<noteq> [] \<and> js_trim (vi_server_version i) \<noteq> []"

lemma creates_checked:
  assumes "reaches version_init (version_step lib) s" and "VCreate i \<in> set (vp_pending s)"
  shows "form_ok i"
proof -
  from assms(1) have "\<forall>i. VCreate i \<in> set (vp_pending s) \<longrightarrow> form_ok i"
  proof (rule reaches_invariant)
    show "version_init s \<Longrightarrow> \<forall>i. VCreate i \<in> set (vp_pending s) \<longrightarrow> form_ok i" for s
      by (simp add: version_init_def)
  next
    fix s t
    assume "version_step lib s t" and inv: "\<forall>i. VCreate i \<in> set (vp_pending s) \<longrightarrow> form_ok i"
    then show "\<forall>i. VCreate i \<in> set (vp_pending t) \<longrightarrow> form_ok i"
    proof (cases rule: version_step.cases)
      case (version_click e ok)
      from version_clicks [OF this(2)] version_click(1) inv show ?thesis
        by (auto simp: version_handlers form_ok_def Let_def split: if_splits option.splits)
    next
      case (version_input h ok v)
      from version_inputs [OF this(2), of v] version_input(1) inv show ?thesis by auto
    qed (auto simp: version_handlers Let_def split: if_splits option.splits sum.splits)
  qed
  with assms(2) show ?thesis by blast
qed

definition plain_idx :: "version_row \<Rightarrow> bool" where
  "plain_idx r \<longleftrightarrow> (case v_idx r of Fin i \<Rightarrow> \<bar>i\<bar> < 2 ^ 53 | _ \<Rightarrow> False)"

lemma js_number_row_id:
  assumes "plain_idx r"
  shows "js_number (row_id r) = v_idx r"
proof -
  obtain i where i: "v_idx r = Fin i" "\<bar>i\<bar> < 2 ^ 53"
    using assms by (auto simp: plain_idx_def split: jsnum.splits)
  have "dec n \<noteq> CHR ''-'' # x" for n x
    using dec_digits [of "CHR ''-''" n] by (auto simp: is_digit_def)
  then have "dec n \<noteq> [] \<and> hd (dec n) = CHR ''-'' \<Longrightarrow> False" for n
    by (metis list.collapse)
  then show ?thesis
    using parse_int10_num_to_string [OF i(2)] i
    by (auto simp: js_number_def row_id_def dec_int_def Let_def)
qed

lemma delete_targets_selected:
  assumes "\<forall>r \<in> set rows. plain_idx r" and "sel_on sel \<subseteq> row_id ` set rows"
  shows "delete_targets rows (selected_idx_list sel) = filter (\<lambda>r. row_id r \<in> sel_on sel) rows"
  unfolding delete_targets_def
proof (rule filter_cong [OF refl])
  fix r assume r: "r \<in> set rows"
  have keys: "k = row_id q" if k: "k \<in> sel_on sel" "js_number k = v_idx q" for k q
  proof -
    obtain r' where "r' \<in> set rows" "k = row_id r'" using k(1) assms(2) by blast
    then show ?thesis using k(2) assms(1) js_number_row_id [of r'] by (simp add: row_id_def)
  qed
  have "v_idx r \<in> set (selected_idx_list sel) \<longleftrightarrow> (\<exists>k \<in> sel_on sel. js_number k = v_idx r)"
    by (force simp: selected_idx_list_def sel_on_def)
  also have "\<dots> \<longleftrightarrow> row_id r \<in> sel_on sel"
    using keys assms(1) r js_number_row_id by blast
  finally show "v_idx r \<in> set (selected_idx_list sel) \<longleftrightarrow> row_id r \<in> sel_on sel" .
qed

lemma selected_idx_list_nonempty: "selected_idx_list sel \<noteq> [] \<longleftrightarrow> sel_on sel \<noteq> {}"
  by (auto simp: selected_idx_list_def sel_on_def filter_empty_conv)

section \<open>Properties\<close>

text \<open>C15: in a reachable state an enabled delete button, once confirmed, sends exactly one delete
  request for each listed row that is ticked, in list order, and there is at least one; declining
  the dialogue changes nothing.\<close>

theorem delete_sends_selected_rows:
  assumes "reaches version_init (version_step lib) s" and "table_lib_ok lib"
    and "vp_rows s = Some rows" and "\<forall>r \<in> set rows. plain_idx r"
    and "DeleteClick \<in> set (clicks (version_view lib s))"
  defines "targets \<equiv> filter (\<lambda>r. row_id r \<in> sel_on (vp_selection s)) rows"
  shows "targets \<noteq> []
    \<and> version_handle (\<lambda>_. False) DeleteClick s = s
    \<and> concat (map version_requests (vp_pending (version_handle (\<lambda>_. True) DeleteClick s)))
        = concat (map version_requests (vp_pending s)) @ map (\<lambda>r. versionApi_delete (v_idx r)) targets"
proof -
  have sub: "sel_on (vp_selection s) \<subseteq> row_id ` set rows"
    using selection_within_rows [OF assms(1,2)] assms(3) by (simp add: page_rows_def)
  have on: "selected_idx_list (vp_selection s) \<noteq> []"
    using version_clicks [OF assms(5)] by auto
  then have "targets \<noteq> []"
    using sub unfolding targets_def selected_idx_list_nonempty by (auto simp: filter_empty_conv)
  moreover have "delete_targets rows (selected_idx_list (vp_selection s)) = targets"
    unfolding targets_def by (rule delete_targets_selected [OF assms(4) sub])
  ultimately show ?thesis
    using on assms(3) by (simp add: on_delete_selected_def v_pend_def Let_def comp_def)
qed

text \<open>At any time at most one create, reload or batch deletion is in flight, and the busy flag
  that disables their buttons is set exactly while one is.\<close>

theorem one_version_write_in_flight:
  assumes "reaches version_init (version_step lib) s"
  shows "count_ops is_guarded_op (vp_pending s) = (if vp_busy s then 1 else 0)
    \<and> (CreateSubmit \<in> set (clicks (version_view lib s)) \<longleftrightarrow> count_ops is_guarded_op (vp_pending s) = 0)
    \<and> (ReloadClick \<in> set (clicks (version_view lib s)) \<longleftrightarrow> count_ops is_guarded_op (vp_pending s) = 0)
    \<and> (DeleteClick \<in> set (clicks (version_view lib s)) \<longrightarrow> count_ops is_guarded_op (vp_pending s) = 0)"
proof -
  have "CreateSubmit \<in> set (clicks (version_view lib s)) \<longleftrightarrow> \<not> vp_busy s"
    "ReloadClick \<in> set (clicks (version_view lib s)) \<longleftrightarrow> \<not> vp_busy s"
    "DeleteClick \<in> set (clicks (version_view lib s)) \<longrightarrow> \<not> vp_busy s"
    by (auto dest: version_clicks) (auto simp: version_view_def Let_def)
  then show ?thesis using version_guard.guarded_count [OF assms] by simp
qed


text \<open>C38: no batch deletion, creation or reload can hang: a batch of \<open>n\<close> deletions is answered in
  finitely many steps whatever fails, and once the network has answered everything the page is not
  busy; no run of the network alone is endless.\<close>

theorem version_page_settles:
  assumes "reaches version_init (version_step lib) s" and "version_net\<^sup>*\<^sup>* s t"
  shows "wfP (\<lambda>u v. version_net v u) \<and> (\<exists>u. version_net\<^sup>*\<^sup>* t u \<and> \<not> vp_busy u)
    \<and> ((\<nexists>u. version_net t u) \<longrightarrow> \<not> vp_busy t \<and> {CreateSubmit, ReloadClick} \<subseteq> set (clicks (version_view lib t)))"
proof -
  obtain u where u: "version_net\<^sup>*\<^sup>* t u" "\<nexists>v. version_net u v" using version_quiet.becomes_quiet by blast
  with assms(2) have "version_net\<^sup>*\<^sup>* s u" by simp
  from version_quiet.quiet_not_busy [OF assms(1) this u(2)] u(1)
    version_quiet.quiet_not_busy [OF assms] version_quiet.net_wf
  show ?thesis by (auto simp: version_view_def Let_def)
qed

section \<open>Concrete runs\<close>

lemma row_click:
  assumes "vp_rows s = Some rows" and "r \<in> set rows"
  shows "SetSelection (tl_toggle_row lib (row_id r) None (vp_selection s)) \<in> set (clicks (version_view lib s))"
proof -
  have "SetSelection (tl_toggle_row lib (row_id r) None (vp_selection s))
      \<in> set (clicks (data_table lib (version_props lib s) []))"
    using assms
    by (subst data_table_clicks [where h = SetSelection and sel = "vp_selection s"])
      (auto simp: version_props_def default_props_def row_ids_def Let_def)
  then show ?thesis by (auto simp: version_view_def Let_def)
qed

definition demo_row :: "int \<Rightarrow> version_row" where
  "demo_row i = \<lparr>v_idx = Fin i, v_client_version = ''1.2.0'', v_server_version = ''2.02.01.00'',
     v_app_id = ''app'', v_is_active = Fin 1, v_update_flag = Fin 0, v_inspection_flag = Fin 0,
     v_catalog_filename = [], v_comment = [], v_insert_time = [], v_update_time = []\<rparr>"

definition demo_listed :: version_page where
  "demo_listed = \<lparr>vp_rows = Some [demo_row 2, demo_row 3], vp_selection = [], vp_input = EMPTY_INPUT,
     vp_busy = False, vp_error = None, vp_info = None, vp_pending = []\<rparr>"

definition demo_ticked :: version_page where
  "demo_ticked = demo_listed\<lparr>vp_selection := [(''3'', True)]\<rparr>"

lemma dec_digit_2: "dec 2 = ''2''" and dec_digit_3: "dec 3 = ''3''"
  by code_simp+

lemma demo_ids [simp]: "row_id (demo_row 2) = ''2''" "row_id (demo_row 3) = ''3''"
  by (simp_all add: row_id_def demo_row_def dec_int_def dec_digit_3 dec_digit_2)

lemma demo_listed_reachable: "reaches version_init (version_step lib) demo_listed"
proof -
  let ?s = "\<lparr>vp_rows = None, vp_selection = [], vp_input = EMPTY_INPUT,
     vp_busy = False, vp_error = None, vp_info = None, vp_pending = [VRefresh]\<rparr>"
  have "reaches version_init (version_step lib) ?s"
    by (rule reaches_init) (simp add: version_init_def)
  moreover have "version_step lib ?s
      (v_refresh_result (ok_response [demo_row 2, demo_row 3]) (settled ?s ([] @ [])))"
    by (rule version_refreshed) simp
  moreover have "v_refresh_result (ok_response [demo_row 2, demo_row 3]) (settled ?s ([] @ [])) = demo_listed"
    by (simp add: v_refresh_result_def demo_listed_def)
  ultimately show ?thesis by (metis reaches_step)
qed

lemma demo_ticked_reachable: "reaches version_init (version_step list_lib) demo_ticked"
proof -
  let ?e = "SetSelection (tl_toggle_row list_lib (row_id (demo_row 3)) None [])"
  have "version_step list_lib demo_listed (version_handle (\<lambda>_. True) ?e demo_listed)"
    using row_click [of demo_listed "[demo_row 2, demo_row 3]" "demo_row 3" list_lib]
    by (intro version_click) (simp add: demo_listed_def)
  moreover have "version_handle (\<lambda>_. True) ?e demo_listed = demo_ticked"
    by (simp add: demo_ticked_def list_lib_def)
  ultimately show ?thesis
    using reaches_step [OF demo_listed_reachable] by metis
qed

lemma delete_sends_selected_rows_witness:
  "concat (map version_requests (vp_pending (version_handle (\<lambda>_. True) DeleteClick demo_ticked)))
     = [versionApi_delete (Fin 3)]"
proof -
  have "DeleteClick \<in> set (clicks (version_view list_lib demo_ticked))"
    by (simp add: version_view_def Let_def demo_ticked_def demo_listed_def selected_idx_list_def)
  then show ?thesis
    using delete_sends_selected_rows [OF demo_ticked_reachable list_lib_ok, of "[demo_row 2, demo_row 3]"]
    by (simp add: demo_ticked_def demo_listed_def sel_on_def plain_idx_def)
      (simp add: demo_row_def)
qed

lemma one_version_write_in_flight_witness:
  "count_ops is_guarded_op (vp_pending demo_ticked) = 0
    \<and> CreateSubmit \<in> set (clicks (version_view list_lib demo_ticked))"
  using one_version_write_in_flight [OF demo_ticked_reachable]
  by (simp add: demo_ticked_def demo_listed_def)


lemma version_page_settles_witness:
  "(\<nexists>u. version_net demo_ticked u) \<and> \<not> vp_busy demo_ticked"
proof -
  have "\<nexists>u. version_net demo_ticked u" by (auto simp: demo_ticked_def demo_listed_def elim: version_net.cases)
  with version_page_settles [OF demo_ticked_reachable rtranclp.rtrancl_refl] show ?thesis by blast
qed

end
