(* ===== verification/CreateModal.thy ===== *)
theory CreateModal
  imports ApiClient Ui Texts Regex ClockPage
begin

text \<open>
  The dialogue that creates a migration file, \<open>CreateMigrationModal\<close> of
  \<^verbatim>\<open>web/admin/src/pages/MigrationsPage.tsx\<close>: its fields, the checks of
  \<^verbatim>\<open>onSubmit\<close> before the request and what is left of the handler when the request settles.
  The dialogue lives in the page; what it asks of the page (close, success) is in its result.
\<close>

record create_modal =
  md_category :: category
  md_version :: string
  md_name :: string
  md_author :: string
  md_up_sql :: string
  md_down_sql :: string
  md_submitting :: bool
  md_error :: "string option"

text \<open>A new instance takes the operator's name from \<^verbatim>\<open>localStorage\<close>.\<close>

definition modal_mount :: "string option \<Rightarrow> create_modal" where
  "modal_mount stored =
     \<lparr>md_category = Game, md_version = [], md_name = [],
      md_author = (case stored of Some a \<Rightarrow> a | None \<Rightarrow> []),
      md_up_sql = [], md_down_sql = [], md_submitting = False, md_error = None\<rparr>"

text \<open>\<^verbatim>\<open>onSubmit\<close> up to its \<^verbatim>\<open>await\<close>: the new state and the request, if it comes to
  one.\<close>

definition modal_submit :: "create_modal \<Rightarrow> create_modal \<times> create_migration_input option" where
  "modal_submit m0 =
     (let m = m0\<lparr>md_error := None\<rparr> in
      if \<not> rx_test version_rx (md_version m) then (m\<lparr>md_error := Some t_version_format\<rparr>, None)
      else if \<not> rx_test name_rx (md_name m) then (m\<lparr>md_error := Some t_name_format\<rparr>, None)
      else if js_trim (md_author m) = [] then (m\<lparr>md_error := Some t_author_required\<rparr>, None)
      else (m\<lparr>md_submitting := True\<rparr>,
            Some \<lparr>cm_category = md_category m, cm_version = md_version m, cm_name = md_name m,
                  cm_author = js_trim (md_author m), cm_up_sql = md_up_sql m, cm_down_sql = md_down_sql m\<rparr>))"

text \<open>The browser's own validation of the three \<^verbatim>\<open>required\<close> fields, before a submit event.\<close>

definition modal_required_ok :: "create_modal \<Rightarrow> bool" where
  "modal_required_ok m \<longleftrightarrow> md_author m \<noteq> [] \<and> md_version m \<noteq> [] \<and> md_name m \<noteq> []"

text \<open>
  The rest of the handler.  \<open>store\<close> is what \<^verbatim>\<open>localStorage.setItem\<close> throws, if anything.
  \<open>Inr path\<close> calls \<^verbatim>\<open>onSuccess\<close>, \<open>Inl e\<close> is the caught error.
\<close>

definition submit_outcome :: "exn option \<Rightarrow> string fetch_outcome \<Rightarrow> exn + string" where
  "submit_outcome store out =
     (case settle out of
        Inl e \<Rightarrow> Inl e
      | Inr path \<Rightarrow> (case store of Some e \<Rightarrow> Inl e | None \<Rightarrow> Inr path))"

definition modal_failed :: "exn \<Rightarrow> create_modal \<Rightarrow> create_modal" where
  "modal_failed e m = m\<lparr>md_error := Some (exn_to_string e), md_submitting := False\<rparr>"

section \<open>Rendering\<close>

datatype modal_event =
    ModalClose | ModalEscape | ModalSubmit | SetCategory category
  | SetAuthor string | SetVersion string | SetName string | SetUpSql string | SetDownSql string

text \<open>The key handler of a mounted dialogue: Escape closes it.\<close>

definition modal_keys :: "modal_event list" where
  "modal_keys = [ModalEscape]"

fun modal_edit :: "modal_event \<Rightarrow> create_modal \<Rightarrow> create_modal" where
  "modal_edit (SetCategory c) m = m\<lparr>md_category := c\<rparr>"
| "modal_edit (SetAuthor v) m = m\<lparr>md_author := v\<rparr>"
| "modal_edit (SetVersion v) m = m\<lparr>md_version := v\<rparr>"
| "modal_edit (SetName v) m = m\<lparr>md_name := v\<rparr>"
| "modal_edit (SetUpSql v) m = m\<lparr>md_up_sql := v\<rparr>"
| "modal_edit (SetDownSql v) m = m\<lparr>md_down_sql := v\<rparr>"
| "modal_edit _ m = m"

definition category_button :: "category \<Rightarrow> modal_event vnode" where
  "category_button c = Btn (if c = Game then ''GameDB'' else ''ShardDB'') False (SetCategory c)"

definition modal_view :: "create_modal \<Rightarrow> modal_event vnode" where
  "modal_view m = Clickable True ModalClose [El ''form'' (
     [El ''h3'' [Txt t_new_mig], Btn t_cross False ModalClose,
      El ''label'' (Txt ''DB'' # map category_button [Game, Shard]),
      El ''label'' [Txt t_author, Inp (md_author m) ''mega'' SetAuthor],
      El ''label'' [Txt t_version_field, Inp (md_version m) ''2.01.02'' SetVersion],
      El ''label'' [Txt t_name_field, Inp (md_name m) ''add_account_last_seen'' SetName],
      El ''label'' [Txt ''-- +goose Up'', Inp (md_up_sql m)
        ''ALTER TABLE TB_ACCOUNT ADD COLUMN last_seen BIGINT UNSIGNED NOT NULL DEFAULT 0;'' SetUpSql],
      El ''label'' [Txt ''-- +goose Down '', Txt t_forward_only, Inp (md_down_sql m)
        ''ALTER TABLE TB_ACCOUNT DROP COLUMN last_seen;'' SetDownSql]]
     @ message_nodes t_err_mark (md_error m)
     @ [El ''p'' [Txt t_saved_to, Txt t_saved_dir, Txt t_saved_note, Txt ''make mig-up'', Txt t_saved_when],
        Btn t_cancel (md_submitting m) ModalClose,
        Btn (if md_submitting m then t_creating else t_create) (md_submitting m) ModalSubmit])]"

section \<open>Lemmas\<close>

lemma modal_clicks:
  "set (clicks (modal_view m)) =
     {ModalClose, SetCategory Game, SetCategory Shard} \<union> (if md_submitting m then {} else {ModalSubmit})"
  by (auto simp: modal_view_def category_button_def)

lemma modal_inputs:
  "set (inputs (modal_view m)) = {SetAuthor, SetVersion, SetName, SetUpSql, SetDownSql}"
  by (auto simp: modal_view_def category_button_def)

text \<open>A request leaves the dialogue only when its three fields pass the checks.\<close>

definition valid_create_input :: "create_migration_input \<Rightarrow> bool" where
  "valid_create_input i \<longleftrightarrow> rx_test version_rx (cm_version i) \<and> rx_test name_rx (cm_name i)
     \<and> cm_author i \<noteq> [] \<and> js_trim (cm_author i) = cm_author i"

lemma modal_submit_valid: "modal_submit m = (m', Some i) \<Longrightarrow> valid_create_input i"
  by (auto simp: modal_submit_def valid_create_input_def Let_def split: if_splits)

lemma modal_submit_submitting:
  "modal_submit m = (m', r) \<Longrightarrow> md_submitting m' \<longleftrightarrow> md_submitting m \<or> r \<noteq> None"
  by (auto simp: modal_submit_def Let_def split: if_splits)

lemma modal_edit_submitting [simp]: "md_submitting (modal_edit e m) = md_submitting m"
  by (cases e) simp_all

end
