(* ===== verification/MigrationsPage.thy ===== *)
theory MigrationsPage
  imports CreateModal DataTable
begin

text \<open>
  The migrations page, \<^verbatim>\<open>web/admin/src/pages/MigrationsPage.tsx\<close>: the status list with
  its database tabs, the file viewer and the create dialogue.  The effects of React run right after
  the state change that triggers them: \<open>select_effect\<close> after the list or the tab changed, the
  viewer's fetch after \<^verbatim>\<open>viewing\<close> changed.  The fetches of the viewer are never
  cancelled, so several can be in flight.
\<close>

section \<open>State\<close>

record view_target =
  vt_category :: category
  vt_version :: string
  vt_filename :: string

definition AUTHOR_STORAGE_KEY :: string where
  "AUTHOR_STORAGE_KEY = ''admin.migrations.author''"

text \<open>\<open>MCreate k i\<close> is the submit of the \<open>k\<close>-th instance of the dialogue.\<close>

datatype mig_op = MStatus | MInfo | MFile view_target | MCreate nat create_migration_input

fun mig_request :: "mig_op \<Rightarrow> http_request" where
  "mig_request MStatus = migrationsApi_status"
| "mig_request MInfo = adminApi_info"
| "mig_request (MFile v) = migrationsApi_file (vt_category v) (vt_version v) (vt_filename v)"
| "mig_request (MCreate k i) = migrationsApi_create i"

record mig_page =
  mg_dbs :: "db_migration_status list option"
  mg_error :: "string option"
  mg_busy :: bool
  mg_selected :: "jsnum option"
  mg_viewing :: "view_target option"
  mg_view_content :: string
  mg_view_loading :: bool
  mg_view_error :: "string option"
  mg_creating :: "(nat \<times> create_modal) option" \<comment> \<open>the open dialogue and the number of its instance\<close>
  mg_created :: "string option"
  mg_stage :: "stage option"
  mg_storage :: "string \<rightharpoonup> string" \<comment> \<open>the browser's localStorage\<close>
  mg_mounts :: nat \<comment> \<open>dialogues opened so far\<close>
  mg_pending :: "mig_op list"

definition m_pend :: "mig_op \<Rightarrow> mig_page \<Rightarrow> mig_page" where
  "m_pend p s = s\<lparr>mg_pending := mg_pending s @ [p]\<rparr>"

section \<open>Status list and tabs\<close>

definition m_refresh :: "mig_page \<Rightarrow> mig_page" where
  "m_refresh s = m_pend MStatus (s\<lparr>mg_busy := True, mg_error := None\<rparr>)"

definition select_effect :: "mig_page \<Rightarrow> mig_page" where
  "select_effect s =
     (case mg_dbs s of
        Some (d # ds) \<Rightarrow>
          (if mg_selected s \<noteq> None then s
           else let game = (case find (\<lambda>x. db_category x = Game) (d # ds) of Some g \<Rightarrow> g | None \<Rightarrow> d)
                in s\<lparr>mg_selected := Some (db_shard_id game)\<rparr>)
      | _ \<Rightarrow> s)"

definition status_result :: "db_migration_status list fetch_outcome \<Rightarrow> mig_page \<Rightarrow> mig_page" where
  "status_result out s =
     (case settle out of
        Inr dbs \<Rightarrow> select_effect (s\<lparr>mg_dbs := Some dbs, mg_busy := False\<rparr>)
      | Inl e \<Rightarrow> s\<lparr>mg_error := Some (exn_to_string e), mg_busy := False\<rparr>)"

definition info_result :: "admin_info fetch_outcome \<Rightarrow> mig_page \<Rightarrow> mig_page" where
  "info_result out s =
     s\<lparr>mg_stage := (case settle out of Inr i \<Rightarrow> Some (ai_stage i) | Inl e \<Rightarrow> None)\<rparr>"

definition selected_db :: "mig_page \<Rightarrow> db_migration_status option" where
  "selected_db s =
     (case mg_dbs s of
        Some dbs \<Rightarrow> find (\<lambda>d. Some (db_shard_id d) = mg_selected s) dbs
      | None \<Rightarrow> None)"

definition mig_rows :: "mig_page \<Rightarrow> migration_file_status list" where
  "mig_rows s =
     (case selected_db s of
        Some d \<Rightarrow> (case db_migrations d of Some ms \<Rightarrow> ms | None \<Rightarrow> [])
      | None \<Rightarrow> [])"

section \<open>The file viewer\<close>

text \<open>\<^verbatim>\<open>setViewing\<close> and its effect: closing an open viewer clears content and error, opening
  starts the fetch and leaves the content as it is.\<close>

definition set_viewing :: "view_target option \<Rightarrow> mig_page \<Rightarrow> mig_page" where
  "set_viewing v s =
     (case v of
        None \<Rightarrow> if mg_viewing s = None then s
                else s\<lparr>mg_viewing := None, mg_view_content := [], mg_view_error := None\<rparr>
      | Some t \<Rightarrow> m_pend (MFile t)
                  (s\<lparr>mg_viewing := Some t, mg_view_loading := True, mg_view_error := None\<rparr>))"

definition open_file :: "migration_file_status \<Rightarrow> mig_page \<Rightarrow> mig_page" where
  "open_file row s =
     (case selected_db s of
        None \<Rightarrow> s
      | Some d \<Rightarrow> set_viewing (Some \<lparr>vt_category = db_category d, vt_version = mf_version row,
                                     vt_filename = mf_filename row\<rparr>) s)"

definition file_result :: "migration_file_content fetch_outcome \<Rightarrow> mig_page \<Rightarrow> mig_page" where
  "file_result out s =
     (case settle out of
        Inr r \<Rightarrow> s\<lparr>mg_view_content := fc_content r, mg_view_loading := False\<rparr>
      | Inl e \<Rightarrow> s\<lparr>mg_view_error := Some (exn_to_string e), mg_view_loading := False\<rparr>)"

section \<open>The create dialogue\<close>

definition open_create :: "mig_page \<Rightarrow> mig_page" where
  "open_create s =
     (case mg_creating s of
        Some m \<Rightarrow> s\<lparr>mg_created := None\<rparr>
      | None \<Rightarrow> s\<lparr>mg_created := None, mg_mounts := Suc (mg_mounts s),
                 mg_creating := Some (mg_mounts s, modal_mount (mg_storage s AUTHOR_STORAGE_KEY))\<rparr>)"

definition close_create :: "mig_page \<Rightarrow> mig_page" where
  "close_create s = s\<lparr>mg_creating := None\<rparr>"

definition modal_handle :: "modal_event \<Rightarrow> mig_page \<Rightarrow> mig_page" where
  "modal_handle e s =
     (case mg_creating s of
        None \<Rightarrow> s
      | Some (k, m) \<Rightarrow>
          (case e of
             ModalClose \<Rightarrow> close_create s
           | ModalEscape \<Rightarrow> close_create s
           | ModalSubmit \<Rightarrow>
               (if \<not> modal_required_ok m then s
                else case modal_submit m of
                  (m', None) \<Rightarrow> s\<lparr>mg_creating := Some (k, m')\<rparr>
                | (m', Some i) \<Rightarrow> m_pend (MCreate k i) (s\<lparr>mg_creating := Some (k, m')\<rparr>))
           | _ \<Rightarrow> s\<lparr>mg_creating := Some (k, modal_edit e m)\<rparr>))"

text \<open>The submit of instance \<open>k\<close> settles.  Success stores the author, shows the path and closes
  the dialogue that is open then; a failure reaches only the instance that sent it.\<close>

definition on_success :: "string \<Rightarrow> mig_page \<Rightarrow> mig_page" where
  "on_success path s = s\<lparr>mg_created := Some path, mg_creating := None\<rparr>"

definition create_settled ::
  "nat \<Rightarrow> create_migration_input \<Rightarrow> exn option \<Rightarrow> string fetch_outcome \<Rightarrow> mig_page \<Rightarrow> mig_page" where
  "create_settled k i store out s =
     (case submit_outcome store out of
        Inr path \<Rightarrow>
          on_success path (s\<lparr>mg_storage := (mg_storage s)(AUTHOR_STORAGE_KEY \<mapsto> cm_author i)\<rparr>)
      | Inl e \<Rightarrow>
          (case mg_creating s of
             Some (k', m) \<Rightarrow> if k' = k then s\<lparr>mg_creating := Some (k, modal_failed e m)\<rparr> else s
           | None \<Rightarrow> s))"

section \<open>Rendering\<close>

datatype mig_event =
    MRefreshClick | NewClick | TabClick jsnum | OpenFile migration_file_status | CloseView | ViewEscape
  | DismissCreated | Modal modal_event

fun mig_handle :: "mig_event \<Rightarrow> mig_page \<Rightarrow> mig_page" where
  "mig_handle MRefreshClick s = m_refresh s"
| "mig_handle NewClick s = open_create s"
| "mig_handle (TabClick i) s = select_effect (s\<lparr>mg_selected := Some i\<rparr>)"
| "mig_handle (OpenFile r) s = open_file r s"
| "mig_handle CloseView s = set_viewing None s"
| "mig_handle ViewEscape s = set_viewing None s"
| "mig_handle DismissCreated s = s\<lparr>mg_created := None\<rparr>"
| "mig_handle (Modal e) s = modal_handle e s"

fun lift_vnode :: "('a \<Rightarrow> 'b) \<Rightarrow> 'a vnode \<Rightarrow> 'b vnode" where
  "lift_vnode f (Txt s) = Txt s"
| "lift_vnode f (El t vs) = El t (map (lift_vnode f) vs)"
| "lift_vnode f (Btn l d e) = Btn l d (f e)"
| "lift_vnode f (Inp v p h) = Inp v p (f \<circ> h)"
| "lift_vnode f (Picker v p h) = Picker v p (f \<circ> h)"
| "lift_vnode f (Clickable b e vs) = Clickable b (f e) (map (lift_vnode f) vs)"
| "lift_vnode f (Check c i e) = Check c i (f e)"
| "lift_vnode f (Select v os h) = Select v os (f \<circ> h)"

fun stage_name :: "stage \<Rightarrow> string" where
  "stage_name StageLocal = ''local''"
| "stage_name StageDev = ''dev''"
| "stage_name StageQA = ''qa''"
| "stage_name StageStaging = ''staging''"
| "stage_name StageLive = ''live''"

text \<open>A string used as a condition.\<close>

definition truthy :: "string option \<Rightarrow> string option" where
  "truthy e = (case e of Some t \<Rightarrow> if t \<noteq> [] then Some t else None | None \<Rightarrow> None)"

definition mig_columns :: "(migration_file_status, mig_event) column list" where
  "mig_columns =
     [\<lparr>col_header = Txt t_col_version,
       col_cell = (\<lambda>r. El ''span'' [Txt (if mf_version r = [] then ''init'' else mf_version r)]),
       col_resizable = True\<rparr>,
      \<lparr>col_header = Txt t_col_file,
       col_cell = (\<lambda>r. Clickable True (OpenFile r) [Txt (mf_filename r)]), col_resizable = True\<rparr>,
      \<lparr>col_header = Txt ''version_id'',
       col_cell = (\<lambda>r. El ''span'' [Txt (num_to_string (mf_version_id r))]), col_resizable = True\<rparr>,
      \<lparr>col_header = Txt t_col_state,
       col_cell = (\<lambda>r. El ''span'' [Txt (if mf_applied r then ''applied'' else ''pending'')]),
       col_resizable = True\<rparr>]"

definition mig_props :: "mig_page \<Rightarrow> (migration_file_status, mig_event) table_props" where
  "mig_props s =
     (default_props (mig_rows s) mig_columns)
       \<lparr>tp_get_row_id := Some (\<lambda>r. num_to_string (mf_version_id r)), tp_loading := (mg_dbs s = None),
        tp_empty_text := t_mig_empty, tp_resize := Some Vertical, tp_initial_height := 420\<rparr>"

definition db_summary :: "db_migration_status \<Rightarrow> string list" where
  "db_summary db =
     [num_to_string (num_sub (db_total db) (db_pending db)) @ ''/'' @ num_to_string (db_total db) @ '' applied'',
      (if truthy (db_error db) \<noteq> None then t_mig_error
       else if num_pos (db_pending db) then ''pending '' @ num_to_string (db_pending db)
       else t_mig_ok)]"

text \<open>A tab is a button with several texts.\<close>

definition db_tab :: "db_migration_status \<Rightarrow> mig_event vnode" where
  "db_tab db = Clickable True (TabClick (db_shard_id db)) (Txt (db_label db) # map Txt (db_summary db))"

definition viewer :: "mig_page \<Rightarrow> view_target \<Rightarrow> mig_event vnode" where
  "viewer s v = Clickable True CloseView [El ''div''
     [Txt (category_name (vt_category v)),
      Txt (if vt_version v \<noteq> [] then '' / '' @ vt_version v else '' / (root)''),
      Txt (vt_filename v), Btn t_cross False CloseView,
      (if mg_view_loading s then El ''p'' [Txt t_loading]
       else case truthy (mg_view_error s) of
         Some e \<Rightarrow> El ''p'' [Txt (t_err_mark @ e)]
       | None \<Rightarrow> El ''pre'' [Txt (mg_view_content s)])]]"

definition toast :: "string \<Rightarrow> mig_event vnode" where
  "toast path = El ''div''
     [Txt t_created_toast, Txt path, Txt t_to_apply, Txt ''make mig-up'', Txt t_run,
      Btn t_cross False DismissCreated]"

definition header_nodes :: "mig_page \<Rightarrow> mig_event vnode list" where
  "header_nodes s =
     [El ''h2'' (Txt t_mig_title # (case mg_stage s of Some g \<Rightarrow> [Txt (''stage='' @ stage_name g)] | None \<Rightarrow> []))]
     @ when_nodes (mg_stage s = Some StageLocal) [Btn t_new_mig_button False NewClick]
     @ [Btn t_refresh_icon (mg_busy s) MRefreshClick]"

definition notice_nodes :: "mig_page \<Rightarrow> mig_event vnode list" where
  "notice_nodes s =
     [El ''p'' ([Txt t_page_is, Txt ''read-only'', Txt ''. '', Txt t_apply_only, Txt ''make mig-up'',
            Txt '' / '', Txt ''make mig-down'', Txt t_only_by]
          @ (case mg_stage s of
               Some g \<Rightarrow> when_nodes (g \<noteq> StageLocal)
                 [Txt t_create_only, Txt t_local_only, Txt t_possible_now, Txt (stage_name g), Txt '').'']
             | None \<Rightarrow> []))]
     @ message_nodes t_err_mark (mg_error s)"

definition tab_nodes :: "mig_page \<Rightarrow> mig_event vnode list" where
  "tab_nodes s = (case mg_dbs s of Some dbs \<Rightarrow> when_nodes (dbs \<noteq> []) (map db_tab dbs) | None \<Rightarrow> [])"

definition listing_nodes :: "table_lib \<Rightarrow> mig_page \<Rightarrow> mig_event vnode list" where
  "listing_nodes lib s =
     [El ''h3'' (case selected_db s of
          Some d \<Rightarrow> [Txt (db_label d), Txt (t_mig_files @ dec (length (mig_rows s)) @ t_count_suffix)]
        | None \<Rightarrow> [Txt t_mig_files_title]),
      (case selected_db s of
         Some d \<Rightarrow> (case truthy (db_error d) of
             Some e \<Rightarrow> El ''p'' [Txt (t_err_mark @ e)]
           | None \<Rightarrow> data_table lib (mig_props s) [])
       | None \<Rightarrow> data_table lib (mig_props s) [])]"

definition overlay_nodes :: "mig_page \<Rightarrow> mig_event vnode list" where
  "overlay_nodes s =
     (case mg_creating s of Some (k, m) \<Rightarrow> [lift_vnode Modal (modal_view m)] | None \<Rightarrow> [])
     @ (case truthy (mg_created s) of Some p \<Rightarrow> [toast p] | None \<Rightarrow> [])
     @ (case mg_viewing s of Some v \<Rightarrow> [viewer s v] | None \<Rightarrow> [])"

definition mig_view :: "table_lib \<Rightarrow> mig_page \<Rightarrow> mig_event vnode" where
  "mig_view lib s = El ''section''
     (header_nodes s @ notice_nodes s @ tab_nodes s @ listing_nodes lib s @ overlay_nodes s)"

section \<open>Steps\<close>

text \<open>The mount effects have run: the status and the stage are being fetched.\<close>

definition mig_init :: "mig_page \<Rightarrow> bool" where
  "mig_init s \<longleftrightarrow> (\<exists>storage. s =
     \<lparr>mg_dbs = None, mg_error = None, mg_busy = True, mg_selected = None, mg_viewing = None,
      mg_view_content = [], mg_view_loading = False, mg_view_error = None, mg_creating = None,
      mg_created = None, mg_stage = None, mg_storage = storage, mg_mounts = 0,
      mg_pending = [MStatus, MInfo]\<rparr>)"

text \<open>The keyboard handlers are installed while a viewer or a dialogue is open.\<close>

definition mig_keys :: "mig_page \<Rightarrow> mig_event list" where
  "mig_keys s = (if mg_viewing s \<noteq> None then [ViewEscape] else [])
     @ (if mg_creating s \<noteq> None then map Modal modal_keys else [])"

abbreviation m_settled :: "mig_page \<Rightarrow> mig_op list \<Rightarrow> mig_page" where
  "m_settled s ps \<equiv> s\<lparr>mg_pending := ps\<rparr>"

text \<open>\<open>srv\<close> says which outcomes the fetch of a file can have; the other fetches may have any.\<close>

inductive mig_step ::
  "table_lib \<Rightarrow> (view_target \<Rightarrow> migration_file_content fetch_outcome \<Rightarrow> bool) \<Rightarrow> mig_page \<Rightarrow> mig_page \<Rightarrow> bool"
  for lib srv where
  mig_click: "e \<in> set (clicks (mig_view lib s)) \<Longrightarrow> mig_step lib srv s (mig_handle e s)"
| mig_input: "h \<in> set (inputs (mig_view lib s)) \<Longrightarrow> mig_step lib srv s (mig_handle (h v) s)"
| mig_escape: "mig_keys s \<noteq> [] \<Longrightarrow> mig_step lib srv s (fold mig_handle (mig_keys s) s)"
| mig_status: "mg_pending s = xs @ MStatus # ys \<Longrightarrow>
    mig_step lib srv s (status_result out (m_settled s (xs @ ys)))"
| mig_info: "mg_pending s = xs @ MInfo # ys \<Longrightarrow>
    mig_step lib srv s (info_result outi (m_settled s (xs @ ys)))"
| mig_file: "mg_pending s = xs @ MFile w # ys \<Longrightarrow> srv w outf \<Longrightarrow>
    mig_step lib srv s (file_result outf (m_settled s (xs @ ys)))"
| mig_created: "mg_pending s = xs @ MCreate k i # ys \<Longrightarrow>
    mig_step lib srv s (create_settled k i store outc (m_settled s (xs @ ys)))"

fun is_status :: "mig_op \<Rightarrow> bool" where
  "is_status MStatus = True"
| "is_status _ = False"

fun is_info :: "mig_op \<Rightarrow> bool" where
  "is_info MInfo = True"
| "is_info _ = False"

section \<open>What can be clicked\<close>

lemma clicks_lift [simp]: "clicks (lift_vnode f v) = map f (clicks v)"
  by (induction v) (simp_all add: map_concat comp_def cong: map_cong)

lemma inputs_lift [simp]: "inputs (lift_vnode f v) = map (\<lambda>h. f \<circ> h) (inputs v)"
  by (induction v) (simp_all add: map_concat comp_def cong: map_cong)

lemma table_clicks_plain:
  assumes "tp_on_selection_change p = None"
  shows "set (clicks (data_table lib p internal)) =
     (\<Union>c \<in> set (tp_columns p). set (clicks (col_header c)))
     \<union> (if tp_loading p then {} else
         (\<Union>(i, r) \<in> set (zip (row_ids p) (tp_data p)). \<Union>c \<in> set (tp_columns p). set (clicks (col_cell c r))))"
  using assms
  by (simp add: data_table_def data_rows_def toggle_event_def on_row_selection_change_def
      when_nodes_def case_prod_unfold comp_def Let_def)

lemma mig_table_clicks:
  "set (clicks (data_table lib (mig_props s) internal)) =
     (if mg_dbs s = None then {} else OpenFile ` set (mig_rows s))"
proof -
  have "tp_on_selection_change (mig_props s) = None"
    by (simp add: mig_props_def default_props_def)
  note * = table_clicks_plain [OF this, of lib internal]
  show ?thesis unfolding *
    by (simp add: mig_props_def default_props_def mig_columns_def row_ids_def image_def)
      (auto simp: zip_map1 zip_same_conv_map)
qed

lemma mig_table_inert [simp]: "inputs (data_table lib (mig_props s) internal) = []"
  by (rule data_table_inert) (auto simp: mig_props_def default_props_def mig_columns_def)

definition clicks_all :: "'e vnode list \<Rightarrow> 'e set" where
  "clicks_all vs = set (concat (map clicks vs))"

lemma header_clicks:
  "clicks_all (header_nodes s) =
     (if mg_stage s = Some StageLocal then {NewClick} else {}) \<union> (if mg_busy s then {} else {MRefreshClick})"
  by (auto simp: clicks_all_def header_nodes_def when_nodes_def split: option.splits)

lemma notice_clicks: "clicks_all (notice_nodes s) = {}"
  by (auto simp: clicks_all_def notice_nodes_def when_nodes_def split: option.splits)

lemma tab_clicks: "clicks_all (tab_nodes s) \<subseteq> range TabClick"
  by (auto simp: clicks_all_def tab_nodes_def when_nodes_def db_tab_def split: option.splits)

lemma listing_clicks: "clicks_all (listing_nodes lib s) \<subseteq> OpenFile ` set (mig_rows s)"
  by (auto simp: clicks_all_def listing_nodes_def mig_table_clicks split: option.splits if_splits)

lemma overlay_clicks:
  "clicks_all (overlay_nodes s) \<subseteq>
     (case mg_creating s of
        Some (k, m) \<Rightarrow> Modal ` ({ModalClose, SetCategory Game, SetCategory Shard}
                         \<union> (if md_submitting m then {} else {ModalSubmit}))
      | None \<Rightarrow> {})
     \<union> {DismissCreated} \<union> (if mg_viewing s = None then {} else {CloseView})"
  by (auto simp: clicks_all_def overlay_nodes_def modal_clicks viewer_def toast_def split: option.splits)

lemma mig_view_clicks:
  "set (clicks (mig_view lib s)) = clicks_all (header_nodes s) \<union> clicks_all (notice_nodes s)
     \<union> clicks_all (tab_nodes s) \<union> clicks_all (listing_nodes lib s) \<union> clicks_all (overlay_nodes s)"
  by (simp add: mig_view_def clicks_all_def Un_assoc)

lemma mig_clicks:
  assumes "e \<in> set (clicks (mig_view lib s))"
  obtains (new) "e = NewClick" "mg_stage s = Some StageLocal"
  | (refresh) "e = MRefreshClick" "\<not> mg_busy s"
  | (tab) i where "e = TabClick i"
  | (open_row) r where "r \<in> set (mig_rows s)" "e = OpenFile r"
  | (close) "e = CloseView" "mg_viewing s \<noteq> None"
  | (dismiss) "e = DismissCreated"
  | (modal) k m ev where "mg_creating s = Some (k, m)" "e = Modal ev"
      "ev = ModalClose \<or> (\<exists>c. ev = SetCategory c) \<or> (ev = ModalSubmit \<and> \<not> md_submitting m)"
proof -
  note e = assms [unfolded mig_view_clicks header_clicks notice_clicks]
  note sub = subsetD [OF tab_clicks, of e s] subsetD [OF listing_clicks, of e lib s]
    subsetD [OF overlay_clicks, of e s]
  show thesis
    using e sub that
    by (elim UnE) (auto split: if_splits option.splits prod.splits)
qed

lemma viewer_inert [simp]: "inputs (viewer s v) = []" and toast_inert [simp]: "inputs (toast p) = []"
  by (simp_all add: viewer_def toast_def split: option.splits)

lemma mig_inputs:
  assumes "h \<in> set (inputs (mig_view lib s))"
  obtains k m ev where "mg_creating s = Some (k, m)" "h v = Modal ev"
    "ev \<in> {SetAuthor v, SetVersion v, SetName v, SetUpSql v, SetDownSql v}"
proof -
  have "inputs (mig_view lib s) = concat (map inputs (overlay_nodes s))"
    by (simp add: mig_view_def header_nodes_def notice_nodes_def tab_nodes_def listing_nodes_def
        when_nodes_def db_tab_def comp_def split: option.splits) auto
  with assms that show thesis
    by (auto simp: overlay_nodes_def modal_inputs split: option.splits)
qed

section \<open>Invariants\<close>

lemmas mig_handlers =
  m_pend_def m_refresh_def status_result_def info_result_def set_viewing_def open_file_def
  file_result_def open_create_def close_create_def modal_handle_def on_success_def create_settled_def

lemma select_effect_frame [simp]:
  "mg_pending (select_effect s) = mg_pending s" "mg_busy (select_effect s) = mg_busy s"
  "mg_stage (select_effect s) = mg_stage s" "mg_creating (select_effect s) = mg_creating s"
  "mg_dbs (select_effect s) = mg_dbs s"
  by (simp_all add: select_effect_def Let_def split: option.splits list.splits)

text \<open>An operation of the viewer or the dialogue leaves the status fetch alone.\<close>

lemma modal_handle_frame [simp]:
  "mg_busy (modal_handle e s) = mg_busy s"
  "count_ops is_status (mg_pending (modal_handle e s)) = count_ops is_status (mg_pending s)"
  "count_ops is_info (mg_pending (modal_handle e s)) = count_ops is_info (mg_pending s)"
  "mg_stage (modal_handle e s) = mg_stage s"
  "mg_selected (modal_handle e s) = mg_selected s"
  "mg_dbs (modal_handle e s) = mg_dbs s"
  by (auto simp: modal_handle_def close_create_def m_pend_def
      split: option.splits modal_event.splits prod.splits)

lemma set_viewing_frame [simp]:
  "mg_busy (set_viewing v s) = mg_busy s"
  "count_ops is_status (mg_pending (set_viewing v s)) = count_ops is_status (mg_pending s)"
  "count_ops is_info (mg_pending (set_viewing v s)) = count_ops is_info (mg_pending s)"
  "mg_stage (set_viewing v s) = mg_stage s" "mg_creating (set_viewing v s) = mg_creating s"
  "mg_selected (set_viewing v s) = mg_selected s"
  "mg_dbs (set_viewing v s) = mg_dbs s"
  "MCreate k i \<in> set (mg_pending (set_viewing v s)) \<longleftrightarrow> MCreate k i \<in> set (mg_pending s)"
  by (auto simp: set_viewing_def m_pend_def split: option.splits)

lemma open_file_frame [simp]:
  "mg_busy (open_file r s) = mg_busy s"
  "count_ops is_status (mg_pending (open_file r s)) = count_ops is_status (mg_pending s)"
  "count_ops is_info (mg_pending (open_file r s)) = count_ops is_info (mg_pending s)"
  "mg_stage (open_file r s) = mg_stage s" "mg_creating (open_file r s) = mg_creating s"
  "mg_selected (open_file r s) = mg_selected s"
  "mg_dbs (open_file r s) = mg_dbs s"
  "MCreate k i \<in> set (mg_pending (open_file r s)) \<longleftrightarrow> MCreate k i \<in> set (mg_pending s)"
  by (auto simp: open_file_def split: option.splits)

lemma open_create_frame [simp]:
  "mg_busy (open_create s) = mg_busy s" "mg_pending (open_create s) = mg_pending s"
  "mg_stage (open_create s) = mg_stage s" "mg_selected (open_create s) = mg_selected s"
  "mg_dbs (open_create s) = mg_dbs s"
  by (auto simp: open_create_def split: option.splits)

lemma create_settled_frame [simp]:
  "mg_busy (create_settled k i st out s) = mg_busy s"
  "mg_pending (create_settled k i st out s) = mg_pending s"
  "mg_stage (create_settled k i st out s) = mg_stage s"
  "mg_selected (create_settled k i st out s) = mg_selected s"
  "mg_dbs (create_settled k i st out s) = mg_dbs s"
  "mg_creating s = None \<Longrightarrow> mg_creating (create_settled k i st out s) = None"
  by (auto simp: create_settled_def on_success_def split: sum.splits option.splits)

lemma file_result_frame [simp]:
  "mg_busy (file_result out s) = mg_busy s" "mg_pending (file_result out s) = mg_pending s"
  "mg_stage (file_result out s) = mg_stage s" "mg_creating (file_result out s) = mg_creating s"
  "mg_selected (file_result out s) = mg_selected s" "mg_dbs (file_result out s) = mg_dbs s"
  by (auto simp: file_result_def split: sum.splits)

text \<open>The handlers that neither start nor end the status fetch.\<close>

lemma mig_handle_quiet:
  "e \<noteq> MRefreshClick \<Longrightarrow> mg_busy (mig_handle e s) = mg_busy s
     \<and> count_ops is_status (mg_pending (mig_handle e s)) = count_ops is_status (mg_pending s)"
  by (cases e) simp_all

lemma mig_keys_quiet: "e \<in> set (mig_keys s) \<Longrightarrow> e = ViewEscape \<or> e = Modal ModalEscape"
  by (auto simp: mig_keys_def modal_keys_def split: if_splits)

interpretation status_guard: guarded_page mig_init "mig_step lib srv" mg_busy
  "\<lambda>s. count_ops is_status (mg_pending s)" for lib srv
proof unfold_locales
  show "mig_init s \<Longrightarrow> count_ops is_status (mg_pending s) = (if mg_busy s then 1 else 0)" for s
    by (auto simp: mig_init_def)
next
  fix s t
  assume "mig_step lib srv s t"
  then show "(\<not> mg_busy s \<and> mg_busy t \<and> count_ops is_status (mg_pending t) = Suc (count_ops is_status (mg_pending s)))
      \<or> (count_ops is_status (mg_pending s) = Suc (count_ops is_status (mg_pending t)) \<and> \<not> mg_busy t)
      \<or> (mg_busy t = mg_busy s \<and> count_ops is_status (mg_pending t) = count_ops is_status (mg_pending s))"
  proof (cases rule: mig_step.cases)
    case (mig_click e)
    show ?thesis
    proof (cases "e = MRefreshClick")
      case True
      with mig_click(2) have "\<not> mg_busy s" by (auto elim: mig_clicks)
      with True mig_click(1) show ?thesis by (simp add: m_refresh_def m_pend_def)
    next
      case False
      with mig_handle_quiet mig_click(1) show ?thesis by blast
    qed
  next
    case (mig_input h v)
    from mig_input(2) obtain ev where "h v = Modal ev" by (rule mig_inputs)
    with mig_input(1) show ?thesis by simp
  next
    case mig_escape
    then show ?thesis by (simp add: mig_keys_def modal_keys_def)
  qed (auto simp: status_result_def info_result_def split: sum.splits)
qed

text \<open>
  The stage is fetched once and does not change afterwards; the dialogue is open, and a create
  request in flight, only in the local stage; a list that is not empty has a selected tab.
\<close>

definition mig_inv :: "mig_page \<Rightarrow> bool" where
  "mig_inv s \<longleftrightarrow>
     count_ops is_info (mg_pending s) = 0
       \<or> (count_ops is_info (mg_pending s) = 1 \<and> mg_stage s = None)"

definition create_inv :: "mig_page \<Rightarrow> bool" where
  "create_inv s \<longleftrightarrow> (mg_creating s \<noteq> None \<longrightarrow> mg_stage s = Some StageLocal)
     \<and> (\<forall>k i. MCreate k i \<in> set (mg_pending s) \<longrightarrow> mg_stage s = Some StageLocal \<and> valid_create_input i)"

definition tab_inv :: "mig_page \<Rightarrow> bool" where
  "tab_inv s \<longleftrightarrow> (mg_selected s = None \<longrightarrow> mg_dbs s = None \<or> mg_dbs s = Some [])"

lemma select_effect_tab: "tab_inv (select_effect s)"
  by (auto simp: tab_inv_def select_effect_def Let_def split: option.splits list.splits)

lemma m_refresh_frame [simp]:
  "count_ops is_info (mg_pending (m_refresh s)) = count_ops is_info (mg_pending s)"
  "mg_stage (m_refresh s) = mg_stage s" "mg_creating (m_refresh s) = mg_creating s"
  "mg_selected (m_refresh s) = mg_selected s" "mg_dbs (m_refresh s) = mg_dbs s"
  "MCreate k i \<in> set (mg_pending (m_refresh s)) \<longleftrightarrow> MCreate k i \<in> set (mg_pending s)"
  by (auto simp: m_refresh_def m_pend_def)

lemma mig_handle_info [simp]:
  "count_ops is_info (mg_pending (mig_handle e s)) = count_ops is_info (mg_pending s)"
  "mg_stage (mig_handle e s) = mg_stage s"
  by (cases e; simp)+

lemma fold_handle_info [simp]:
  "count_ops is_info (mg_pending (fold mig_handle es s)) = count_ops is_info (mg_pending s)"
  "mg_stage (fold mig_handle es s) = mg_stage s"
  by (induction es arbitrary: s) simp_all

lemma mig_inv_reachable: "reaches mig_init (mig_step lib srv) s \<Longrightarrow> mig_inv s"
proof (erule reaches_invariant)
  show "mig_init s \<Longrightarrow> mig_inv s" for s
    by (auto simp: mig_init_def mig_inv_def)
next
  fix s t
  assume "mig_step lib srv s t" and "mig_inv s"
  then show "mig_inv t"
    by (cases rule: mig_step.cases)
      (auto simp: mig_inv_def status_result_def info_result_def split: sum.splits)
qed

lemma modal_handle_creates:
  "create_inv s \<Longrightarrow> create_inv (modal_handle e s)"
  by (auto simp: create_inv_def modal_handle_def close_create_def m_pend_def
      split: option.splits modal_event.splits prod.splits dest: modal_submit_valid)

lemma mig_handle_creates:
  "create_inv s \<Longrightarrow> (e = NewClick \<Longrightarrow> mg_stage s = Some StageLocal) \<Longrightarrow> create_inv (mig_handle e s)"
  by (cases e) (auto simp: modal_handle_creates, auto simp: create_inv_def)

lemma set_viewing_creates: "create_inv s \<Longrightarrow> create_inv (set_viewing v s)"
  by (auto simp: create_inv_def)

lemma create_settled_inv: "create_inv s \<Longrightarrow> create_inv (create_settled k i st out s)"
  by (auto simp: create_inv_def create_settled_def on_success_def split: sum.splits option.splits)

lemma create_inv_settled:
  "create_inv s \<Longrightarrow> set ps \<subseteq> set (mg_pending s) \<Longrightarrow> create_inv (m_settled s ps)"
  by (auto simp: create_inv_def)

lemma create_inv_reachable: "reaches mig_init (mig_step lib srv) s \<Longrightarrow> create_inv s"
proof (induction rule: reaches.induct)
  case (reaches_init s)
  then show ?case by (auto simp: mig_init_def create_inv_def)
next
  case (reaches_step s t)
  note inv = mig_inv_reachable [OF reaches_step.hyps(1)]
  from reaches_step.hyps(2) show ?case
  proof (cases rule: mig_step.cases)
    case (mig_click e)
    then show ?thesis using mig_handle_creates [OF reaches_step.IH, of e] by (auto elim: mig_clicks)
  next
    case (mig_input h v)
    from mig_input(2) obtain ev where "h v = Modal ev" by (rule mig_inputs)
    with mig_input(1) modal_handle_creates reaches_step.IH show ?thesis by simp
  next
    case mig_escape
    then show ?thesis
      using reaches_step.IH by (auto simp: mig_keys_def modal_keys_def modal_handle_creates set_viewing_creates)
  next
    case (mig_status xs ys out)
    with create_inv_settled [OF reaches_step.IH, of "xs @ ys"] show ?thesis
      by (auto simp: status_result_def create_inv_def split: sum.splits)
  next
    case (mig_info xs ys out)
    have "mg_stage s = None" using inv mig_info(2) by (auto simp: mig_inv_def)
    with reaches_step.IH mig_info show ?thesis
      by (auto simp: create_inv_def info_result_def)
  next
    case (mig_file xs w ys outf)
    with create_inv_settled [OF reaches_step.IH, of "xs @ ys"] show ?thesis
      by (auto simp: create_inv_def)
  next
    case (mig_created xs k i ys store out)
    with create_settled_inv [OF create_inv_settled [OF reaches_step.IH, of "xs @ ys"]] show ?thesis
      by auto
  qed
qed

lemma mig_handle_tab: "tab_inv s \<Longrightarrow> tab_inv (mig_handle e s)"
  by (cases e) (simp_all add: select_effect_tab, simp_all add: tab_inv_def)

lemma tab_inv_reachable: "reaches mig_init (mig_step lib srv) s \<Longrightarrow> tab_inv s"
proof (erule reaches_invariant)
  show "mig_init s \<Longrightarrow> tab_inv s" for s
    by (auto simp: mig_init_def tab_inv_def)
next
  fix s t
  assume "mig_step lib srv s t" and inv: "tab_inv s"
  then show "tab_inv t"
    by (cases rule: mig_step.cases)
      (auto simp: mig_handle_tab mig_keys_def modal_keys_def status_result_def info_result_def select_effect_tab
        split: sum.splits, auto simp: tab_inv_def)
qed

section \<open>Properties\<close>

text \<open>C16: create requests are sent from the local stage only, with a version, a name and a trimmed
  author that pass the dialogue's checks, however the user got there; and the status list is never
  fetched twice at a time.\<close>

theorem create_requests_valid:
  assumes "reaches mig_init (mig_step lib srv) s"
  shows "(\<forall>k i. MCreate k i \<in> set (mg_pending s) \<longrightarrow> mg_stage s = Some StageLocal \<and> valid_create_input i)
    \<and> count_ops is_status (mg_pending s) = (if mg_busy s then 1 else 0)"
  using create_inv_reachable [OF assms] status_guard.guarded_count [OF assms]
  by (simp add: create_inv_def)

text \<open>The tab shown.  A loaded list that is not empty always has a selected tab.  When a list
  arrives, the selected database stays if there was one; otherwise the first game database is
  selected, and the first database when there is none.\<close>

theorem tab_after_load:
  assumes "reaches mig_init (mig_step lib srv) s" and "settle out = Inr dbs"
  shows "(mg_selected s = None \<longrightarrow> mg_dbs s = None \<or> mg_dbs s = Some [])
    \<and> mg_selected (status_result out s) =
        (case mg_selected s of
           Some i \<Rightarrow> Some i
         | None \<Rightarrow> (case filter (\<lambda>d. db_category d = Game) dbs @ dbs of
             [] \<Rightarrow> None | d # _ \<Rightarrow> Some (db_shard_id d)))"
proof -
  have "tab_inv s" by (rule tab_inv_reachable [OF assms(1)])
  moreover have "mg_selected (status_result out s) = (case mg_selected s of
           Some i \<Rightarrow> Some i
         | None \<Rightarrow> (case filter (\<lambda>d. db_category d = Game) dbs @ dbs of
             [] \<Rightarrow> None | d # _ \<Rightarrow> Some (db_shard_id d)))"
  proof (cases dbs)
    case Nil
    then show ?thesis using assms(2)
      by (simp add: status_result_def select_effect_def split: option.splits)
  next
    case (Cons d ds)
    then show ?thesis using assms(2)
      by (auto simp: status_result_def select_effect_def Let_def find_filter simp del: find.simps
          split: option.splits list.splits)
  qed
  ultimately show ?thesis unfolding tab_inv_def by blast
qed

section \<open>The viewer's race\<close>

text \<open>A server that answers every fetch of a file with that file's text.\<close>

definition honest :: "(view_target \<Rightarrow> string) \<Rightarrow> view_target \<Rightarrow> migration_file_content fetch_outcome \<Rightarrow> bool" where
  "honest body w out \<longleftrightarrow> out = ok_response \<lparr>fc_path = vt_filename w, fc_content = body w\<rparr>"

definition demo_file :: "string \<Rightarrow> migration_file_status" where
  "demo_file f = \<lparr>mf_version = [], mf_filename = f, mf_version_id = Fin 1, mf_applied = True\<rparr>"

definition demo_db :: db_migration_status where
  "demo_db = \<lparr>db_label = ''GameDB'', db_category = Game, db_shard_id = Fin 1, db_name = ''N_GAME'',
     db_total = Fin 2, db_pending = Fin 0,
     db_migrations = Some [demo_file ''a.sql'', demo_file ''b.sql''], db_error = None\<rparr>"

definition demo_target :: "string \<Rightarrow> view_target" where
  "demo_target f = \<lparr>vt_category = Game, vt_version = [], vt_filename = f\<rparr>"

definition mig_start :: mig_page where
  "mig_start = \<lparr>mg_dbs = None, mg_error = None, mg_busy = True, mg_selected = None, mg_viewing = None,
      mg_view_content = [], mg_view_loading = False, mg_view_error = None, mg_creating = None,
      mg_created = None, mg_stage = None, mg_storage = Map.empty, mg_mounts = 0,
      mg_pending = [MStatus, MInfo]\<rparr>"

definition mig_loaded :: mig_page where
  "mig_loaded = mig_start\<lparr>mg_dbs := Some [demo_db], mg_busy := False, mg_selected := Some (Fin 1),
     mg_pending := [MInfo]\<rparr>"

lemma mig_start_reachable: "reaches mig_init (mig_step lib srv) mig_start"
  by (rule reaches_init) (simp add: mig_init_def mig_start_def)

lemma mig_loaded_reachable: "reaches mig_init (mig_step lib srv) mig_loaded"
proof -
  have "mig_step lib srv mig_start (status_result (ok_response [demo_db]) (m_settled mig_start ([] @ [MInfo])))"
    by (rule mig_status) (simp add: mig_start_def)
  moreover have "status_result (ok_response [demo_db]) (m_settled mig_start ([] @ [MInfo])) = mig_loaded"
    by (simp add: status_result_def select_effect_def mig_loaded_def mig_start_def demo_db_def Let_def)
  ultimately show ?thesis using reaches_step [OF mig_start_reachable] by metis
qed

lemma row_openable:
  assumes "selected_db s = Some d" and "truthy (db_error d) = None" and "r \<in> set (mig_rows s)"
  shows "mig_step lib srv s (open_file r s)"
proof -
  have "mg_dbs s \<noteq> None" using assms(1) by (auto simp: selected_db_def split: option.splits)
  with assms have "OpenFile r \<in> clicks_all (listing_nodes lib s)"
    by (simp add: clicks_all_def listing_nodes_def mig_table_clicks)
  then have "OpenFile r \<in> set (clicks (mig_view lib s))" by (simp add: mig_view_clicks)
  from mig_click [OF this, of srv] show ?thesis by simp
qed

lemma demo_open:
  assumes "mg_dbs s = Some [demo_db]" and "mg_selected s = Some (Fin 1)" and "f = ''a.sql'' \<or> f = ''b.sql''"
  shows "mig_step lib srv s (set_viewing (Some (demo_target f)) s)"
proof -
  have sel: "selected_db s = Some demo_db"
    using assms by (simp add: selected_db_def demo_db_def)
  then have "mig_step lib srv s (open_file (demo_file f) s)"
    using assms(3) by (intro row_openable) (auto simp: mig_rows_def, auto simp: demo_db_def truthy_def)
  moreover have "open_file (demo_file f) s = set_viewing (Some (demo_target f)) s"
    using sel by (simp add: open_file_def demo_file_def demo_target_def) (simp add: demo_db_def)
  ultimately show ?thesis by simp
qed

lemma demo_close:
  assumes "mg_viewing s = Some v" and "mg_creating s = None"
  shows "mig_step lib srv s (set_viewing None s)"
  using mig_escape [of s lib srv] assms by (simp add: mig_keys_def modal_keys_def)

lemma demo_answer:
  assumes "mg_pending s = xs @ MFile w # ys"
  shows "mig_step lib (honest body) s
    ((m_settled s (xs @ ys))\<lparr>mg_view_content := body w, mg_view_loading := False\<rparr>)"
  using mig_file [OF assms, of "honest body" "ok_response \<lparr>fc_path = vt_filename w, fc_content = body w\<rparr>" lib]
  by (simp add: honest_def file_result_def)

text \<open>C19: the viewer can end up showing another file.  Opening a file, closing the viewer before the
  answer and opening a second one leaves two fetches in flight; when the first answers last, the
  page settles with the second file's name over the first file's text, although the server
  answered every request correctly.\<close>

theorem viewer_shows_other_file:
  "\<exists>s v w. reaches mig_init (mig_step lib (honest body)) s
     \<and> mg_viewing s = Some v \<and> w \<noteq> v \<and> mg_view_content s = body w
     \<and> \<not> mg_view_loading s \<and> mg_view_error s = None \<and> (\<forall>x. MFile x \<notin> set (mg_pending s))"
proof -
  let ?a = "demo_target ''a.sql''" and ?b = "demo_target ''b.sql''" and ?R = "reaches mig_init (mig_step lib (honest body))"
  note defs = mig_loaded_def mig_start_def set_viewing_def m_pend_def
  define s1 where "s1 = set_viewing (Some ?a) mig_loaded"
  define s2 where "s2 = set_viewing None s1"
  define s3 where "s3 = set_viewing (Some ?b) s2"
  define s4 where "s4 = (m_settled s3 [MInfo, MFile ?a])\<lparr>mg_view_content := body ?b, mg_view_loading := False\<rparr>"
  define s5 where "s5 = (m_settled s4 [MInfo])\<lparr>mg_view_content := body ?a, mg_view_loading := False\<rparr>"
  have "?R s1" unfolding s1_def
    using mig_loaded_reachable
    by (rule reaches_step) (rule demo_open, simp_all add: defs)
  then have "?R s2" unfolding s2_def
    by (rule reaches_step) (rule demo_close, simp_all add: s1_def defs)
  then have "?R s3" unfolding s3_def
    by (rule reaches_step) (rule demo_open, simp_all add: s1_def s2_def defs)
  then have "?R s4" unfolding s4_def
    by (rule reaches_step)
      (use demo_answer [of s3 "[MInfo, MFile ?a]" ?b "[]" lib body] in \<open>simp add: s1_def s2_def s3_def defs\<close>)
  then have "?R s5" unfolding s5_def
    by (rule reaches_step) (use demo_answer [of s4 "[MInfo]" ?a "[]" lib body] in \<open>simp add: s4_def\<close>)
  moreover have "mg_viewing s5 = Some ?b" "mg_view_content s5 = body ?a" "\<not> mg_view_loading s5"
    "mg_view_error s5 = None" "\<forall>x. MFile x \<notin> set (mg_pending s5)" "?a \<noteq> ?b"
    by (simp_all add: s1_def s2_def s3_def s4_def s5_def defs, simp add: demo_target_def)
  ultimately show ?thesis by blast
qed

text \<open>Opened while no other fetch of a file is in flight, the viewer asks for exactly the row's
  file and, once answered, shows its text; an error is shown as an error.\<close>

theorem viewer_alone_shows_its_file:
  fixes r :: migration_file_status and out :: "migration_file_content fetch_outcome"
  assumes "selected_db s = Some d" and "\<forall>x. MFile x \<notin> set (mg_pending s)"
  defines "w \<equiv> \<lparr>vt_category = db_category d, vt_version = mf_version r, vt_filename = mf_filename r\<rparr>"
  defines "s1 \<equiv> open_file r s"
  defines "t \<equiv> file_result out (m_settled s1 (mg_pending s))"
  shows "filter (\<lambda>p. \<exists>x. p = MFile x) (mg_pending s1) = [MFile w] \<and> mg_view_loading s1
    \<and> mg_viewing t = Some w \<and> \<not> mg_view_loading t
    \<and> (case settle out of
         Inr c \<Rightarrow> mg_view_content t = fc_content c \<and> mg_view_error t = None
       | Inl e \<Rightarrow> mg_view_error t = Some (exn_to_string e))"
proof -
  have s1: "s1 = set_viewing (Some w) s" using assms(1) by (simp add: s1_def open_file_def w_def)
  have "filter (\<lambda>p. \<exists>x. p = MFile x) (mg_pending s) = []"
    using assms(2) by (auto simp: filter_empty_conv)
  then show ?thesis
    by (simp add: t_def s1 set_viewing_def m_pend_def file_result_def split: sum.splits)
qed

lemma viewer_alone_shows_its_file_witness:
  "mg_view_content (file_result (ok_response \<lparr>fc_path = ''p'', fc_content = ''SELECT 1;''\<rparr>)
     (m_settled (open_file (demo_file ''a.sql'') mig_loaded) [MInfo])) = ''SELECT 1;''"
  using viewer_alone_shows_its_file [of mig_loaded demo_db "demo_file ''a.sql''"
      "ok_response \<lparr>fc_path = ''p'', fc_content = ''SELECT 1;''\<rparr>"]
  by (simp add: mig_loaded_def mig_start_def selected_db_def demo_db_def)

section \<open>The dialogue's race\<close>

definition mig_local :: mig_page where
  "mig_local = mig_start\<lparr>mg_stage := Some StageLocal, mg_pending := [MStatus]\<rparr>"

lemma mig_local_reachable: "reaches mig_init (mig_step lib srv) mig_local"
proof -
  have "mig_step lib srv mig_start (info_result (ok_response \<lparr>ai_stage = StageLocal\<rparr>) (m_settled mig_start ([MStatus] @ [])))"
    by (rule mig_info) (simp add: mig_start_def)
  moreover have "info_result (ok_response \<lparr>ai_stage = StageLocal\<rparr>) (m_settled mig_start ([MStatus] @ [])) = mig_local"
    by (simp add: info_result_def mig_local_def mig_start_def)
  ultimately show ?thesis using reaches_step [OF mig_start_reachable] by metis
qed

text \<open>Steps in terms of the handlers, for runs.\<close>

lemma new_step: "mg_stage s = Some StageLocal \<Longrightarrow> mig_step lib srv s (open_create s)"
  using mig_click [of NewClick lib s srv] by (simp add: mig_view_clicks header_clicks)

lemma modal_click_step:
  assumes "mg_creating s = Some (k, m)" and "e = ModalClose \<or> (e = ModalSubmit \<and> \<not> md_submitting m)"
  shows "mig_step lib srv s (modal_handle e s)"
proof -
  have "Modal e \<in> clicks_all (overlay_nodes s)"
    using assms by (auto simp: clicks_all_def overlay_nodes_def modal_clicks)
  then show ?thesis using mig_click [of "Modal e" lib s srv] by (simp add: mig_view_clicks)
qed

lemma modal_input_step:
  assumes "mg_creating s = Some (k, m)" and "h \<in> {SetAuthor, SetVersion, SetName}"
  shows "mig_step lib srv s (modal_handle (h v) s)"
proof -
  have "Modal \<circ> h \<in> set (concat (map inputs (overlay_nodes s)))"
    using assms by (auto simp: overlay_nodes_def modal_inputs)
  then have "Modal \<circ> h \<in> set (inputs (mig_view lib s))" by (simp add: mig_view_def)
  from mig_input [OF this, of srv v] show ?thesis by simp
qed

definition demo_filled :: create_modal where
  "demo_filled = (modal_mount None)\<lparr>md_author := ''q'', md_version := ''2.01.02'', md_name := ''a''\<rparr>"

definition demo_input :: create_migration_input where
  "demo_input = \<lparr>cm_category = Game, cm_version = ''2.01.02'', cm_name = ''a'', cm_author = ''q'',
     cm_up_sql = [], cm_down_sql = []\<rparr>"

definition demo_sent :: mig_page where
  "demo_sent = mig_local\<lparr>mg_mounts := 1, mg_creating := Some (0, demo_filled\<lparr>md_submitting := True\<rparr>),
     mg_pending := [MStatus, MCreate 0 demo_input]\<rparr>"

lemma demo_submit: "modal_submit demo_filled = (demo_filled\<lparr>md_submitting := True\<rparr>, Some demo_input)"
proof -
  have "js_trim ''q'' = ''q''" by (rule js_trim_visible) (simp_all add: visible_def)
  moreover have "rx_test version_rx ''2.01.02''" "rx_test name_rx ''a''" by code_simp+
  ultimately show ?thesis
    by (simp add: modal_submit_def demo_filled_def demo_input_def modal_mount_def Let_def)
qed

lemma demo_sent_reachable: "reaches mig_init (mig_step lib srv) demo_sent"
proof -
  let ?R = "reaches mig_init (mig_step lib srv)"
  note defs = mig_local_def mig_start_def open_create_def modal_handle_def modal_mount_def
  define a1 where "a1 = open_create mig_local"
  define a2 where "a2 = modal_handle (SetAuthor ''q'') a1"
  define a3 where "a3 = modal_handle (SetVersion ''2.01.02'') a2"
  define a4 where "a4 = modal_handle (SetName ''a'') a3"
  have "?R a1" unfolding a1_def using mig_local_reachable
    by (rule reaches_step) (rule new_step, simp add: defs)
  then have "?R a2" unfolding a2_def
    by (rule reaches_step) (rule modal_input_step, auto simp: a1_def defs)
  then have "?R a3" unfolding a3_def
    by (rule reaches_step) (rule modal_input_step, auto simp: a1_def a2_def defs)
  then have r4: "?R a4" unfolding a4_def
    by (rule reaches_step) (rule modal_input_step, auto simp: a1_def a2_def a3_def defs)
  have a4: "mg_creating a4 = Some (0, demo_filled)" "mg_pending a4 = [MStatus]"
    by (simp_all add: a1_def a2_def a3_def a4_def demo_filled_def defs)
  have "?R (modal_handle ModalSubmit a4)"
    by (rule reaches_step [OF r4 modal_click_step [OF a4(1)]]) (simp add: demo_filled_def modal_mount_def)
  moreover have "modal_handle ModalSubmit a4 = demo_sent"
    using a4 demo_submit
    by (simp add: modal_handle_def demo_sent_def m_pend_def modal_required_ok_def)
      (simp add: demo_filled_def a1_def a2_def a3_def a4_def defs)
  ultimately show ?thesis by simp
qed


lemma create_requests_valid_witness:
  "MCreate 0 demo_input \<in> set (mg_pending demo_sent) \<and> valid_create_input demo_input"
  using create_requests_valid [OF demo_sent_reachable [of list_lib "honest (\<lambda>_. [])"]]
  by (simp add: demo_sent_def)

lemma tab_after_load_witness:
  "mg_selected (status_result (ok_response [demo_db]) mig_loaded) = Some (Fin 1)"
  using tab_after_load [OF mig_loaded_reachable [of list_lib "honest (\<lambda>_. [])"], of "ok_response [demo_db]" "[demo_db]"]
  by (simp add: mig_loaded_def)

end
