(* ===== verification/AdminApp.thy ===== *)
theory AdminApp
  imports ClockPage VersionPage MigrationsPage
begin

text \<open>
  The shell of the front end: the route table and the navigation of
  \<^verbatim>\<open>web/admin/src/App.tsx\<close>, the router's base name of \<^verbatim>\<open>main.tsx\<close>, and the
  base path and development proxy of \<^verbatim>\<open>vite.config.ts\<close>.  Matching a location against
  the table is the router library's.
\<close>

datatype route_element = NavigateTo string | ClockElement | VersionElement | MigrationsElement | NotFoundText

definition APP_ROUTES :: "(string \<times> route_element) list" where
  "APP_ROUTES =
     [(''/'', NavigateTo ''/clock''), (''/clock'', ClockElement), (''/version'', VersionElement),
      (''/migrations'', MigrationsElement), (''*'', NotFoundText)]"

definition NAV_ITEMS :: "(string \<times> string) list" where
  "NAV_ITEMS = [(''/clock'', t_nav_clock), (''/version'', t_nav_version), (''/migrations'', t_nav_migrations)]"

definition nav_item_class :: "bool \<Rightarrow> string" where
  "nav_item_class active = ''rounded px-2 py-1 transition '' @
     (if active then ''bg-slate-100 text-slate-900''
      else ''text-slate-400 hover:bg-slate-800 hover:text-slate-100'')"

definition app_header :: "string vnode" where
  "app_header = El ''header''
     [El ''h1'' [Txt ''FNB Admin''], El ''nav'' (map (\<lambda>(to, label). Clickable True to [Txt label]) NAV_ITEMS)]"

definition router_basename :: string where
  "router_basename = ''/admin/ui''"

record vite_config =
  vc_base :: string
  vc_out_dir :: string
  vc_empty_out_dir :: bool
  vc_port :: nat
  vc_proxy_prefix :: string
  vc_proxy_target :: string
  vc_change_origin :: bool

definition vite_settings :: vite_config where
  "vite_settings = \<lparr>vc_base = ''/admin/ui/'', vc_out_dir = ''../../internal/admin_ui/dist'',
     vc_empty_out_dir = True, vc_port = 5173, vc_proxy_prefix = ''/admin'',
     vc_proxy_target = ''http://localhost:8089'', vc_change_origin = False\<rparr>"

text \<open>All requests the three pages can send.\<close>

definition page_requests :: "http_request set" where
  "page_requests = range clock_request \<union> (\<Union>p. set (version_requests p)) \<union> range mig_request"

text \<open>Every request of every page goes below the path that the development server proxies to the
  Go server, the built bundle is served below the router's base name, and each navigation entry
  leads to a page of the route table.\<close>

theorem requests_under_proxy:
  "page_requests \<subseteq> {r. prefix (vc_proxy_prefix vite_settings @ ''/'') (rq_url r)}
   \<and> vc_base vite_settings = router_basename @ ''/''
   \<and> set (clicks app_header)
       \<subseteq> {e. map_of APP_ROUTES e \<in> Some ` {ClockElement, VersionElement, MigrationsElement}}"
proof -
  have "prefix ''/admin/'' (rq_url (clock_request p))" for p
    by (cases p) (simp_all add: clockApi_get_def clockApi_jump_def send_def BASE_def)
  moreover have "\<forall>r \<in> set (version_requests p). prefix ''/admin/'' (rq_url r)" for p
    by (cases p) (auto simp: versionApi_list_def versionApi_create_def versionApi_delete_def
        versionApi_reload_def send_def BASE_def)
  moreover have "prefix ''/admin/'' (rq_url (mig_request p))" for p
    by (cases p) (simp_all add: migrationsApi_status_def migrationsApi_file_def migrationsApi_create_def
        adminApi_info_def send_def BASE_def Let_def)
  moreover have "set (clicks app_header)
      \<subseteq> {e. map_of APP_ROUTES e \<in> Some ` {ClockElement, VersionElement, MigrationsElement}}"
    by (simp add: app_header_def NAV_ITEMS_def APP_ROUTES_def)
  ultimately show ?thesis
    by (auto simp: page_requests_def vite_settings_def router_basename_def)
qed

end
