(* ===== verification/GoRuntime.thy ===== *)
theory GoRuntime
  imports JsRuntime ApiClient
begin

text \<open>
  What the Go server uses of its language and libraries in the parts modelled here: 64-bit
  durations and \<^verbatim>\<open>Duration.Seconds\<close> in floating point, reading JSON into struct fields of a
  given width (\<^verbatim>\<open>encoding/json\<close> behind echo's \<^verbatim>\<open>Bind\<close>), \<^verbatim>\<open>ParseUint\<close>,
  replies, and the text of an error reply as the browser receives it.  Go's integers are kept as
  \<^verbatim>\<open>w word\<close> where they can wrap and as bounded \<^verbatim>\<open>int\<close> where the code has checked
  their range.
\<close>

section \<open>Durations\<close>

type_synonym int64 = "64 word"

definition SECOND :: int64 where
  "SECOND = 1000000000"

text \<open>\<^verbatim>\<open>time.Duration(s) * time.Second\<close>, which wraps.\<close>

definition duration_of_seconds :: "int64 \<Rightarrow> int64" where
  "duration_of_seconds s = s * SECOND"

text \<open>
  \<^verbatim>\<open>int64(d.Seconds())\<close>: \<^verbatim>\<open>Seconds\<close> adds two doubles, the whole seconds and the
  quotient of the rest by \<open>10 ^ 9\<close>; both have the sign of \<open>d\<close>, and the conversion drops the
  fraction.  \<open>f64_frac\<close> is the quotient as a double in units of \<open>2 ^ -201\<close>: 200 binary digits
  and a sticky bit decide the rounding.
\<close>

definition f64_frac :: "nat \<Rightarrow> nat" where
  "f64_frac r =
     (let q = r * 2 ^ 200 div 10 ^ 9 in
      f64_nat (2 * q + (if 10 ^ 9 dvd r * 2 ^ 200 then 0 else 1)))"

definition seconds_nat :: "nat \<Rightarrow> nat" where
  "seconds_nat n = f64_nat (n div 10 ^ 9 * 2 ^ 201 + f64_frac (n mod 10 ^ 9)) div 2 ^ 201"

definition seconds_int :: "int64 \<Rightarrow> int" where
  "seconds_int d = sgn (sint d) * int (seconds_nat (nat \<bar>sint d\<bar>))"

lemma bit_size_double: "0 < n \<Longrightarrow> bit_size (n * 2 ^ k) = bit_size n + k"
proof (induction k)
  case 0
  then show ?case by simp
next
  case (Suc k)
  then have "bit_size (n * 2 ^ Suc k) = Suc (bit_size (n * 2 ^ k))"
    by (subst bit_size.simps) (simp add: mult.assoc [symmetric] mult.commute)
  with Suc show ?case by simp
qed

lemma f64_nat_scaled:
  assumes "n < 2 ^ 53"
  shows "f64_nat (n * 2 ^ k) = n * 2 ^ k"
proof (cases "n = 0 \<or> bit_size (n * 2 ^ k) \<le> 53")
  case True
  then show ?thesis by (auto simp: f64_nat_def Let_def bit_size.simps [of 0])
next
  case False
  then have n: "0 < n" by simp
  with False have big: "53 < bit_size n + k" by (simp add: bit_size_double)
  define j where "j = bit_size n + k - 53"
  have "j \<le> k" using bit_size_le [OF assms] by (simp add: j_def)
  then have "(2::nat) ^ j dvd n * 2 ^ k" by (simp add: le_imp_power_dvd)
  then show ?thesis
    using big n by (simp add: f64_nat_def Let_def bit_size_double j_def)
qed

lemma seconds_nat_whole: "n < 2 ^ 53 \<Longrightarrow> seconds_nat (n * 10 ^ 9) = n"
proof -
  assume n: "n < 2 ^ 53"
  have "f64_frac 0 = 0" by (simp add: f64_frac_def f64_nat_def Let_def bit_size.simps [of 0])
  moreover have "n * 10 ^ 9 div 10 ^ 9 = n" "n * 10 ^ 9 mod 10 ^ 9 = 0" by simp_all
  ultimately show ?thesis
    unfolding seconds_nat_def using f64_nat_scaled [OF n, of 201] by simp
qed

lemma sint_small: "- (2 ^ 63) \<le> i \<Longrightarrow> i < 2 ^ 63 \<Longrightarrow> sint (word_of_int i :: int64) = i"
  by (simp add: sint_sbintrunc' signed_take_bit_int_eq_self)

text \<open>Without wrap-around the offset is read back exactly: up to \<open>9223372036\<close> seconds.\<close>

definition no_wrap :: "int \<Rightarrow> bool" where
  "no_wrap s \<longleftrightarrow> \<bar>s\<bar> \<le> 9223372036"

lemma sint_duration:
  assumes "no_wrap s"
  shows "sint (duration_of_seconds (word_of_int s)) = s * 1000000000"
proof -
  have "duration_of_seconds (word_of_int s) = word_of_int (s * 1000000000)"
    by (simp add: duration_of_seconds_def SECOND_def)
  moreover have "sint (word_of_int (s * 1000000000) :: int64) = s * 1000000000"
    using assms by (intro sint_small) (simp_all add: no_wrap_def)
  ultimately show ?thesis by simp
qed

lemma seconds_int_duration:
  assumes "no_wrap s"
  shows "seconds_int (duration_of_seconds (word_of_int s)) = s"
proof -
  have "nat \<bar>s * 1000000000\<bar> = nat \<bar>s\<bar> * 10 ^ 9" by (simp add: abs_mult nat_mult_distrib)
  moreover have "nat \<bar>s\<bar> < 2 ^ 53" using assms by (simp add: no_wrap_def nat_less_iff)
  ultimately show ?thesis
    using seconds_nat_whole [of "nat \<bar>s\<bar>"]
    by (simp only: seconds_int_def sint_duration [OF assms]) (simp add: sgn_mult sgn_mult_self_eq sgn_if abs_if)
qed

text \<open>\<^verbatim>\<open>Duration.String\<close>.\<close>

definition frac_text :: "nat \<Rightarrow> nat \<Rightarrow> string" where
  "frac_text prec v =
     (let f = v mod 10 ^ prec in
      if f = 0 then [] else ''.'' @ trim_right_set ''0'' (pad_left prec (CHR ''0'') (dec f)))"

definition duration_string :: "int64 \<Rightarrow> string" where
  "duration_string d =
     (let u = nat \<bar>sint d\<bar>; s = u div 10 ^ 9; m = s div 60; h = m div 60;
          body = (if u = 0 then ''0s''
            else if u < 10 ^ 3 then dec u @ ''ns''
            else if u < 10 ^ 6 then dec (u div 10 ^ 3) @ frac_text 3 u @ utf8 [0xC2, 0xB5] @ ''s''
            else if u < 10 ^ 9 then dec (u div 10 ^ 6) @ frac_text 6 u @ ''ms''
            else (if 0 < m then (if 0 < h then dec h @ ''h'' else []) @ dec (m mod 60) @ ''m'' else [])
                   @ dec (s mod 60) @ frac_text 9 u @ ''s'')
      in if sint d < 0 then CHR ''-'' # body else body)"

section \<open>White space\<close>

text \<open>\<^verbatim>\<open>strings.TrimSpace\<close>: Unicode's white space, which counts U+0085 and not the byte order mark.\<close>

definition go_ws :: "string list" where
  "go_ws = utf8 [0xC2, 0x85] # filter (\<lambda>w. w \<noteq> utf8 [0xEF, 0xBB, 0xBF]) js_ws"

lemma go_ws_nonempty: "w \<in> set go_ws \<Longrightarrow> w \<noteq> []"
  by (auto simp: go_ws_def utf8_def dest!: js_ws_nonempty)

lemma find_go_ws: "find P go_ws = Some w \<Longrightarrow> w \<noteq> [] \<and> P w"
  by (auto simp: find_Some_iff intro!: go_ws_nonempty)

function go_trim_start :: "string \<Rightarrow> string" where
  "go_trim_start s = (case find (\<lambda>w. prefix w s) go_ws of
       None \<Rightarrow> s
     | Some w \<Rightarrow> go_trim_start (drop (length w) s))"
  by pat_completeness auto
termination
  by (relation "measure length") (auto dest!: find_go_ws simp: prefix_def)

function go_trim_end :: "string \<Rightarrow> string" where
  "go_trim_end s = (case find (\<lambda>w. suffix w s) go_ws of
       None \<Rightarrow> s
     | Some w \<Rightarrow> go_trim_end (take (length s - length w) s))"
  by pat_completeness auto
termination
  by (relation "measure length") (auto dest!: find_go_ws simp: suffix_def)

declare go_trim_start.simps [simp del] go_trim_end.simps [simp del]

definition go_TrimSpace :: "string \<Rightarrow> string" where
  "go_TrimSpace s = go_trim_end (go_trim_start s)"

section \<open>Reading JSON\<close>

text \<open>
  A field of a request struct, looked up in the object by its tag: absent and null leave the zero
  value, an integer must fit the field's type.  None is a decoding error.
\<close>

definition json_fields :: "json \<Rightarrow> (string \<times> json) list option" where
  "json_fields j = (case j of JObj kvs \<Rightarrow> Some kvs | JNull \<Rightarrow> Some [] | _ \<Rightarrow> None)"

definition get_int :: "int \<Rightarrow> int \<Rightarrow> string \<Rightarrow> (string \<times> json) list \<Rightarrow> int option" where
  "get_int lo hi k kvs =
     (case map_of kvs k of
        None \<Rightarrow> Some 0
      | Some JNull \<Rightarrow> Some 0
      | Some (JInt i) \<Rightarrow> if lo \<le> i \<and> i \<le> hi then Some i else None
      | Some _ \<Rightarrow> None)"

definition get_uint8 :: "string \<Rightarrow> (string \<times> json) list \<Rightarrow> int option" where
  "get_uint8 = get_int 0 255"

definition get_int64 :: "string \<Rightarrow> (string \<times> json) list \<Rightarrow> int option" where
  "get_int64 = get_int (- (2 ^ 63)) (2 ^ 63 - 1)"

definition get_str :: "string \<Rightarrow> (string \<times> json) list \<Rightarrow> string option" where
  "get_str k kvs =
     (case map_of kvs k of
        None \<Rightarrow> Some []
      | Some JNull \<Rightarrow> Some []
      | Some (JStr s) \<Rightarrow> Some s
      | Some _ \<Rightarrow> None)"

text \<open>\<^verbatim>\<open>strconv.ParseUint(s, 10, 64)\<close>; None is its error.\<close>

definition parse_uint64 :: "string \<Rightarrow> nat option" where
  "parse_uint64 s =
     (if s \<noteq> [] \<and> list_all is_digit s \<and> undec s < 2 ^ 64 then Some (undec s) else None)"

lemma parse_uint64_dec [simp]: "n < 2 ^ 64 \<Longrightarrow> parse_uint64 (dec n) = Some n"
  by (simp add: parse_uint64_def)

section \<open>Replies\<close>

text \<open>
  What a handler answers: a JSON value, the JSON object with one \<^verbatim>\<open>error\<close> member, a plain
  text, or a redirect.  \<open>received\<close> is the response the browser sees; the text of an error is the
  encoded object with the encoder's final newline.  Strings are valid UTF-8.
\<close>

datatype 'a reply = ReplyJson nat 'a | ReplyError nat string | ReplyText nat string

definition hex_lower :: "nat \<Rightarrow> char" where
  "hex_lower n = (if n < 10 then char_of (48 + n) else char_of (87 + n))"

definition json_escape_char :: "char \<Rightarrow> string" where
  "json_escape_char c =
     (if c = CHR 0x22 \<or> c = CHR 0x5C then [CHR 0x5C, c]
      else if code c = 10 then [CHR 0x5C, CHR ''n'']
      else if code c = 13 then [CHR 0x5C, CHR ''r'']
      else if code c = 9 then [CHR 0x5C, CHR ''t'']
      else if code c = 8 then [CHR 0x5C, CHR ''b'']
      else if code c = 12 then [CHR 0x5C, CHR ''f'']
      else if code c < 32 \<or> c = CHR ''<'' \<or> c = CHR ''>'' \<or> c = CHR ''&''
        then CHR 0x5C # ''u00'' @ [hex_lower (code c div 16), hex_lower (code c mod 16)]
      else [c])"

text \<open>The line separators U+2028 and U+2029 are escaped as well.\<close>

fun json_escape :: "string \<Rightarrow> string" where
  "json_escape (a # b # c # s) =
     (if code a = 0xE2 \<and> code b = 0x80 \<and> (code c = 0xA8 \<or> code c = 0xA9)
      then CHR 0x5C # ''u202'' @ [hex_lower (code c - 0xA0)] @ json_escape s
      else json_escape_char a @ json_escape (b # c # s))"
| "json_escape (a # s) = json_escape_char a @ json_escape s"
| "json_escape [] = []"

definition error_body :: "string \<Rightarrow> string" where
  "error_body msg = CHR ''{'' # CHR 0x22 # ''error'' @ [CHR 0x22, CHR '':'', CHR 0x22] @ json_escape msg
     @ [CHR 0x22, CHR ''}'', char_of (10::nat)]"

definition not_json :: exn where
  "not_json = Exn ''SyntaxError'' ''Unexpected token''"

fun reply_status :: "'a reply \<Rightarrow> nat" where
  "reply_status (ReplyJson c v) = c"
| "reply_status (ReplyError c m) = c"
| "reply_status (ReplyText c t) = c"

fun received :: "'a reply \<Rightarrow> 'a fetch_outcome" where
  "received (ReplyJson c v) =
     FetchResolved \<lparr>res_status = c, res_status_text = [], res_text = Inr [], res_json = Inr v\<rparr>"
| "received (ReplyError c m) =
     FetchResolved \<lparr>res_status = c, res_status_text = [], res_text = Inr (error_body m), res_json = Inl not_json\<rparr>"
| "received (ReplyText c t) =
     FetchResolved \<lparr>res_status = c, res_status_text = [], res_text = Inr t, res_json = Inl not_json\<rparr>"

lemma settle_reply_json: "settle (received (ReplyJson 200 v)) = Inr v"
  by (simp add: res_ok_def)

lemma settle_reply_error:
  "300 \<le> c \<Longrightarrow> settle (received (ReplyError c m)) = Inl (Exn ''Error'' (dec c @ '' '' @ error_body m))"
  by (simp add: res_ok_def)

end
