(* ===== verification/GoTime.thy ===== *)
theory GoTime
  imports JsRuntime
begin

text \<open>
  Go's civil times as the server prints them: broken-down time of an instant in a fixed zone, the
  layouts \<^verbatim>\<open>time.RFC3339\<close>, \<^verbatim>\<open>20060102150405\<close> and
  \<^verbatim>\<open>2006-01-02 15:04:05 KST\<close>.  An instant is the number of nanoseconds since the epoch.
  The main fact is that the browser's reading of an RFC 3339 text gives the instant back, to the
  second.
\<close>

section \<open>From days to dates\<close>

definition year_of_day :: "int \<Rightarrow> int" where
  "year_of_day d =
     (let y = 1970 + d * 400 div 146097 in
      if d < day_from_year y then y - 1 else if day_from_year (y + 1) \<le> d then y + 1 else y)"

definition month_of :: "bool \<Rightarrow> int \<Rightarrow> nat" where
  "month_of lp doy = length (filter (\<lambda>m. days_before_month lp m \<le> doy) [1..<13])"

definition civil_of_sec :: "int \<Rightarrow> civil" where
  "civil_of_sec t =
     (let d = t div 86400; s = nat (t mod 86400); y = year_of_day d;
          doy = d - day_from_year y; m = month_of (leap y) doy
      in \<lparr>c_year = y, c_month = m, c_day = nat (doy - days_before_month (leap y) m + 1),
          c_hour = s div 3600, c_min = s mod 3600 div 60, c_sec = s mod 60\<rparr>)"

lemma day_from_year_scaled:
  "400 * day_from_year y = 146000 * (y - 1970) + 400 * ((y - 1969) div 4)
     - 400 * ((y - 1901) div 100) + 400 * ((y - 1601) div 400)"
  by (simp add: day_from_year_def)

lemma day_from_year_upper: "400 * day_from_year y \<le> 146097 * (y - 1970) + 589"
proof -
  define a b c where "a = (y - 1969) div 4" and "b = (y - 1901) div 100" and "c = (y - 1601) div 400"
  have "4 * a \<le> y - 1969" "y - 1901 - 99 \<le> 100 * b" "400 * c \<le> y - 1601"
    unfolding a_def b_def c_def by linarith+
  then show ?thesis
    unfolding day_from_year_scaled a_def [symmetric] b_def [symmetric] c_def [symmetric] by simp
qed

lemma day_from_year_lower: "146097 * (y - 1970) - 506 \<le> 400 * day_from_year y"
proof -
  define a b c where "a = (y - 1969) div 4" and "b = (y - 1901) div 100" and "c = (y - 1601) div 400"
  have "y - 1969 - 3 \<le> 4 * a" "100 * b \<le> y - 1901" "y - 1601 - 399 \<le> 400 * c"
    unfolding a_def b_def c_def by linarith+
  then show ?thesis
    unfolding day_from_year_scaled a_def [symmetric] b_def [symmetric] c_def [symmetric] by simp
qed

lemma year_of_day:
  "day_from_year (year_of_day d) \<le> d \<and> d < day_from_year (year_of_day d + 1)"
proof -
  define n where "n = d * 400 div 146097"
  have n: "146097 * n \<le> d * 400" "d * 400 < 146097 * n + 146097"
    unfolding n_def by linarith+
  have "day_from_year (1970 + n - 1) \<le> d"
    using day_from_year_upper [of "1970 + n - 1"] n by simp
  moreover have "d < day_from_year (1970 + n + 2)"
    using day_from_year_lower [of "1970 + n + 2"] n by simp
  ultimately show ?thesis
    unfolding year_of_day_def n_def [symmetric] Let_def
    by (auto simp: algebra_simps)
qed

lemma div_succ:
  fixes x k :: int
  assumes "0 < k"
  shows "(x + 1) div k = x div k + (if (x + 1) mod k = 0 then 1 else 0)"
proof -
  define q r where "q = (x + 1) div k" and "r = (x + 1) mod k"
  have x: "x + 1 = k * q + r" and r: "0 \<le> r" "r < k" using assms by (simp_all add: q_def r_def)
  have "x div k = (if r = 0 then q - 1 else q)"
  proof (cases "r = 0")
    case True
    have "x = k * (q - 1) + (k - 1)" using x True by (simp add: algebra_simps)
    then show ?thesis using True assms int_div_pos_eq [of x k "q - 1" "k - 1"] by simp
  next
    case False
    have "x = k * q + (r - 1)" using x by simp
    then show ?thesis using False assms r int_div_pos_eq [of x k q "r - 1"] by simp
  qed
  then show ?thesis unfolding q_def [symmetric] r_def [symmetric] by simp
qed

lemma mod_shift: "(y - k * c) mod k = y mod (k::int)"
  by (metis mod_diff_right_eq mod_mult_self1_is_0 diff_zero)

lemma leap_count:
  fixes A :: int
  assumes "A1 = A + (if p then 1 else 0)" and "B1 = B + (if q then 1 else 0)" and "C1 = C + (if r then 1 else 0)"
    and "r \<Longrightarrow> q" and "q \<Longrightarrow> p"
  shows "365 + (A1 - A) - (B1 - B) + (C1 - C) = (if p \<and> (\<not> q \<or> r) then 366 else 365)"
  using assms by (cases p; cases q; cases r) simp_all

lemma year_length: "day_from_year (y + 1) - day_from_year y = (if leap y then 366 else 365)"
proof -
  have "day_from_year (y + 1) - day_from_year y = 365 + ((y - 1968) div 4 - (y - 1969) div 4)
      - ((y - 1900) div 100 - (y - 1901) div 100) + ((y - 1600) div 400 - (y - 1601) div 400)"
    by (simp add: day_from_year_def)
  also have "\<dots> = (if y mod 4 = 0 \<and> (y mod 100 \<noteq> 0 \<or> y mod 400 = 0) then 366 else 365)"
  proof (rule leap_count)
    show "(y - 1968) div 4 = (y - 1969) div 4 + (if y mod 4 = 0 then 1 else 0)"
      using div_succ [of 4 "y - 1969"] mod_shift [of y 4 492] by simp
    show "(y - 1900) div 100 = (y - 1901) div 100 + (if y mod 100 = 0 then 1 else 0)"
      using div_succ [of 100 "y - 1901"] mod_shift [of y 100 19] by simp
    show "(y - 1600) div 400 = (y - 1601) div 400 + (if y mod 400 = 0 then 1 else 0)"
      using div_succ [of 400 "y - 1601"] mod_shift [of y 400 4] by simp
  qed presburger+
  finally show ?thesis unfolding leap_def .
qed

lemma sorted_count:
  fixes x :: int
  assumes "sorted bs"
  defines "m \<equiv> length (filter (\<lambda>b. b \<le> x) bs)"
  shows "(\<forall>i < m. bs ! i \<le> x) \<and> (\<forall>i. m \<le> i \<longrightarrow> i < length bs \<longrightarrow> x < bs ! i)"
  using assms(1) unfolding m_def
proof (induction bs)
  case Nil
  then show ?case by simp
next
  case (Cons b bs)
  show ?case
  proof (cases "b \<le> x")
    case True
    with Cons show ?thesis by (auto simp: nth_Cons split: nat.splits)
  next
    case False
    then have "\<forall>c \<in> set bs. \<not> c \<le> x" using Cons.prems by auto
    then have "filter (\<lambda>c. c \<le> x) bs = []" by (simp add: filter_empty_conv)
    with False \<open>\<forall>c \<in> set bs. \<not> c \<le> x\<close> show ?thesis by (auto simp: nth_Cons not_le split: nat.splits)
  qed
qed

definition month_starts :: "bool \<Rightarrow> int list" where
  "month_starts lp = map (days_before_month lp) [1..<13]"

lemma month_starts_table:
  "month_starts False = [0, 31, 59, 90, 120, 151, 181, 212, 243, 273, 304, 334]"
  "month_starts True = [0, 31, 60, 91, 121, 152, 182, 213, 244, 274, 305, 335]"
  by (simp_all add: month_starts_def days_before_month_def upt_rec)

lemma month_of_starts: "month_of lp doy = length (filter (\<lambda>b. b \<le> doy) (month_starts lp))"
  by (simp add: month_of_def month_starts_def filter_map comp_def)

lemma days_before_starts: "1 \<le> m \<Longrightarrow> m \<le> 12 \<Longrightarrow> days_before_month lp m = month_starts lp ! (m - 1)"
  by (simp add: month_starts_def)

lemma month_gaps:
  "k < 11 \<Longrightarrow> month_starts lp ! Suc k \<le> month_starts lp ! k + 31"
  "month_starts lp ! 11 + 31 = (if lp then 366 else 365)"
proof -
  have "\<forall>k \<in> set [0..<11]. month_starts lp ! Suc k \<le> month_starts lp ! k + 31"
    by (cases lp) (simp_all add: month_starts_table upt_rec)
  then show "k < 11 \<Longrightarrow> month_starts lp ! Suc k \<le> month_starts lp ! k + 31" by simp
  show "month_starts lp ! 11 + 31 = (if lp then 366 else 365)"
    by (cases lp) (simp_all add: month_starts_table)
qed

lemma month_of_day:
  assumes "0 \<le> doy" and "doy < (if lp then 366 else 365)"
  defines "m \<equiv> month_of lp doy"
  shows "1 \<le> m \<and> m \<le> 12 \<and> days_before_month lp m \<le> doy \<and> doy < days_before_month lp m + 31"
proof -
  let ?bs = "month_starts lp"
  have "sorted ?bs" and len: "length ?bs = 12" and zero: "?bs ! 0 = 0"
    by (cases lp; simp add: month_starts_table)+
  note c = sorted_count [OF this(1), of doy, folded month_of_starts, folded m_def]
  have "m \<noteq> 0" using c zero assms(1) len by fastforce
  then obtain k where k: "m = Suc k" by (cases m) auto
  have "m \<le> 12" using length_filter_le [of "\<lambda>b. b \<le> doy" ?bs] len by (simp add: m_def month_of_starts)
  moreover have "?bs ! k \<le> doy" using c k by simp
  moreover have "doy < ?bs ! k + 31"
  proof (cases "k = 11")
    case True
    with assms(2) month_gaps(2) [of lp] show ?thesis by simp
  next
    case False
    with \<open>m \<le> 12\<close> k have "k < 11" by simp
    with c k len have "doy < ?bs ! Suc k" by simp
    with month_gaps(1) [OF \<open>k < 11\<close>, of lp] show ?thesis by simp
  qed
  ultimately show ?thesis using k by (simp add: days_before_starts)
qed

lemma civil_of_sec_ok: "civil_ok (civil_of_sec t)"
  and civil_of_sec_ms: "civil_ms (civil_of_sec t) = t * 1000"
proof -
  define d y where "d = t div 86400" and "y = year_of_day d"
  define doy where "doy = d - day_from_year y"
  define s where "s = t mod 86400"
  have doy: "0 \<le> doy" "doy < (if leap y then 366 else 365)"
    using year_of_day [of d] year_length [of y] by (auto simp: doy_def y_def)
  note m = month_of_day [OF this]
  have s: "0 \<le> s" "s < 86400" "t = d * 86400 + s" by (simp_all add: s_def d_def)
  have c: "civil_of_sec t = \<lparr>c_year = y, c_month = month_of (leap y) doy,
      c_day = nat (doy - days_before_month (leap y) (month_of (leap y) doy) + 1),
      c_hour = nat s div 3600, c_min = nat s mod 3600 div 60, c_sec = nat s mod 60\<rparr>"
    by (simp add: civil_of_sec_def Let_def d_def y_def doy_def s_def)
  have n: "nat s < 86400" using s by simp
  show "civil_ok (civil_of_sec t)"
    unfolding civil_ok_def c using m n by (auto simp: less_mult_imp_div_less nat_le_iff le_nat_iff)
  have "int (nat s div 3600) * 3600 + int (nat s mod 3600 div 60) * 60 + int (nat s mod 60) = s"
  proof -
    have "nat s mod 3600 mod 60 = nat s mod 60" by (simp add: mod_mod_cancel)
    then have "nat s div 3600 * 3600 + nat s mod 3600 div 60 * 60 + nat s mod 60 = nat s"
      using div_mult_mod_eq [of "nat s" 3600] div_mult_mod_eq [of "nat s mod 3600" 60] by linarith
    then have "int (nat s div 3600 * 3600 + nat s mod 3600 div 60 * 60 + nat s mod 60) = s"
      using s(1) by simp
    then show ?thesis by (simp only: of_nat_add of_nat_mult of_nat_numeral)
  qed
  then show "civil_ms (civil_of_sec t) = t * 1000"
    unfolding civil_ms_def c using m s(3) by (simp add: doy_def algebra_simps)
qed

section \<open>Layouts\<close>

definition zpad :: "nat \<Rightarrow> nat \<Rightarrow> string" where
  "zpad w n = pad_left w (CHR ''0'') (dec n)"

definition sec_of_ns :: "int \<Rightarrow> int" where
  "sec_of_ns ns = ns div 1000000000"

text \<open>\<open>z\<close> is the zone's offset in seconds east of UTC; years are \<open>0\<close> to \<open>9999\<close>.\<close>

definition civil_in :: "int \<Rightarrow> int \<Rightarrow> civil" where
  "civil_in z ns = civil_of_sec (sec_of_ns ns + z)"

definition zone_suffix :: "int \<Rightarrow> string" where
  "zone_suffix z =
     (if z = 0 then ''Z''
      else (let m = nat \<bar>z\<bar> div 60 in
            (if z < 0 then ''-'' else ''+'') @ zpad 2 (m div 60) @ '':'' @ zpad 2 (m mod 60)))"

definition format_rfc3339 :: "int \<Rightarrow> int \<Rightarrow> string" where
  "format_rfc3339 z ns =
     (let c = civil_in z ns in
      zpad 4 (nat (c_year c)) @ ''-'' @ zpad 2 (c_month c) @ ''-'' @ zpad 2 (c_day c) @ ''T''
      @ zpad 2 (c_hour c) @ '':'' @ zpad 2 (c_min c) @ '':'' @ zpad 2 (c_sec c) @ zone_suffix z)"

definition format_stamp :: "int \<Rightarrow> int \<Rightarrow> string" where
  "format_stamp z ns =
     (let c = civil_in z ns in
      zpad 4 (nat (c_year c)) @ zpad 2 (c_month c) @ zpad 2 (c_day c)
      @ zpad 2 (c_hour c) @ zpad 2 (c_min c) @ zpad 2 (c_sec c))"

definition format_kst :: "int \<Rightarrow> int \<Rightarrow> string" where
  "format_kst z ns =
     (let c = civil_in z ns in
      zpad 4 (nat (c_year c)) @ ''-'' @ zpad 2 (c_month c) @ ''-'' @ zpad 2 (c_day c) @ '' ''
      @ zpad 2 (c_hour c) @ '':'' @ zpad 2 (c_min c) @ '':'' @ zpad 2 (c_sec c) @ '' KST'')"

definition year_fits :: "civil \<Rightarrow> bool" where
  "year_fits c \<longleftrightarrow> 0 \<le> c_year c \<and> c_year c \<le> 9999"

definition zone_ok :: "int \<Rightarrow> bool" where
  "zone_ok z \<longleftrightarrow> \<bar>z\<bar> < 86400 \<and> 60 dvd z"

lemma zpad_length: "0 < w \<Longrightarrow> n < 10 ^ w \<Longrightarrow> length (zpad w n) = w"
  using length_dec_le [of w n] by (simp add: zpad_def)

lemma zpad_digits [simp]: "list_all is_digit (zpad w n)"
  by (simp add: zpad_def)

lemma undec_zpad [simp]: "undec (zpad w n) = n"
  by (simp add: zpad_def)

lemma read_zpad: "0 < w \<Longrightarrow> n < 10 ^ w \<Longrightarrow> read_digits w (zpad w n @ r) = Some (n, r)"
  by (simp add: read_digits_append zpad_length)

lemma civil_in_ok: "civil_ok (civil_in z ns)"
  by (simp add: civil_in_def civil_of_sec_ok)

lemma read_format:
  assumes "civil_ok c" and "year_fits c"
  shows "read_civil (zpad 4 (nat (c_year c)) @ ''-'' @ zpad 2 (c_month c) @ ''-'' @ zpad 2 (c_day c) @ ''T''
      @ zpad 2 (c_hour c) @ '':'' @ zpad 2 (c_min c) @ '':'' @ zpad 2 (c_sec c) @ r) = Some (c, r)"
proof -
  have "c_month c < 10 ^ 2" "c_day c < 10 ^ 2" "c_hour c < 10 ^ 2" "c_min c < 10 ^ 2" "c_sec c < 10 ^ 2"
    "nat (c_year c) < 10 ^ 4"
    using assms by (auto simp: civil_ok_def year_fits_def)
  then show ?thesis
    using assms(2) by (simp add: read_civil_def read_zpad year_fits_def del: power_numeral)
qed

lemma read_zone_suffix:
  assumes "zone_ok z"
  shows "read_offset (zone_suffix z) = Some z"
proof (cases "z = 0")
  case True
  then show ?thesis by (simp add: read_offset_def zone_suffix_def)
next
  case False
  define m where "m = nat \<bar>z\<bar> div 60"
  have n: "nat \<bar>z\<bar> < 86400" using assms unfolding zone_ok_def by linarith
  then have m: "m div 60 < 24" "m mod 60 < 60" by (simp_all add: m_def div_mult2_eq [symmetric] less_mult_imp_div_less)
  have "60 dvd nat \<bar>z\<bar>" using assms by (simp add: zone_ok_def nat_dvd_iff)
  then have "m * 60 = nat \<bar>z\<bar>" by (simp add: m_def)
  then have z: "\<bar>z\<bar> = int (m div 60) * 3600 + int (m mod 60) * 60"
    using div_mult_mod_eq [of m 60] by linarith
  have "read_digits 2 (zpad 2 (m mod 60) @ []) = Some (m mod 60, [])"
    using m by (intro read_zpad) simp_all
  moreover have "read_digits 2 (zpad 2 (m div 60) @ CHR '':'' # zpad 2 (m mod 60)) = Some (m div 60, CHR '':'' # zpad 2 (m mod 60))"
    using m by (intro read_zpad) simp_all
  moreover have suffix: "zone_suffix z = (if z < 0 then CHR ''-'' else CHR ''+'') # zpad 2 (m div 60) @ CHR '':'' # zpad 2 (m mod 60)"
    using False by (simp add: zone_suffix_def Let_def m_def)
  ultimately have "read_offset (zone_suffix z) =
      Some ((if z < 0 then - 1 else 1) * (int (m div 60) * 3600 + int (m mod 60) * 60))"
    unfolding suffix using m by (simp add: read_offset_def)
  then show ?thesis using z by (simp split: if_splits)
qed

text \<open>The browser reads the server's RFC 3339 text as the instant it was written from, to the second.\<close>

lemma parse_format_rfc3339:
  assumes "zone_ok z" and "year_fits (civil_in z ns)"
  shows "parse_rfc3339 (format_rfc3339 z ns) = Some (sec_of_ns ns * 1000)"
proof -
  let ?c = "civil_in z ns"
  have "read_civil (format_rfc3339 z ns) = Some (?c, zone_suffix z)"
    unfolding format_rfc3339_def Let_def by (rule read_format [OF civil_in_ok assms(2)])
  moreover have "civil_ms ?c = (sec_of_ns ns + z) * 1000"
    by (simp add: civil_in_def civil_of_sec_ms)
  ultimately show ?thesis
    using civil_in_ok [of z ns] read_zone_suffix [OF assms(1)]
    by (simp add: parse_rfc3339_def algebra_simps)
qed

text \<open>The compact stamp has fourteen digits.\<close>

lemma format_stamp_shape:
  assumes "year_fits (civil_in z ns)"
  shows "length (format_stamp z ns) = 14 \<and> list_all is_digit (format_stamp z ns)"
proof -
  let ?c = "civil_in z ns"
  have "c_month ?c < 10 ^ 2" "c_day ?c < 10 ^ 2" "c_hour ?c < 10 ^ 2" "c_min ?c < 10 ^ 2" "c_sec ?c < 10 ^ 2"
    "nat (c_year ?c) < 10 ^ 4"
    using civil_in_ok [of z ns] assms by (auto simp: civil_ok_def year_fits_def)
  then show ?thesis by (simp add: format_stamp_def Let_def zpad_length del: power_numeral)
qed

end
