(* ===== verification/AdminClock.thy ===== *)
theory AdminClock
  imports GoRuntime GoTime Ui
begin

text \<open>
  The server's shiftable clock: \<^verbatim>\<open>internal/clock/clock.go\<close>, the two endpoints of
  \<open>registerClockAdmin\<close> in \<^verbatim>\<open>router/admin.go\<close>, the rows of
  \<^verbatim>\<open>TB_ADD_SERVER_TIME\<close> behind them
  (\<^verbatim>\<open>internal/repository/add_server_time_repository.go\<close>) and the part of
  \<^verbatim>\<open>main.go\<close> that restores the offset at start-up.  The process's real time, the zone it
  prints in and the errors of the database are the environment.
\<close>

section \<open>The clock\<close>

text \<open>The offset in memory and the rows of the table, oldest first: the absolute number of seconds
  and the operator.\<close>

record clock_server =
  cs_offset :: int64
  cs_rows :: "(int \<times> string) list"

definition clock_Now :: "int \<Rightarrow> clock_server \<Rightarrow> int" where
  "clock_Now real st = real + sint (cs_offset st)"

definition clock_Offset :: "clock_server \<Rightarrow> int64" where
  "clock_Offset st = cs_offset st"

definition SetOffset :: "int64 \<Rightarrow> clock_server \<Rightarrow> clock_server" where
  "SetOffset d st = st\<lparr>cs_offset := d\<rparr>"

definition Jump :: "int64 \<Rightarrow> clock_server \<Rightarrow> clock_server" where
  "Jump d st = st\<lparr>cs_offset := cs_offset st + d\<rparr>"

definition Reset :: "clock_server \<Rightarrow> clock_server" where
  "Reset st = st\<lparr>cs_offset := 0\<rparr>"

section \<open>The repository\<close>

definition time_FindLatest :: "clock_server \<Rightarrow> (int \<times> string) option" where
  "time_FindLatest st = (if cs_rows st = [] then None else Some (last (cs_rows st)))"

text \<open>\<open>err\<close> is the error of the insert, if it fails; then there is no new row.\<close>

definition time_Create :: "string option \<Rightarrow> int \<Rightarrow> string \<Rightarrow> clock_server \<Rightarrow> string + clock_server" where
  "time_Create err s user st =
     (case err of Some e \<Rightarrow> Inl e | None \<Rightarrow> Inr (st\<lparr>cs_rows := cs_rows st @ [(s, user)]\<rparr>))"

section \<open>The endpoints\<close>

record jump_request =
  jr_add_second :: int
  jr_user :: string

definition bind_jump :: "json \<Rightarrow> jump_request option" where
  "bind_jump j = do {
     kvs \<leftarrow> json_fields j;
     s \<leftarrow> get_int64 ''add_second'' kvs;
     u \<leftarrow> get_str ''user'' kvs;
     Some \<lparr>jr_add_second = s, jr_user = u\<rparr> }"

text \<open>The handler up to the insert, and from \<^verbatim>\<open>SetOffset\<close> on.  \<open>bind_err\<close> is the text of
  echo's binding error.\<close>

definition jump_insert ::
  "string \<Rightarrow> string option \<Rightarrow> json \<Rightarrow> clock_server \<Rightarrow> clock_jump_result reply + (int \<times> clock_server)" where
  "jump_insert bind_err db_err body st =
     (case bind_jump body of
        None \<Rightarrow> Inl (ReplyError 400 bind_err)
      | Some req \<Rightarrow>
          (if jr_user req = [] then Inl (ReplyError 400 ''user required'')
           else case time_Create db_err (jr_add_second req) (jr_user req) st of
             Inl e \<Rightarrow> Inl (ReplyError 500 e)
           | Inr st' \<Rightarrow> Inr (jr_add_second req, st')))"

definition jump_apply :: "int \<Rightarrow> int \<Rightarrow> int \<Rightarrow> clock_server \<Rightarrow> clock_jump_result reply \<times> clock_server" where
  "jump_apply z real s st =
     (let st' = SetOffset (duration_of_seconds (word_of_int s)) st in
      (ReplyJson 200 \<lparr>cj_add_second = to_num s, cj_logical_time = format_rfc3339 z (clock_Now real st')\<rparr>, st'))"

definition post_clock_jump ::
  "int \<Rightarrow> int \<Rightarrow> string \<Rightarrow> string option \<Rightarrow> json \<Rightarrow> clock_server \<Rightarrow> clock_jump_result reply \<times> clock_server" where
  "post_clock_jump z real bind_err db_err body st =
     (case jump_insert bind_err db_err body st of
        Inl r \<Rightarrow> (r, st)
      | Inr (s, st') \<Rightarrow> jump_apply z real s st')"

text \<open>\<open>real\<close> and \<open>real'\<close> are the two readings of the process clock.\<close>

definition get_clock :: "int \<Rightarrow> int \<Rightarrow> int \<Rightarrow> clock_server \<Rightarrow> clock_info reply" where
  "get_clock z real real' st =
     ReplyJson 200 \<lparr>ci_offset_sec = to_num (seconds_int (clock_Offset st)),
       ci_offset_human = duration_string (clock_Offset st),
       ci_real_time = format_rfc3339 z real, ci_logical_time = format_rfc3339 z (clock_Now real' st)\<rparr>"

text \<open>Start-up: a new process has offset zero and takes the latest row; a failing query is only
  logged.\<close>

definition boot_clock :: "string option \<Rightarrow> clock_server \<Rightarrow> clock_server" where
  "boot_clock err st0 =
     (let st = Reset st0 in
      case err of
        Some e \<Rightarrow> st
      | None \<Rightarrow> (case time_FindLatest st of
            None \<Rightarrow> st
          | Some (s, u) \<Rightarrow> SetOffset (duration_of_seconds (word_of_int s)) st))"

section \<open>Lemmas\<close>

lemma clock_Now_jumped:
  "no_wrap s \<Longrightarrow> clock_Now real (SetOffset (duration_of_seconds (word_of_int s)) st) = real + s * 1000000000"
  by (simp add: clock_Now_def SetOffset_def sint_duration)

lemma no_wrap_int64: "no_wrap s \<Longrightarrow> - (2 ^ 63) \<le> s \<and> s \<le> 2 ^ 63 - 1"
  unfolding no_wrap_def by auto

text \<open>The body the page sends is the one the server reads.\<close>

definition jump_body :: "jsnum \<Rightarrow> string \<Rightarrow> json" where
  "jump_body n user = JObj [(''add_second'', json_num n), (''user'', JStr user)]"

lemma request_jump_body: "rq_body (clockApi_jump n user) = Some (jump_body n user)"
  by (simp add: clockApi_jump_def send_def jump_body_def)

lemma bind_jump_body:
  "- (2 ^ 63) \<le> s \<Longrightarrow> s \<le> 2 ^ 63 - 1 \<Longrightarrow>
     bind_jump (jump_body (Fin s) user) = Some \<lparr>jr_add_second = s, jr_user = user\<rparr>"
  by (simp add: bind_jump_def jump_body_def json_fields_def get_int64_def get_int_def get_str_def)

text \<open>Sequential operation: the offset in memory is that of the latest row.\<close>

definition clock_inv :: "clock_server \<Rightarrow> bool" where
  "clock_inv st \<longleftrightarrow>
     cs_offset st = (case time_FindLatest st of None \<Rightarrow> 0 | Some (s, u) \<Rightarrow> duration_of_seconds (word_of_int s))"

lemma boot_clock_inv: "clock_inv (boot_clock None st)"
  by (simp add: clock_inv_def boot_clock_def Reset_def SetOffset_def time_FindLatest_def Let_def
      split: option.splits prod.splits)

lemma post_clock_jump_inv: "clock_inv st \<Longrightarrow> clock_inv (snd (post_clock_jump z real be de body st))"
  by (auto simp: clock_inv_def post_clock_jump_def jump_insert_def jump_apply_def time_Create_def
      SetOffset_def time_FindLatest_def Let_def split: option.splits sum.splits if_splits)

section \<open>Properties\<close>

text \<open>C22: a jump is durable: whatever requests a process handled one after the other, restarting it
  gives the same clock, and the clock page then reports the last accepted number of seconds exactly,
  within the range in which the 64-bit duration does not wrap.\<close>

theorem jump_survives_restart:
  assumes "clock_inv st" and "st' = fold (\<lambda>(z, real, be, de, body) s. snd (post_clock_jump z real be de body s)) reqs st"
  shows "boot_clock None st' = st'
    \<and> (case time_FindLatest st' of
         Some (s, u) \<Rightarrow> no_wrap s \<longrightarrow>
           (\<exists>i. get_clock z real real' st' = ReplyJson 200 i \<and> ci_offset_sec i = Fin s)
       | None \<Rightarrow> cs_offset st' = 0)"
proof -
  have inv: "clock_inv st'"
    using assms(1) unfolding assms(2)
    by (induction reqs arbitrary: st) (auto simp: post_clock_jump_inv split: prod.splits)
  have "boot_clock None st' = st'"
    using inv by (cases st') (auto simp: clock_inv_def boot_clock_def Reset_def SetOffset_def
        time_FindLatest_def Let_def split: option.splits prod.splits)
  moreover have "no_wrap s \<Longrightarrow> to_num (seconds_int (duration_of_seconds (word_of_int s))) = Fin s" for s
    unfolding seconds_int_duration by (rule to_num_exact) (simp add: no_wrap_def)
  ultimately show ?thesis
    using inv by (auto simp: clock_inv_def get_clock_def clock_Offset_def split: option.splits)
qed

lemma jump_survives_restart_witness:
  "let st = snd (post_clock_jump 0 0 [] None (jump_body (Fin 86400) ''qa'') \<lparr>cs_offset = 0, cs_rows = []\<rparr>)
   in boot_clock None st = st"
proof -
  have "clock_inv \<lparr>cs_offset = 0, cs_rows = []\<rparr>" by (simp add: clock_inv_def time_FindLatest_def)
  from jump_survives_restart [OF this refl, of "[(0, 0, [], None, jump_body (Fin 86400) ''qa'')]"]
  show ?thesis by (simp add: Let_def)
qed

section \<open>Concurrent jumps\<close>

text \<open>Requests run concurrently, and between the insert and \<^verbatim>\<open>SetOffset\<close> nothing orders
  them.  The second component holds the requests between the two.\<close>

inductive jump_step :: "(clock_server \<times> int list) \<Rightarrow> (clock_server \<times> int list) \<Rightarrow> bool" where
  jump_inserted: "jump_insert be de body st = Inr (s, st') \<Longrightarrow> jump_step (st, fl) (st', fl @ [s])"
| jump_applied: "jump_step (st, xs @ s # ys) (snd (jump_apply z real s st), xs @ ys)"

definition clock_idle :: "(clock_server \<times> int list) \<Rightarrow> bool" where
  "clock_idle c \<longleftrightarrow> clock_inv (fst c) \<and> snd c = []"

text \<open>C23: two jumps at the same time can leave the running server on one offset and the table's
  latest row on the other, so a restart changes the clock.\<close>

theorem concurrent_jumps_diverge:
  "\<exists>st. reaches clock_idle jump_step (st, []) \<and> boot_clock None st \<noteq> st"
proof -
  define st0 where "st0 = \<lparr>cs_offset = 0, cs_rows = []\<rparr>"
  define st1 where "st1 = \<lparr>cs_offset = 0, cs_rows = [(60, ''a'')]\<rparr>"
  define st2 where "st2 = \<lparr>cs_offset = 0, cs_rows = [(60, ''a''), (0, ''b'')]\<rparr>"
  define st3 where "st3 = \<lparr>cs_offset = duration_of_seconds (word_of_int 60), cs_rows = [(60, ''a''), (0, ''b'')]\<rparr>"
  let ?R = "reaches clock_idle jump_step"
  have "?R (st0, [])"
    by (rule reaches_init) (simp add: clock_idle_def clock_inv_def time_FindLatest_def st0_def)
  moreover have "jump_step (st0, []) (st1, [] @ [60])"
    by (rule jump_inserted [of "[]" None "jump_body (Fin 60) ''a''"])
      (simp add: jump_insert_def bind_jump_body time_Create_def st0_def st1_def)
  ultimately have "?R (st1, [60])" by (metis append_Nil reaches_step)
  moreover have "jump_step (st1, [60]) (st2, [60] @ [0])"
    by (rule jump_inserted [of "[]" None "jump_body (Fin 0) ''b''"])
      (simp add: jump_insert_def bind_jump_body time_Create_def st1_def st2_def)
  ultimately have "?R (st2, [60, 0])" by (metis append_Cons append_Nil reaches_step)
  moreover have "jump_step (st2, [60] @ 0 # []) (snd (jump_apply 0 0 0 st2), [60] @ [])"
    by (rule jump_applied)
  moreover have "snd (jump_apply 0 0 0 st2) = st2"
    by (simp add: jump_apply_def SetOffset_def st2_def duration_of_seconds_def Let_def)
  ultimately have "?R (st2, [60])" by (metis append_Cons append_Nil append_Nil2 reaches_step)
  moreover have "jump_step (st2, [] @ 60 # []) (snd (jump_apply 0 0 60 st2), [] @ [])"
    by (rule jump_applied)
  moreover have "snd (jump_apply 0 0 60 st2) = st3"
    by (simp add: jump_apply_def SetOffset_def st2_def st3_def Let_def)
  ultimately have "?R (st3, [])" by (metis append_Nil reaches_step)
  moreover have "boot_clock None st3 \<noteq> st3"
    by (simp add: boot_clock_def Reset_def SetOffset_def time_FindLatest_def st3_def Let_def
        duration_of_seconds_def SECOND_def)
  ultimately show ?thesis by blast
qed

end
