(* ===== verification/MigrationFiles.thy ===== *)
theory MigrationFiles
  imports Regex GoTime "HOL-Library.Product_Lexorder"
begin

text \<open>
  Migration files on disk: creating one (\<^verbatim>\<open>sql/migrations/create.go\<close>), and listing a
  category in the order of application (the walkers of \<^verbatim>\<open>sql/migrations/migrator.go\<close>).
  The source of the files, an \<^verbatim>\<open>fs.FS\<close>, is a record of its two operations.
\<close>

section \<open>The file source\<close>

record dir_entry =
  de_name :: string
  de_dir :: bool

record file_source =
  fs_read_dir :: "string \<Rightarrow> string + dir_entry list"
  fs_read_file :: "string \<Rightarrow> string option"

definition CategoryGame :: string where
  "CategoryGame = ''game''"

definition CategoryShard :: string where
  "CategoryShard = ''shard''"

record migration_file =
  mfile_version :: string
  mfile_name :: string
  mfile_id :: int

section \<open>Listing\<close>

text \<open>The loop over the prefix stops at the first character that is no digit; fourteen digits fit
  in 64 bits.\<close>

definition parse_version_id :: "string \<Rightarrow> int option" where
  "parse_version_id filename =
     (case index_of (CHR ''_'') filename of
        None \<Rightarrow> None
      | Some idx \<Rightarrow>
          (let ts = take idx filename in
           if idx \<le> 0 then None
           else if length ts \<noteq> 14 then None
           else if \<not> list_all is_digit ts then None
           else Some (int (undec ts))))"

definition has_suffix :: "string \<Rightarrow> string \<Rightarrow> bool" where
  "has_suffix s suf \<longleftrightarrow> suffix suf s"

definition is_sql :: "dir_entry \<Rightarrow> bool" where
  "is_sql e \<longleftrightarrow> \<not> de_dir e \<and> has_suffix (de_name e) ''.sql''"

text \<open>The body of the loop of \<^verbatim>\<open>collectSQLFiles\<close>; the sort is by version id.  (Go's sort
  leaves the order of equal ids open; up to twelve files it is the stable insertion sort.)\<close>

fun collect_entries :: "string \<Rightarrow> string \<Rightarrow> dir_entry list \<Rightarrow> string + migration_file list" where
  "collect_entries dir label [] = Inr []"
| "collect_entries dir label (e # es) =
     (if \<not> is_sql e then collect_entries dir label es
      else case parse_version_id (de_name e) of
        None \<Rightarrow> Inl (''invalid migration filename: '' @ dir @ ''/'' @ de_name e @ '' (expected <timestamp>_...)'')
      | Some vid \<Rightarrow> (case collect_entries dir label es of
            Inl err \<Rightarrow> Inl err
          | Inr fs \<Rightarrow> Inr (\<lparr>mfile_version = label, mfile_name = de_name e, mfile_id = vid\<rparr> # fs)))"

definition collect_sql_files :: "file_source \<Rightarrow> string \<Rightarrow> string \<Rightarrow> string + migration_file list" where
  "collect_sql_files fs dir label =
     (case fs_read_dir fs dir of
        Inl err \<Rightarrow> Inl err
      | Inr es \<Rightarrow> (case collect_entries dir label es of
            Inl err \<Rightarrow> Inl err
          | Inr files \<Rightarrow> Inr (sort_key mfile_id files)))"

definition list_version_dirs :: "file_source \<Rightarrow> string \<Rightarrow> string + string list" where
  "list_version_dirs fs root =
     (case fs_read_dir fs root of
        Inl err \<Rightarrow> Inl (''read migrations/'' @ root @ '': '' @ err)
      | Inr es \<Rightarrow> Inr (sort (map de_name (filter de_dir es))))"

fun walk_versions :: "file_source \<Rightarrow> string \<Rightarrow> string list \<Rightarrow> string + migration_file list" where
  "walk_versions fs cat [] = Inr []"
| "walk_versions fs cat (v # vs) =
     (case collect_sql_files fs (cat @ ''/'' @ v) v of
        Inl err \<Rightarrow> Inl err
      | Inr files \<Rightarrow> (case walk_versions fs cat vs of
            Inl err \<Rightarrow> Inl err
          | Inr rest \<Rightarrow> Inr (files @ rest)))"

definition walk_migration_files :: "file_source \<Rightarrow> string \<Rightarrow> string + migration_file list" where
  "walk_migration_files fs cat =
     (case collect_sql_files fs cat [] of
        Inl err \<Rightarrow> Inl err
      | Inr root \<Rightarrow> (case list_version_dirs fs cat of
            Inl err \<Rightarrow> Inl err
          | Inr vs \<Rightarrow> (case walk_versions fs cat vs of
              Inl err \<Rightarrow> Inl err
            | Inr rest \<Rightarrow> Inr (root @ rest))))"

definition has_root_sql :: "file_source \<Rightarrow> string \<Rightarrow> string + bool" where
  "has_root_sql fs root =
     (case fs_read_dir fs root of Inl err \<Rightarrow> Inl err | Inr es \<Rightarrow> Inr (list_ex is_sql es))"

section \<open>Creating\<close>

datatype create_error =
    ErrInvalidCategory | ErrInvalidVersion | ErrInvalidName | ErrAuthorRequired | ErrFileExists
  | ErrMkdir string | ErrWrite string

definition quoted :: "string \<Rightarrow> string" where
  "quoted s = CHR 0x27 # s @ [CHR 0x27]"

fun create_error_text :: "create_error \<Rightarrow> string" where
  "create_error_text ErrInvalidCategory = ''category must be '' @ quoted ''game'' @ '' or '' @ quoted ''shard''"
| "create_error_text ErrInvalidVersion = ''invalid version format (expected x.yy.zz)''"
| "create_error_text ErrInvalidName = ''name must be snake_case''"
| "create_error_text ErrAuthorRequired = ''author required (or invalid after sanitize)''"
| "create_error_text ErrFileExists = ''migration file already exists''"
| "create_error_text (ErrMkdir e) = ''mkdir: '' @ e"
| "create_error_text (ErrWrite e) = ''write: '' @ e"

record create_request =
  cr_category :: string
  cr_version :: string
  cr_name :: string
  cr_author :: string
  cr_base_dir :: string
  cr_up_sql :: string
  cr_down_sql :: string

text \<open>
  \<^verbatim>\<open>strings.ToLower\<close> maps two letters outside ASCII to ASCII ones, the Kelvin sign
  (\<^verbatim>\<open>E2 84 AA\<close>, to k) and the dotted capital I (\<^verbatim>\<open>C4 B0\<close>, to i); every other
  letter outside ASCII is dropped.
\<close>

definition sanitize_char :: "char \<Rightarrow> string" where
  "sanitize_char c =
     (if is_upper c then [char_of (code c + 32)]
      else if is_lower c \<or> is_digit c then [c]
      else if c = CHR ''_'' \<or> c = CHR ''-'' then ''_''
      else [])"

fun sanitize_author :: "string \<Rightarrow> string" where
  "sanitize_author (a # b # c # s) =
     (if code a = 0xE2 \<and> code b = 0x84 \<and> code c = 0xAA then CHR ''k'' # sanitize_author s
      else if code a = 0xC4 \<and> code b = 0xB0 then CHR ''i'' # sanitize_author (c # s)
      else sanitize_char a @ sanitize_author (b # c # s))"
| "sanitize_author [a, b] =
     (if code a = 0xC4 \<and> code b = 0xB0 then ''i'' else sanitize_char a @ sanitize_author [b])"
| "sanitize_author [a] = sanitize_char a"
| "sanitize_author [] = []"

definition kst_zone :: int where
  "kst_zone = 9 * 60 * 60"

definition line_break :: string where
  "line_break = [char_of (10::nat)]"

definition sql_block :: "string \<Rightarrow> string" where
  "sql_block sql =
     (let body = trim_right_set ('' '' @ line_break @ [char_of (9::nat)]) sql
      in if body \<noteq> [] then body @ line_break else [])"

definition build_template :: "string \<Rightarrow> string \<Rightarrow> int \<Rightarrow> string \<Rightarrow> string \<Rightarrow> string" where
  "build_template name author now up_sql down_sql =
     ''-- migration: '' @ name @ line_break @ ''-- author:    '' @ author @ line_break
     @ ''-- created:   '' @ format_kst kst_zone now @ line_break @ line_break
     @ ''-- +goose Up'' @ line_break @ sql_block up_sql @ line_break @ line_break
     @ ''-- +goose Down'' @ line_break @ sql_block down_sql @ line_break"

text \<open>\<^verbatim>\<open>filepath.Join\<close> of clean, non-empty components.\<close>

definition path_join :: "string list \<Rightarrow> string" where
  "path_join parts = join_with ''/'' parts"

type_synonym disk = "string \<rightharpoonup> string"

definition create_filename :: "int \<Rightarrow> string \<Rightarrow> string \<Rightarrow> string" where
  "create_filename now author name = format_stamp kst_zone now @ ''_'' @ author @ ''_'' @ name @ ''.sql''"

text \<open>\<open>mk\<close> and \<open>wr\<close> are the errors of \<^verbatim>\<open>MkdirAll\<close> and \<^verbatim>\<open>WriteFile\<close>, if they
  fail; a failing write may leave a part of the file.\<close>

definition create_migration_file ::
  "int \<Rightarrow> string option \<Rightarrow> (string \<times> string option) option \<Rightarrow> create_request \<Rightarrow> disk \<Rightarrow> (create_error + string) \<times> disk" where
  "create_migration_file now mk wr req dk =
     (if cr_category req \<noteq> CategoryGame \<and> cr_category req \<noteq> CategoryShard then (Inl ErrInvalidCategory, dk)
      else if \<not> rx_test version_rx (cr_version req) then (Inl ErrInvalidVersion, dk)
      else if \<not> rx_test name_rx (cr_name req) then (Inl ErrInvalidName, dk)
      else let author = sanitize_author (cr_author req) in
        if author = [] then (Inl ErrAuthorRequired, dk)
        else let filename = create_filename now author (cr_name req);
                 dir = path_join [cr_base_dir req, cr_category req, cr_version req];
                 path = path_join [dir, filename]
          in case mk of
            Some e \<Rightarrow> (Inl (ErrMkdir e), dk)
          | None \<Rightarrow>
              if dk path \<noteq> None then (Inl ErrFileExists, dk)
              else case wr of
                Some (e, part) \<Rightarrow> (Inl (ErrWrite e), case part of Some c \<Rightarrow> dk(path \<mapsto> c) | None \<Rightarrow> dk)
              | None \<Rightarrow> (Inr path, dk(path \<mapsto> build_template (cr_name req) author now (cr_up_sql req) (cr_down_sql req))))"

section \<open>Facts about names\<close>

lemma code_char_of: "n < 256 \<Longrightarrow> code (char_of n) = n"
  by (simp add: of_char_of)

lemma sanitize_char_snake: "c \<in> set (sanitize_char a) \<Longrightarrow> snake_char c"
  by (auto simp: sanitize_char_def snake_char_def is_upper_def is_lower_def code_char_of split: if_splits)

lemma sanitize_author_snake: "c \<in> set (sanitize_author s) \<Longrightarrow> snake_char c"
proof (induction s rule: sanitize_author.induct)
  case (1 a b c s)
  then show ?case
    by (auto dest: sanitize_char_snake split: if_splits) (simp_all add: snake_char_def is_lower_def)
next
  case (2 a b)
  then show ?case
    by (auto dest: sanitize_char_snake split: if_splits) (simp_all add: snake_char_def is_lower_def)
qed (auto dest: sanitize_char_snake)

lemma snake_underscore [simp]: "snake_char (CHR ''_'')"
  by (simp add: snake_char_def)

text \<open>A created name passes the viewer's pattern and starts with its version id.\<close>

lemma create_filename_valid:
  assumes "year_fits (civil_in kst_zone now)" and "author \<noteq> []" and "\<forall>c \<in> set author. snake_char c"
    and "rx_test name_rx name"
  shows "rx_test filename_rx (create_filename now author name)"
proof -
  have "length (format_stamp kst_zone now) = 14" "\<forall>c \<in> set (format_stamp kst_zone now). is_digit c"
    using format_stamp_shape [OF assms(1)] by (auto simp: list_all_iff)
  moreover have "\<forall>c \<in> set (author @ ''_'' @ name). snake_char c"
    using assms(3,4) by (auto simp: name_rx_shape)
  ultimately show ?thesis
    unfolding filename_rx_shape create_filename_def
    by (intro exI [of _ "format_stamp kst_zone now"] exI [of _ "author @ ''_'' @ name"]) simp
qed

lemma not_digit_underscore: "\<not> is_digit (CHR ''_'')"
  by (simp add: is_digit_def)

lemma parse_version_id_stamp:
  assumes "length ts = 14" and "list_all is_digit ts"
  shows "parse_version_id (ts @ ''_'' @ rest) = Some (int (undec ts))"
proof -
  have "CHR ''_'' \<notin> set ts" using assms(2) not_digit_underscore by (auto simp: list_all_iff)
  then have "index_of (CHR ''_'') (ts @ CHR ''_'' # rest) = Some (length ts)" by (rule index_of_append)
  then show ?thesis using assms by (simp add: parse_version_id_def Let_def)
qed

section \<open>Creating: what holds\<close>

text \<open>C24: creating a migration never touches an existing file: on success exactly one new file
  appears, in the directory of the category and version, with a name that the file endpoint accepts
  and whose version id is the time stamp; on any error every existing file is as it was.\<close>

theorem create_is_safe:
  assumes "create_migration_file now mk wr req dk = (res, dk')" and "year_fits (civil_in kst_zone now)"
  shows "(case res of
      Inr path \<Rightarrow>
        (let fn = create_filename now (sanitize_author (cr_author req)) (cr_name req) in
         path = join_with ''/'' [cr_base_dir req, cr_category req, cr_version req, fn]
         \<and> cr_category req \<in> {''game'', ''shard''} \<and> rx_test version_rx (cr_version req)
         \<and> rx_test filename_rx fn
         \<and> parse_version_id fn = Some (int (undec (format_stamp kst_zone now)))
         \<and> dk path = None
         \<and> dk' = dk(path \<mapsto> build_template (cr_name req) (sanitize_author (cr_author req)) now
                          (cr_up_sql req) (cr_down_sql req)))
    | Inl e \<Rightarrow> dk \<subseteq>\<^sub>m dk')"
proof (cases res)
  case (Inl e)
  then show ?thesis
    using assms(1)
    by (auto simp: create_migration_file_def Let_def map_le_def split: if_splits option.splits)
next
  case (Inr path)
  let ?a = "sanitize_author (cr_author req)"
  have a: "?a \<noteq> []" "\<forall>c \<in> set ?a. snake_char c" "rx_test name_rx (cr_name req)"
    using assms(1) Inr sanitize_author_snake
    by (auto simp: create_migration_file_def Let_def split: if_splits option.splits)
  have "rx_test filename_rx (create_filename now ?a (cr_name req))"
    by (rule create_filename_valid [OF assms(2) a])
  moreover have "parse_version_id (create_filename now ?a (cr_name req)) = Some (int (undec (format_stamp kst_zone now)))"
    unfolding create_filename_def
    using parse_version_id_stamp [of "format_stamp kst_zone now"] format_stamp_shape [OF assms(2)] by simp
  ultimately show ?thesis
    using assms(1) Inr
    by (auto simp: create_migration_file_def Let_def path_join_def CategoryGame_def CategoryShard_def
        split: if_splits option.splits)
qed

section \<open>Listing: what holds\<close>

definition entry_file :: "string \<Rightarrow> dir_entry \<Rightarrow> migration_file" where
  "entry_file label e =
     \<lparr>mfile_version = label, mfile_name = de_name e, mfile_id = the (parse_version_id (de_name e))\<rparr>"

lemma collect_entries_map:
  "collect_entries dir label es = Inr files \<Longrightarrow> files = map (entry_file label) (filter is_sql es)"
  by (induction es arbitrary: files) (auto simp: entry_file_def split: if_splits option.splits sum.splits)

lemma collect_sql_files_Inr:
  assumes "collect_sql_files fs dir label = Inr files"
  obtains es where "fs_read_dir fs dir = Inr es"
    and "files = sort_key mfile_id (map (entry_file label) (filter is_sql es))"
  using assms by (auto simp: collect_sql_files_def dest: collect_entries_map split: sum.splits)

lemma collect_label:
  "collect_sql_files fs dir label = Inr files \<Longrightarrow> f \<in> set files \<Longrightarrow> mfile_version f = label"
  by (erule collect_sql_files_Inr) (auto simp: entry_file_def)

definition file_key :: "migration_file \<Rightarrow> string \<times> int" where
  "file_key f = (mfile_version f, mfile_id f)"

lemma collect_sorted:
  assumes "collect_sql_files fs dir label = Inr files"
  shows "sorted (map file_key files)"
proof -
  have *: "sorted (map file_key xs)" if "sorted (map mfile_id xs)" "\<And>f. f \<in> set xs \<Longrightarrow> mfile_version f = label" for xs
    using that by (induction xs) (auto simp: file_key_def)
  have "sorted (map mfile_id files)" using assms by (auto elim: collect_sql_files_Inr)
  then show ?thesis by (rule *) (rule collect_label [OF assms])
qed

lemma sorted_key_append:
  assumes "sorted (map file_key xs)" and "sorted (map file_key ys)"
    and "\<And>x y. x \<in> set xs \<Longrightarrow> y \<in> set ys \<Longrightarrow> mfile_version x < mfile_version y"
  shows "sorted (map file_key (xs @ ys))"
  using assms by (auto simp: sorted_append file_key_def)

lemma walk_versions_sorted:
  "walk_versions fs cat vs = Inr files \<Longrightarrow> sorted vs \<Longrightarrow> distinct vs \<Longrightarrow>
     sorted (map file_key files) \<and> mfile_version ` set files \<subseteq> set vs"
proof (induction vs arbitrary: files)
  case Nil
  then show ?case by simp
next
  case (Cons v vs)
  obtain here rest where h: "collect_sql_files fs (cat @ ''/'' @ v) v = Inr here"
      and r: "walk_versions fs cat vs = Inr rest" and f: "files = here @ rest"
    using Cons.prems(1) by (auto split: sum.splits)
  have IH: "sorted (map file_key rest)" "mfile_version ` set rest \<subseteq> set vs"
    using Cons.IH [OF r] Cons.prems(2,3) by simp_all
  have "\<forall>w \<in> set vs. v < w" using Cons.prems(2,3) by (auto simp: order.strict_iff_order)
  then have "mfile_version x < mfile_version y" if "x \<in> set here" "y \<in> set rest" for x y
    using that IH(2) collect_label [OF h] by auto
  with sorted_key_append [OF collect_sorted [OF h] IH(1)] show ?case
    using IH(2) collect_label [OF h] unfolding f by auto
qed

text \<open>What \<^verbatim>\<open>fs.ReadDir\<close> promises of a listing: names are distinct and not empty.\<close>

definition listing_ok :: "file_source \<Rightarrow> bool" where
  "listing_ok fs \<longleftrightarrow> (\<forall>dir es. fs_read_dir fs dir = Inr es \<longrightarrow>
     distinct (map de_name es) \<and> [] \<notin> set (map de_name es))"

lemma list_version_dirs_ok:
  assumes "listing_ok fs" and "list_version_dirs fs cat = Inr vs"
  shows "sorted vs \<and> distinct vs \<and> [] \<notin> set vs"
proof -
  obtain es where "fs_read_dir fs cat = Inr es" "vs = sort (map de_name (filter de_dir es))"
    using assms(2) by (auto simp: list_version_dirs_def split: sum.splits)
  then show ?thesis using assms(1)
    by (auto simp: listing_ok_def intro: distinct_map_filter)
qed

text \<open>The directories of a category with the version they stand for.\<close>

definition migration_dirs :: "file_source \<Rightarrow> string \<Rightarrow> (string \<times> string) set" where
  "migration_dirs fs cat = insert ([], cat)
     {(de_name e, cat @ ''/'' @ de_name e) | e. \<exists>es. fs_read_dir fs cat = Inr es \<and> e \<in> set es \<and> de_dir e}"

definition dir_files :: "file_source \<Rightarrow> string \<times> string \<Rightarrow> migration_file set" where
  "dir_files fs ld =
     {entry_file (fst ld) e | e. \<exists>es. fs_read_dir fs (snd ld) = Inr es \<and> e \<in> set es \<and> is_sql e}"

lemma collect_set: "collect_sql_files fs dir label = Inr files \<Longrightarrow> set files = dir_files fs (label, dir)"
  by (erule collect_sql_files_Inr) (auto simp: dir_files_def)

lemma walk_versions_set:
  "walk_versions fs cat vs = Inr files \<Longrightarrow> set files = (\<Union>v \<in> set vs. dir_files fs (v, cat @ ''/'' @ v))"
  by (induction vs arbitrary: files) (auto dest!: collect_set split: sum.splits)

lemma list_version_dirs_set:
  assumes "list_version_dirs fs cat = Inr vs"
  shows "migration_dirs fs cat = insert ([], cat) ((\<lambda>v. (v, cat @ ''/'' @ v)) ` set vs)"
  using assms by (auto simp: list_version_dirs_def migration_dirs_def split: sum.splits)

text \<open>C25: the order of application: the files at the root come first, then the version directories in
  ascending order of their names, each with its files in ascending order of version id; and every
  SQL file of the category is listed.\<close>

theorem walk_is_ordered:
  assumes "walk_migration_files fs cat = Inr files" and "listing_ok fs"
  shows "sorted (map file_key files) \<and> set files = (\<Union>ld \<in> migration_dirs fs cat. dir_files fs ld)"
proof
  obtain root vs rest where root: "collect_sql_files fs cat [] = Inr root"
      and vs: "list_version_dirs fs cat = Inr vs" and rest: "walk_versions fs cat vs = Inr rest"
      and files: "files = root @ rest"
    using assms(1) by (auto simp: walk_migration_files_def split: sum.splits)
  have v: "sorted vs" "distinct vs" "[] \<notin> set vs" using list_version_dirs_ok [OF assms(2) vs] by simp_all
  have r: "sorted (map file_key rest)" "mfile_version ` set rest \<subseteq> set vs"
    using walk_versions_sorted [OF rest v(1,2)] by simp_all
  have "mfile_version x < mfile_version y" if "x \<in> set root" "y \<in> set rest" for x y
  proof -
    have "mfile_version x = []" using collect_label [OF root] that(1) by simp
    moreover have "mfile_version y \<noteq> []" using that(2) r(2) v(3) by auto
    ultimately show ?thesis by (cases "mfile_version y") simp_all
  qed
  then show "sorted (map file_key files)"
    unfolding files by (rule sorted_key_append [OF collect_sorted [OF root] r(1)])
  show "set files = (\<Union>ld \<in> migration_dirs fs cat. dir_files fs ld)"
    using collect_set [OF root] walk_versions_set [OF rest] list_version_dirs_set [OF vs]
    by (auto simp: files)
qed

section \<open>The order of versions\<close>

text \<open>The three numbers of a version directory.\<close>

definition version_nums :: "string \<Rightarrow> nat \<times> nat \<times> nat" where
  "version_nums s =
     (let maj = takeWhile is_digit s; r = drop (length maj + 1) s
      in (undec maj, undec (take 2 r), undec (drop 3 r)))"

lemma digit_less: "is_digit c \<Longrightarrow> is_digit d \<Longrightarrow> c < d \<longleftrightarrow> digit_val c < digit_val d"
  unfolding less_char_def is_digit_def digit_val_def by linarith

lemma digit_eq: "is_digit c \<Longrightarrow> is_digit d \<Longrightarrow> digit_val c = digit_val d \<Longrightarrow> c = d"
proof -
  assume "is_digit c" "is_digit d" "digit_val c = digit_val d"
  then have "code c = code d" unfolding is_digit_def digit_val_def by linarith
  then show "c = d" by (simp add: of_char_eq_iff)
qed

lemma undec_append: "undec (ds @ es) = undec ds * 10 ^ length es + undec es"
proof (induction es rule: rev_induct)
  case Nil
  then show ?case by simp
next
  case (snoc c es)
  have "undec (ds @ es @ [c]) = undec (ds @ es) * 10 + digit_val c"
    using undec_snoc [of "ds @ es" c] by simp
  with snoc show ?case by (simp add: algebra_simps)
qed

lemma undec_Cons: "undec (c # es) = digit_val c * 10 ^ length es + undec es"
  using undec_append [of "[c]" es] undec_snoc [of "[]" c] by simp

lemma digits_less:
  "length s = length t \<Longrightarrow> list_all is_digit s \<Longrightarrow> list_all is_digit t \<Longrightarrow> s < t \<longleftrightarrow> undec s < undec t"
proof (induction s t rule: list_induct2)
  case Nil
  then show ?case by simp
next
  case (Cons c s d t)
  have lt: "undec s < 10 ^ length s" "undec t < 10 ^ length s"
    using undec_less [of s] undec_less [of t] Cons by simp_all
  consider "digit_val c < digit_val d" | "digit_val d < digit_val c" | "c = d"
    using Cons.prems digit_eq [of c d] by force
  then show ?case
  proof cases
    case 1
    then have "(digit_val c + 1) * 10 ^ length s \<le> digit_val d * 10 ^ length s" by (intro mult_right_mono) simp_all
    with lt have "undec (c # s) < undec (d # t)" using Cons.hyps by (simp add: undec_Cons)
    with 1 Cons.prems show ?thesis by (simp add: digit_less)
  next
    case 2
    then have "(digit_val d + 1) * 10 ^ length s \<le> digit_val c * 10 ^ length s" by (intro mult_right_mono) simp_all
    with lt have "\<not> undec (c # s) < undec (d # t)" using Cons.hyps by (simp add: undec_Cons)
    moreover have "\<not> c < d" "c \<noteq> d" using 2 Cons.prems digit_less by auto
    ultimately show ?thesis by simp
  next
    case 3
    with Cons show ?thesis by (simp add: undec_Cons)
  qed
qed

lemma append_less:
  "length s = length t \<Longrightarrow> s @ x < t @ y \<longleftrightarrow> s < t \<or> (s = t \<and> x < (y :: string))"
  by (induction s t rule: list_induct2) auto

lemma version_nums_eq:
  assumes "list_all is_digit maj" and "length mid = 2"
  shows "version_nums (maj @ ''.'' @ mid @ ''.'' @ low) = (undec maj, undec mid, undec low)"
proof -
  have "takeWhile is_digit (maj @ CHR ''.'' # mid @ ''.'' @ low) = maj"
    using assms(1) by (intro takeWhile_all_append) (auto simp: list_all_iff is_digit_def)
  then show ?thesis using assms(2) by (simp add: version_nums_def Let_def)
qed

lemma digits_undec_eq:
  "length s = length t \<Longrightarrow> list_all is_digit s \<Longrightarrow> list_all is_digit t \<Longrightarrow> undec s = undec t \<longleftrightarrow> s = t"
  using digits_less [of s t] digits_less [of t s] by (cases s t rule: linorder_cases) auto

text \<open>Comparing version directories as strings agrees with comparing their numbers as long as the
  first numbers have equally many digits; it does not beyond that.\<close>

theorem version_order:
  assumes "rx_test version_rx v" and "rx_test version_rx w" and "length v = length w"
  shows "(v < w \<longleftrightarrow> version_nums v < version_nums w)
    \<and> ''10.00.00'' < ''2.01.01'' \<and> version_nums ''2.01.01'' < version_nums ''10.00.00''"
proof
  obtain a b c where v: "v = a @ ''.'' @ b @ ''.'' @ c" "length b = 2" "length c = 2"
      "list_all is_digit a" "list_all is_digit b" "list_all is_digit c"
    using assms(1) by (auto simp: version_rx_shape list_all_iff)
  obtain a' b' c' where w: "w = a' @ ''.'' @ b' @ ''.'' @ c'" "length b' = 2" "length c' = 2"
      "list_all is_digit a'" "list_all is_digit b'" "list_all is_digit c'"
    using assms(2) by (auto simp: version_rx_shape list_all_iff)
  have "length a = length a'" using assms(3) v(1-3) w(1-3) by simp
  with v w show "v < w \<longleftrightarrow> version_nums v < version_nums w"
    using version_nums_eq [of a b c] version_nums_eq [of a' b' c']
    by (auto simp: append_less digits_less digits_undec_eq less_prod_simp le_less)
  show "''10.00.00'' < ''2.01.01'' \<and> version_nums ''2.01.01'' < version_nums ''10.00.00''"
    by code_simp
qed

section \<open>Concrete runs\<close>

definition demo_now :: int where
  "demo_now = 1741507200000000000"

definition demo_request :: create_request where
  "demo_request = \<lparr>cr_category = ''game'', cr_version = ''2.01.02'', cr_name = ''add_x'', cr_author = ''Me-ga'',
     cr_base_dir = ''sql/migrations'', cr_up_sql = ''SELECT 1;'', cr_down_sql = []\<rparr>"

definition demo_path :: string where
  "demo_path = ''sql/migrations/game/2.01.02/20250309170000_me_ga_add_x.sql''"

lemma demo_civil_now:
  "civil_in kst_zone demo_now = \<lparr>c_year = 2025, c_month = 3, c_day = 9, c_hour = 17, c_min = 0, c_sec = 0\<rparr>"
proof -
  have t: "sec_of_ns demo_now + kst_zone = 1741539600"
    by (simp add: sec_of_ns_def demo_now_def kst_zone_def)
  have y: "day_from_year 2025 = 20089" "day_from_year 2026 = 20454" "\<not> leap 2025"
    by (simp_all add: day_from_year_def leap_def)
  then have yd: "year_of_day 20156 = 2025" by (simp add: year_of_day_def Let_def)
  have m: "month_of False 67 = 3" by (simp add: month_of_starts month_starts_table)
  have b: "days_before_month False 3 = 59" by (simp add: days_before_month_def)
  show ?thesis
    unfolding civil_in_def t by (simp add: civil_of_sec_def yd y m b)
qed

lemma demo_year_fits: "year_fits (civil_in kst_zone demo_now)"
  by (simp add: demo_civil_now year_fits_def)

lemma demo_filename: "create_filename demo_now ''me_ga'' ''add_x'' = ''20250309170000_me_ga_add_x.sql''"
  by (simp add: create_filename_def format_stamp_def demo_civil_now zpad_def pad_left_def dec_eval)

lemma demo_author: "sanitize_author ''Me-ga'' = ''me_ga''"
  by code_simp

lemma demo_patterns: "rx_test version_rx ''2.01.02'' \<and> rx_test name_rx ''add_x''"
  by code_simp

lemma demo_created:
  "fst (create_migration_file demo_now None None demo_request Map.empty) = Inr demo_path"
  using demo_patterns demo_author demo_filename
  by (simp add: create_migration_file_def demo_request_def demo_path_def CategoryGame_def path_join_def Let_def)

lemma create_is_safe_witness:
  "\<exists>dk'. create_migration_file demo_now None None demo_request Map.empty = (Inr demo_path, dk')
     \<and> dom dk' = {demo_path}"
proof -
  obtain dk' where c: "create_migration_file demo_now None None demo_request Map.empty = (Inr demo_path, dk')"
    using demo_created by (metis prod.collapse)
  from create_is_safe [OF c demo_year_fits] c show ?thesis by (auto simp: Let_def)
qed

definition demo_source :: file_source where
  "demo_source =
     \<lparr>fs_read_dir = (\<lambda>d.
        if d = ''game'' then Inr [\<lparr>de_name = ''20260101000000_init_schema.sql'', de_dir = False\<rparr>,
                                 \<lparr>de_name = ''2.01.01'', de_dir = True\<rparr>]
        else if d = ''game/2.01.01'' then Inr [\<lparr>de_name = ''20260102000000_me_b.sql'', de_dir = False\<rparr>,
                                 \<lparr>de_name = ''20250101000000_me_a.sql'', de_dir = False\<rparr>]
        else Inl ''file does not exist''),
      fs_read_file = (\<lambda>p. None)\<rparr>"

definition demo_walk :: "migration_file list" where
  "demo_walk =
     [\<lparr>mfile_version = [], mfile_name = ''20260101000000_init_schema.sql'', mfile_id = 20260101000000\<rparr>,
      \<lparr>mfile_version = ''2.01.01'', mfile_name = ''20250101000000_me_a.sql'', mfile_id = 20250101000000\<rparr>,
      \<lparr>mfile_version = ''2.01.01'', mfile_name = ''20260102000000_me_b.sql'', mfile_id = 20260102000000\<rparr>]"

lemma demo_walked: "walk_migration_files demo_source ''game'' = Inr demo_walk"
  by (simp add: walk_migration_files_def collect_sql_files_def list_version_dirs_def demo_source_def
      demo_walk_def is_sql_def has_suffix_def parse_version_id_def is_digit_def undec_def digit_val_def
      suffix_def)

lemma walk_is_ordered_witness: "sorted (map file_key demo_walk)"
proof -
  have "listing_ok demo_source" by (auto simp: listing_ok_def demo_source_def split: if_splits)
  from walk_is_ordered [OF demo_walked this] show ?thesis by simp
qed

lemma version_order_witness: "''2.01.01'' < ''2.10.00''"
proof -
  have "rx_test version_rx ''2.01.01''" "rx_test version_rx ''2.10.00''"
    "version_nums ''2.01.01'' < version_nums ''2.10.00''"
    by code_simp+
  with version_order show ?thesis by fastforce
qed

end
