(* ===== verification/Migrator.thy ===== *)
theory Migrator
  imports MigrationFiles
begin

text \<open>
  Applying, rolling back and inspecting migrations: the operations of
  \<^verbatim>\<open>sql/migrations/migrator.go\<close> on a database with goose's version table.  Goose itself
  is a library outside the repository: its three commands are fields of a record, on the files of
  one directory of the source, and \<open>goose_ok\<close> is what its documentation says of \<^verbatim>\<open>up\<close>.
  The mutex of the package makes each operation atomic.
\<close>

section \<open>The version table\<close>

record goose_row =
  gr_id :: nat
  gr_version :: int
  gr_applied :: bool

text \<open>\<open>gd_rows = None\<close>: there is no table; \<open>gd_schema\<close> is the rest of the database.\<close>

record 'd goose_db =
  gd_rows :: "goose_row list option"
  gd_schema :: 'd

definition no_table_text :: string where
  "no_table_text = ''Error 1146 (42S02): Table does not exist''"

definition is_table_not_found :: "string \<Rightarrow> bool" where
  "is_table_not_found err \<longleftrightarrow> contains_str err ''1146''"

text \<open>The version ids of the rows with \<^verbatim>\<open>is_applied = true\<close>; \<open>qe\<close> is an error of the
  connection.\<close>

definition query_applied :: "string option \<Rightarrow> 'd goose_db \<Rightarrow> string + int list" where
  "query_applied qe db =
     (case qe of
        Some e \<Rightarrow> Inl e
      | None \<Rightarrow> (case gd_rows db of
            None \<Rightarrow> Inl no_table_text
          | Some rows \<Rightarrow> Inr (map gr_version (filter gr_applied rows))))"

definition load_applied_version_ids :: "string option \<Rightarrow> 'd goose_db \<Rightarrow> string + int set" where
  "load_applied_version_ids qe db =
     (case query_applied qe db of
        Inl e \<Rightarrow> if is_table_not_found e then Inr {} else Inl e
      | Inr ids \<Rightarrow> Inr (set ids))"

text \<open>\<^verbatim>\<open>SELECT MAX(version_id)\<close>, which is NULL without rows.\<close>

definition current_version :: "string option \<Rightarrow> 'd goose_db \<Rightarrow> string + int" where
  "current_version qe db =
     (case query_applied qe db of
        Inl e \<Rightarrow> if is_table_not_found e then Inr 0 else Inl e
      | Inr ids \<Rightarrow> Inr (if ids = [] then 0 else Max (set ids)))"

section \<open>Status\<close>

record migration_status =
  ms_file :: migration_file
  ms_applied :: bool

definition mig_Status ::
  "string option \<Rightarrow> string option \<Rightarrow> file_source \<Rightarrow> string \<Rightarrow> 'd goose_db \<Rightarrow> string + migration_status list" where
  "mig_Status dialect qe fs cat db =
     (case dialect of
        Some e \<Rightarrow> Inl (''set dialect: '' @ e)
      | None \<Rightarrow> (case load_applied_version_ids qe db of
            Inl e \<Rightarrow> Inl e
          | Inr applied \<Rightarrow> (case walk_migration_files fs cat of
              Inl e \<Rightarrow> Inl e
            | Inr files \<Rightarrow> Inr (map (\<lambda>f. \<lparr>ms_file = f, ms_applied = (mfile_id f \<in> applied)\<rparr>) files))))"

definition CountPending ::
  "string option \<Rightarrow> string option \<Rightarrow> file_source \<Rightarrow> string \<Rightarrow> 'd goose_db \<Rightarrow> string + nat" where
  "CountPending dialect qe fs cat db =
     (case mig_Status dialect qe fs cat db of
        Inl e \<Rightarrow> Inl e
      | Inr st \<Rightarrow> Inr (length (filter (\<lambda>s. \<not> ms_applied s) st)))"

section \<open>Up and down\<close>

text \<open>\<open>gl_up_one\<close> also says whether its error is \<^verbatim>\<open>ErrNoNextVersion\<close>.\<close>

record 'd goose_lib =
  gl_dialect :: "string option"
  gl_up :: "file_source \<Rightarrow> string \<Rightarrow> 'd goose_db \<Rightarrow> string option \<times> 'd goose_db"
  gl_up_one :: "file_source \<Rightarrow> string \<Rightarrow> 'd goose_db \<Rightarrow> (string \<times> bool) option \<times> 'd goose_db"
  gl_down :: "file_source \<Rightarrow> string \<Rightarrow> 'd goose_db \<Rightarrow> string option \<times> 'd goose_db"

fun up_dirs ::
  "'d goose_lib \<Rightarrow> file_source \<Rightarrow> string \<Rightarrow> string list \<Rightarrow> nat \<Rightarrow> 'd goose_db \<Rightarrow> (nat \<times> string option) \<times> 'd goose_db" where
  "up_dirs gl fs cat [] n db = ((n, None), db)"
| "up_dirs gl fs cat (v # vs) n db =
     (case gl_up gl fs (cat @ ''/'' @ v) db of
        (Some e, db') \<Rightarrow> ((n, Some (cat @ ''/'' @ v @ '': '' @ e)), db')
      | (None, db') \<Rightarrow> up_dirs gl fs cat vs (Suc n) db')"

definition MigrateUp ::
  "'d goose_lib \<Rightarrow> file_source \<Rightarrow> string \<Rightarrow> 'd goose_db \<Rightarrow> (nat \<times> string option) \<times> 'd goose_db" where
  "MigrateUp gl fs cat db =
     (case gl_dialect gl of
        Some e \<Rightarrow> ((0, Some (''set dialect: '' @ e)), db)
      | None \<Rightarrow> (case has_root_sql fs cat of
            Inl e \<Rightarrow> ((0, Some e), db)
          | Inr has_root \<Rightarrow>
              (case (if has_root then gl_up gl fs cat db else (None, db)) of
                 (Some e, db') \<Rightarrow> ((0, Some (cat @ ''/ (root): '' @ e)), db')
               | (None, db') \<Rightarrow>
                   (let n = (if has_root then 1 else 0) in
                    case list_version_dirs fs cat of
                      Inl e \<Rightarrow> ((n, Some e), db')
                    | Inr vs \<Rightarrow> up_dirs gl fs cat vs n db'))))"

definition candidates :: "string \<Rightarrow> string list \<Rightarrow> string list" where
  "candidates cat vs = cat # map (\<lambda>v. cat @ ''/'' @ v) vs"

text \<open>The nested search loop: the first directory, in candidate order, that holds a file of the
  version; \<open>Inl\<close> is an error of reading a directory on the way.\<close>

fun find_dir :: "file_source \<Rightarrow> int \<Rightarrow> string list \<Rightarrow> string + string option" where
  "find_dir fs current [] = Inr None"
| "find_dir fs current (d # ds) =
     (case fs_read_dir fs d of
        Inl e \<Rightarrow> Inl e
      | Inr es \<Rightarrow>
          if list_ex (\<lambda>e. is_sql e \<and> parse_version_id (de_name e) = Some current) es then Inr (Some d)
          else find_dir fs current ds)"

definition not_found_text :: "int \<Rightarrow> string" where
  "not_found_text v = ''rollback target version_id '' @ dec_int v @ '' not found in any migration dir''"

definition MigrateDown ::
  "'d goose_lib \<Rightarrow> string option \<Rightarrow> file_source \<Rightarrow> string \<Rightarrow> 'd goose_db \<Rightarrow> string option \<times> 'd goose_db" where
  "MigrateDown gl qe fs cat db =
     (case gl_dialect gl of
        Some e \<Rightarrow> (Some (''set dialect: '' @ e), db)
      | None \<Rightarrow> (case current_version qe db of
            Inl e \<Rightarrow> (Some e, db)
          | Inr current \<Rightarrow>
              if current = 0 then (Some ''nothing to rollback (current version = 0)'', db)
              else (case list_version_dirs fs cat of
                  Inl e \<Rightarrow> (Some e, db)
                | Inr vs \<Rightarrow> (case find_dir fs current (candidates cat vs) of
                    Inl e \<Rightarrow> (Some e, db)
                  | Inr None \<Rightarrow> (Some (not_found_text current), db)
                  | Inr (Some d) \<Rightarrow> gl_down gl fs d db))))"

fun try_up_one ::
  "'d goose_lib \<Rightarrow> file_source \<Rightarrow> string \<Rightarrow> string list \<Rightarrow> 'd goose_db \<Rightarrow> string option \<times> 'd goose_db" where
  "try_up_one gl fs cat [] db = (Some (''nothing to apply in '' @ cat @ ''/''), db)"
| "try_up_one gl fs cat (d # ds) db =
     (case gl_up_one gl fs d db of
        (None, db') \<Rightarrow> (None, db')
      | (Some (e, no_next), db') \<Rightarrow>
          if contains_str e ''no migrations'' \<or> no_next then try_up_one gl fs cat ds db'
          else (Some (d @ '': '' @ e), db'))"

definition MigrateUpByOne ::
  "'d goose_lib \<Rightarrow> file_source \<Rightarrow> string \<Rightarrow> 'd goose_db \<Rightarrow> string option \<times> 'd goose_db" where
  "MigrateUpByOne gl fs cat db =
     (case gl_dialect gl of
        Some e \<Rightarrow> (Some (''set dialect: '' @ e), db)
      | None \<Rightarrow> (case list_version_dirs fs cat of
            Inl e \<Rightarrow> (Some e, db)
          | Inr vs \<Rightarrow> try_up_one gl fs cat (candidates cat vs) db))"

section \<open>Baseline\<close>

datatype goose_stmt = CreateTable | SeedRow | MarkRow int

definition next_id :: "goose_row list \<Rightarrow> nat" where
  "next_id rows = Suc (fold max (map gr_id rows) 0)"

fun exec_stmt :: "goose_stmt \<Rightarrow> 'd goose_db \<Rightarrow> 'd goose_db" where
  "exec_stmt CreateTable db =
     (case gd_rows db of None \<Rightarrow> db\<lparr>gd_rows := Some []\<rparr> | Some rows \<Rightarrow> db)"
| "exec_stmt SeedRow db =
     (case gd_rows db of
        None \<Rightarrow> db
      | Some rows \<Rightarrow>
          if list_ex (\<lambda>r. gr_id r = 1) rows then db
          else db\<lparr>gd_rows := Some (rows @ [\<lparr>gr_id = 1, gr_version = 0, gr_applied = True\<rparr>])\<rparr>)"
| "exec_stmt (MarkRow v) db =
     (case gd_rows db of
        None \<Rightarrow> db
      | Some rows \<Rightarrow> db\<lparr>gd_rows := Some (rows @ [\<lparr>gr_id = next_id rows, gr_version = v, gr_applied = True\<rparr>])\<rparr>)"

text \<open>\<open>ex s\<close> is the error of executing \<open>s\<close>, if it fails; \<open>qe\<close> that of the query between.\<close>

fun baseline_marks ::
  "(goose_stmt \<Rightarrow> string option) \<Rightarrow> int set \<Rightarrow> migration_file list \<Rightarrow> nat \<Rightarrow> 'd goose_db
     \<Rightarrow> (nat \<times> string option) \<times> 'd goose_db" where
  "baseline_marks ex applied [] n db = ((n, None), db)"
| "baseline_marks ex applied (f # fs) n db =
     (if mfile_id f \<in> applied then baseline_marks ex applied fs n db
      else case ex (MarkRow (mfile_id f)) of
        Some e \<Rightarrow> ((n, Some (''baseline mark '' @ dec_int (mfile_id f) @ '': '' @ e)), db)
      | None \<Rightarrow> baseline_marks ex applied fs (Suc n) (exec_stmt (MarkRow (mfile_id f)) db))"

definition Baseline ::
  "string option \<Rightarrow> (goose_stmt \<Rightarrow> string option) \<Rightarrow> string option \<Rightarrow> file_source \<Rightarrow> string \<Rightarrow> 'd goose_db
     \<Rightarrow> (nat \<times> string option) \<times> 'd goose_db" where
  "Baseline dialect ex qe fs cat db =
     (case dialect of
        Some e \<Rightarrow> ((0, Some (''set dialect: '' @ e)), db)
      | None \<Rightarrow> (case ex CreateTable of
            Some e \<Rightarrow> ((0, Some (''create goose_db_version: '' @ e)), db)
          | None \<Rightarrow> (let db1 = exec_stmt CreateTable db in
              case ex SeedRow of
                Some e \<Rightarrow> ((0, Some (''seed goose_db_version: '' @ e)), db1)
              | None \<Rightarrow> (let db2 = exec_stmt SeedRow db1 in
                  case walk_migration_files fs cat of
                    Inl e \<Rightarrow> ((0, Some e), db2)
                  | Inr files \<Rightarrow> (case load_applied_version_ids qe db2 of
                      Inl e \<Rightarrow> ((0, Some e), db2)
                    | Inr applied \<Rightarrow> baseline_marks ex applied files 0 db2)))))"

section \<open>Lemmas\<close>

definition applied_set :: "'d goose_db \<Rightarrow> int set" where
  "applied_set db =
     (case gd_rows db of None \<Rightarrow> {} | Some rows \<Rightarrow> gr_version ` {r \<in> set rows. gr_applied r})"

definition dir_ids :: "file_source \<Rightarrow> string \<Rightarrow> int set" where
  "dir_ids fs dir = mfile_id ` dir_files fs ([], dir)"

lemma dir_ids_label: "mfile_id ` dir_files fs (label, dir) = dir_ids fs dir"
proof -
  have "mfile_id ` dir_files fs (l, dir) = (\<lambda>e. the (parse_version_id (de_name e)))
      ` {e. \<exists>es. fs_read_dir fs dir = Inr es \<and> e \<in> set es \<and> is_sql e}" for l
  proof -
    have "dir_files fs (l, dir) = entry_file l ` {e. \<exists>es. fs_read_dir fs dir = Inr es \<and> e \<in> set es \<and> is_sql e}"
      unfolding dir_files_def by auto
    then show ?thesis by (simp add: image_image entry_file_def)
  qed
  then show ?thesis by (simp add: dir_ids_def)
qed

lemma no_table_found [simp]: "is_table_not_found no_table_text"
  using sublist_appendI [of "''1146''" "''Error ''" "'' (42S02): Table does not exist''"]
  by (simp only: is_table_not_found_def contains_str_def no_table_text_def append.simps)

lemma load_applied [simp]: "load_applied_version_ids None db = Inr (applied_set db)"
  by (auto simp: load_applied_version_ids_def query_applied_def applied_set_def split: option.splits)

lemma count_pending_files:
  assumes "walk_migration_files fs cat = Inr files"
  shows "CountPending None None fs cat db = Inr (length (filter (\<lambda>f. mfile_id f \<notin> applied_set db) files))"
  using assms by (simp add: CountPending_def mig_Status_def filter_map comp_def)

text \<open>What goose documents of \<^verbatim>\<open>up\<close>: when it returns without error, every migration of the
  directory is applied and none was taken back.\<close>

definition goose_ok :: "'d goose_lib \<Rightarrow> bool" where
  "goose_ok gl \<longleftrightarrow> (\<forall>fs dir db db'. gl_up gl fs dir db = (None, db') \<longrightarrow>
     applied_set db \<union> dir_ids fs dir \<subseteq> applied_set db')"

lemma goose_okD:
  "goose_ok gl \<Longrightarrow> gl_up gl fs dir db = (None, db') \<Longrightarrow>
     applied_set db \<subseteq> applied_set db' \<and> dir_ids fs dir \<subseteq> applied_set db'"
  unfolding goose_ok_def by blast

lemma up_dirs_applied:
  assumes "goose_ok gl" and "up_dirs gl fs cat vs n db = ((k, None), db')"
  shows "applied_set db \<union> (\<Union>v \<in> set vs. dir_ids fs (cat @ ''/'' @ v)) \<subseteq> applied_set db' \<and> k = n + length vs"
  using assms(2)
proof (induction vs arbitrary: n db)
  case Nil
  then show ?case by simp
next
  case (Cons v vs)
  then obtain db1 where g: "gl_up gl fs (cat @ ''/'' @ v) db = (None, db1)"
      and r: "up_dirs gl fs cat vs (Suc n) db1 = ((k, None), db')"
    by (auto split: prod.splits option.splits)
  from goose_okD [OF assms(1) g] Cons.IH [OF r] show ?case by auto
qed

lemma no_root_ids:
  assumes "has_root_sql fs cat = Inr False"
  shows "dir_ids fs cat = {}"
  using assms by (auto simp: has_root_sql_def dir_ids_def dir_files_def list_ex_iff split: sum.splits)

section \<open>Properties\<close>

lemma up_applies_all:
  assumes "goose_ok gl" and "MigrateUp gl fs cat db = ((n, None), db')"
    and "walk_migration_files fs cat = Inr files"
  shows "filter (\<lambda>f. mfile_id f \<notin> applied_set db') files = []"
proof -
  obtain has_root db1 vs k where h: "has_root_sql fs cat = Inr has_root"
      and r: "(if has_root then gl_up gl fs cat db else (None, db)) = (None, db1)"
      and vs: "list_version_dirs fs cat = Inr vs"
      and u: "up_dirs gl fs cat vs k db1 = ((n, None), db')"
    using assms(2)
    by (auto simp: MigrateUp_def Let_def split: option.splits sum.splits prod.splits if_splits)
  have root: "dir_ids fs cat \<subseteq> applied_set db1"
    using r h no_root_ids goose_okD [OF assms(1), of fs cat db db1] by (cases has_root) auto
  have "mfile_id ` set files = (\<Union>ld \<in> migration_dirs fs cat. dir_ids fs (snd ld))"
  proof -
    have "set files = (\<Union>ld \<in> migration_dirs fs cat. dir_files fs ld)"
      using assms(3) by (auto simp: walk_migration_files_def list_version_dirs_set collect_set
          walk_versions_set split: sum.splits)
    then have "mfile_id ` set files = (\<Union>ld \<in> migration_dirs fs cat. mfile_id ` dir_files fs ld)" by blast
    also have "\<dots> = (\<Union>ld \<in> migration_dirs fs cat. dir_ids fs (snd ld))"
      using dir_ids_label by (metis (no_types, lifting) SUP_cong prod.collapse)
    finally show ?thesis .
  qed
  also have "\<dots> \<subseteq> applied_set db'"
    using up_dirs_applied [OF assms(1) u] root by (auto simp: list_version_dirs_set [OF vs])
  finally show ?thesis by (auto simp: filter_empty_conv)
qed

text \<open>Once a migration run has succeeded, the status page of that database shows nothing
  pending.\<close>

theorem up_leaves_nothing_pending:
  assumes "goose_ok gl" and "MigrateUp gl fs cat db = ((n, None), db')"
    and "walk_migration_files fs cat = Inr files"
  shows "CountPending None None fs cat db' = Inr 0"
  by (simp add: count_pending_files [OF assms(3)] up_applies_all [OF assms])

lemma applied_seeded:
  "applied_set (exec_stmt SeedRow (exec_stmt CreateTable db)) - {0} = applied_set db - {0}"
  by (auto simp: applied_set_def split: option.splits)

lemma exec_rows [simp]:
  "gd_rows (exec_stmt SeedRow (exec_stmt CreateTable db)) \<noteq> None"
  by (auto split: option.splits)

lemma applied_append:
  "gd_rows db = Some rows \<Longrightarrow> applied_set (db\<lparr>gd_rows := Some (rows @ [r])\<rparr>)
     = (if gr_applied r then insert (gr_version r) (applied_set db) else applied_set db)"
  by (auto simp: applied_set_def)

lemma mark_applied:
  "gd_rows db \<noteq> None \<Longrightarrow> applied_set (exec_stmt (MarkRow v) db) = insert v (applied_set db)
     \<and> gd_rows (exec_stmt (MarkRow v) db) \<noteq> None"
  by (auto simp: applied_append)

lemma seeded_row:
  obtains rs where "gd_rows (exec_stmt SeedRow (exec_stmt CreateTable db)) = Some rs"
    and "list_ex (\<lambda>r. gr_id r = 1) rs"
  by (cases "gd_rows db"; cases "list_ex (\<lambda>r. gr_id r = 1) (the (gd_rows db))") auto

lemma baseline_marks_all:
  assumes "gd_rows db \<noteq> None" and "baseline_marks ex applied fs n db = ((k, None), db')"
  shows "k = n + length (filter (\<lambda>f. mfile_id f \<notin> applied) fs)
    \<and> applied_set db' = applied_set db \<union> (mfile_id ` set fs - applied) \<and> gd_rows db' \<noteq> None"
  using assms
proof (induction fs arbitrary: n db)
  case Nil
  then show ?case by simp
next
  case (Cons f fs)
  show ?case
  proof (cases "mfile_id f \<in> applied")
    case True
    with Cons show ?thesis by auto
  next
    case False
    with Cons.prems(2) have r: "baseline_marks ex applied fs (Suc n) (exec_stmt (MarkRow (mfile_id f)) db) = ((k, None), db')"
      by (auto split: option.splits)
    note m = mark_applied [OF Cons.prems(1), of "mfile_id f"]
    from Cons.IH [OF _ r] m False show ?thesis by auto
  qed
qed

text \<open>C28: a baseline marks exactly the migrations that were pending, runs none of them, leaves nothing
  pending, and a second one marks nothing and changes nothing.\<close>

theorem baseline_marks_pending:
  assumes "walk_migration_files fs cat = Inr files" and "\<forall>f \<in> set files. mfile_id f \<noteq> 0"
    and "Baseline None ex None fs cat db = ((n, None), db')"
  shows "CountPending None None fs cat db = Inr n \<and> CountPending None None fs cat db' = Inr 0
    \<and> gd_schema db' = gd_schema db
    \<and> Baseline None (\<lambda>_. None) None fs cat db' = ((0, None), db')"
proof -
  let ?db2 = "exec_stmt SeedRow (exec_stmt CreateTable db)"
  have b: "baseline_marks ex (applied_set ?db2) files 0 ?db2 = ((n, None), db')"
    using assms(1,3) by (auto simp: Baseline_def Let_def simp del: exec_stmt.simps split: option.splits)
  note m = baseline_marks_all [OF exec_rows b]
  have "mfile_id f \<in> applied_set ?db2 \<longleftrightarrow> mfile_id f \<in> applied_set db" if "f \<in> set files" for f
    using applied_seeded [of db] assms(2) that by blast
  then have "length (filter (\<lambda>f. mfile_id f \<notin> applied_set ?db2) files) = length (filter (\<lambda>f. mfile_id f \<notin> applied_set db) files)"
    by (metis (mono_tags, lifting) filter_cong)
  with m have before: "CountPending None None fs cat db = Inr n"
    by (simp add: count_pending_files [OF assms(1)])
  have all: "\<forall>f \<in> set files. mfile_id f \<in> applied_set db'" using m by auto
  then have "filter (\<lambda>f. mfile_id f \<notin> applied_set db') files = []" by (auto simp: filter_empty_conv)
  then have after: "CountPending None None fs cat db' = Inr 0"
    by (simp add: count_pending_files [OF assms(1)])
  have schema: "gd_schema db' = gd_schema db"
  proof -
    have "gd_schema d' = gd_schema d" if "baseline_marks ex A xs i d = (r, d')" for A xs i d r d'
      using that by (induction xs arbitrary: i d) (auto split: if_splits option.splits)
    from this [OF b] show ?thesis by (auto split: option.splits)
  qed
  obtain rows where rows: "gd_rows db' = Some rows" using m by auto
  have "list_ex (\<lambda>r. gr_id r = 1) rows"
  proof -
    have keep: "\<exists>rs'. gd_rows d' = Some rs' \<and> set rs \<subseteq> set rs'" if "baseline_marks ex A xs i d = (r, d')" "gd_rows d = Some rs"
      for A xs i d r d' rs
      using that by (induction xs arbitrary: i d rs) (force split: if_splits option.splits)+
    obtain rs where rs: "gd_rows ?db2 = Some rs" "list_ex (\<lambda>r. gr_id r = 1) rs"
      by (rule seeded_row)
    from keep [OF b rs(1)] rows rs(2) show ?thesis by (auto simp: list_ex_iff)
  qed
  then have idle: "exec_stmt SeedRow (exec_stmt CreateTable db') = db'" using rows by simp
  have none: "baseline_marks (\<lambda>_. None) (applied_set db') xs 0 db' = ((0, None), db')" if "set xs \<subseteq> set files" for xs
    using that all by (induction xs) auto
  have "Baseline None (\<lambda>_. None) None fs cat db' = ((0, None), db')"
    using none [of files] assms(1) idle
    by (simp add: Baseline_def Let_def del: exec_stmt.simps)
  with before after schema show ?thesis by blast
qed

lemma find_dir_sound:
  "find_dir fs v ds = Inr (Some d) \<Longrightarrow> d \<in> set ds \<and> v \<in> dir_ids fs d"
proof (induction ds)
  case Nil
  then show ?case by simp
next
  case (Cons x ds)
  show ?case
  proof (cases "find_dir fs v ds = Inr (Some d)")
    case True
    with Cons.IH show ?thesis by simp
  next
    case False
    then obtain es e where "fs_read_dir fs x = Inr es" "e \<in> set es" "is_sql e"
        "parse_version_id (de_name e) = Some v" "d = x"
      using Cons.prems by (auto simp: list_ex_iff split: sum.splits if_splits)
    then have "entry_file [] e \<in> dir_files fs ([], d)" "mfile_id (entry_file [] e) = v"
      by (auto simp: dir_files_def entry_file_def)
    with \<open>d = x\<close> show ?thesis by (auto simp: dir_ids_def)
  qed
qed

text \<open>C29: a successful rollback is goose's rollback in a directory of the category that holds the
  largest applied version id; with out-of-order time stamps that need not be the migration applied
  last.\<close>

theorem down_picks_largest_id:
  assumes "MigrateDown gl None fs cat db = (None, db')"
  shows "applied_set db \<noteq> {} \<and> (\<exists>d vs. list_version_dirs fs cat = Inr vs \<and> d \<in> set (candidates cat vs)
    \<and> Max (applied_set db) \<in> dir_ids fs d \<and> gl_down gl fs d db = (None, db'))"
proof -
  have "current_version None db = Inr (if applied_set db = {} then 0 else Max (applied_set db))"
    by (auto simp: current_version_def query_applied_def applied_set_def filter_empty_conv
        image_Collect split: option.splits)
  with assms show ?thesis
    by (auto simp: MigrateDown_def dest: find_dir_sound split: option.splits sum.splits if_splits)
qed

section \<open>Concrete runs\<close>

definition demo_goose :: "unit goose_lib" where
  "demo_goose =
     \<lparr>gl_dialect = None,
      gl_up = (\<lambda>fs dir db. case collect_sql_files fs dir [] of
         Inl e \<Rightarrow> (Some e, db)
       | Inr files \<Rightarrow> (None, fold (\<lambda>f d. exec_stmt (MarkRow (mfile_id f)) d) files (exec_stmt CreateTable db))),
      gl_up_one = (\<lambda>fs dir db. (Some ([], True), db)),
      gl_down = (\<lambda>fs dir db. (None, db\<lparr>gd_rows := Some []\<rparr>))\<rparr>"

definition empty_db :: "unit goose_db" where
  "empty_db = \<lparr>gd_rows = None, gd_schema = ()\<rparr>"

lemma marks_applied:
  "gd_rows db \<noteq> None \<Longrightarrow>
     applied_set (fold (\<lambda>f d. exec_stmt (MarkRow (mfile_id f)) d) files db) = applied_set db \<union> mfile_id ` set files"
proof (induction files arbitrary: db)
  case Nil
  then show ?case by simp
next
  case (Cons f files)
  from mark_applied [OF Cons.prems, of "mfile_id f"] Cons.IH [of "exec_stmt (MarkRow (mfile_id f)) db"]
  show ?case by (simp del: exec_stmt.simps)
qed

lemma demo_goose_ok: "goose_ok demo_goose"
  unfolding goose_ok_def
proof (intro allI impI)
  fix fs dir and db db' :: "unit goose_db"
  assume "gl_up demo_goose fs dir db = (None, db')"
  then obtain files where f: "collect_sql_files fs dir [] = Inr files"
      and db': "db' = fold (\<lambda>f d. exec_stmt (MarkRow (mfile_id f)) d) files (exec_stmt CreateTable db)"
    by (auto simp: demo_goose_def simp del: exec_stmt.simps split: sum.splits)
  have "gd_rows (exec_stmt CreateTable db) \<noteq> None" "applied_set (exec_stmt CreateTable db) = applied_set db"
    by (auto simp: applied_set_def split: option.splits)
  with marks_applied [of "exec_stmt CreateTable db" files] collect_set [OF f]
  show "applied_set db \<union> dir_ids fs dir \<subseteq> applied_set db'" by (simp add: db' dir_ids_def)
qed

lemma demo_dirs: "list_version_dirs demo_source ''game'' = Inr [''2.01.01'']"
  by (simp add: list_version_dirs_def demo_source_def)

lemma demo_root: "has_root_sql demo_source ''game'' = Inr True"
  by (simp add: has_root_sql_def demo_source_def is_sql_def has_suffix_def suffix_def)

lemma demo_collected:
  "collect_sql_files demo_source ''game'' [] = Inr [demo_walk ! 0]"
  "\<exists>files. collect_sql_files demo_source ''game/2.01.01'' label = Inr files"
  by (simp_all add: collect_sql_files_def demo_source_def demo_walk_def is_sql_def has_suffix_def
      parse_version_id_def is_digit_def undec_def digit_val_def suffix_def)

lemma demo_up: "\<exists>db'. MigrateUp demo_goose demo_source ''game'' empty_db = ((2, None), db')"
proof -
  obtain files where "collect_sql_files demo_source ''game/2.01.01'' [] = Inr files"
    using demo_collected(2) by blast
  then show ?thesis
    by (simp add: MigrateUp_def demo_root demo_dirs demo_goose_def demo_collected(1))
qed

lemma up_leaves_nothing_pending_witness:
  "\<exists>db'. MigrateUp demo_goose demo_source ''game'' empty_db = ((2, None), db')
     \<and> CountPending None None demo_source ''game'' db' = Inr 0"
  using demo_up up_leaves_nothing_pending [OF demo_goose_ok _ demo_walked] by blast

lemma baseline_marks_pending_witness:
  "\<exists>n db'. Baseline None (\<lambda>_. None) None demo_source ''game'' empty_db = ((n, None), db')
     \<and> CountPending None None demo_source ''game'' db' = Inr 0"
proof -
  have "\<exists>n d'. baseline_marks (\<lambda>_. None) A fs k d = ((n, None), d')" for A fs k and d :: "unit goose_db"
    by (induction fs arbitrary: k d) auto
  then obtain n db' where b: "Baseline None (\<lambda>_. None) None demo_source ''game'' empty_db = ((n, None), db')"
    using demo_walked by (simp add: Baseline_def Let_def del: exec_stmt.simps) blast
  have "\<forall>f \<in> set demo_walk. mfile_id f \<noteq> 0" by (simp add: demo_walk_def)
  from baseline_marks_pending [OF demo_walked this b] b show ?thesis by blast
qed

definition applied_db :: "unit goose_db" where
  "applied_db = \<lparr>gd_rows = Some [\<lparr>gr_id = 1, gr_version = 20260101000000, gr_applied = True\<rparr>], gd_schema = ()\<rparr>"

lemma down_picks_largest_id_witness:
  "MigrateDown demo_goose None demo_source ''game'' applied_db = (None, applied_db\<lparr>gd_rows := Some []\<rparr>)
    \<and> applied_set applied_db \<noteq> {}"
proof -
  have "find_dir demo_source 20260101000000 (candidates ''game'' [''2.01.01'']) = Inr (Some ''game'')"
    by (simp add: candidates_def demo_source_def is_sql_def has_suffix_def suffix_def parse_version_id_def
        is_digit_def undec_def digit_val_def)
  then have d: "MigrateDown demo_goose None demo_source ''game'' applied_db = (None, applied_db\<lparr>gd_rows := Some []\<rparr>)"
    by (simp add: MigrateDown_def demo_goose_def current_version_def query_applied_def applied_db_def demo_dirs)
  from down_picks_largest_id [OF d] d show ?thesis by blast
qed

end
