(* ===== verification/Database.thy ===== *)
theory Database
  imports Prelude "HOL-Library.AList"
begin

text \<open>
  The registry of databases, \<^verbatim>\<open>internal/database/database.go\<close>: registering shards with
  weights, listing them, choosing one for a new account in proportion to the weights; and the SQL
  texts built from a model's metadata, \<^verbatim>\<open>internal/database/model.go\<close>.  The mutex of the
  package makes each operation atomic; the random number is an argument.
\<close>

section \<open>The shard registry\<close>

definition GameDBShardID :: int where
  "GameDBShardID = 1"

text \<open>A database handle \<^typ>\<open>'d\<close> with the name it was opened under.\<close>

record 'd database =
  db_dbName :: string
  db_handle :: 'd

record weighted_shard =
  ws_id :: int
  ws_cum :: nat

text \<open>\<^verbatim>\<open>shardMap\<close> is an association list with distinct keys; Go's iteration order over the
  map does not matter, the listing sorts.\<close>

record 'd registry =
  rg_map :: "(int \<times> 'd database) list"
  rg_pool :: "weighted_shard list"
  rg_total :: nat

definition new_registry :: "'d registry" where
  "new_registry = \<lparr>rg_map = [], rg_pool = [], rg_total = 0\<rparr>"

definition RegisterShard :: "int \<Rightarrow> 'd database \<Rightarrow> int \<Rightarrow> 'd registry \<Rightarrow> 'd registry" where
  "RegisterShard sid db weight rg0 =
     (let rg = rg0\<lparr>rg_map := AList.update sid db (rg_map rg0)\<rparr> in
      if 0 < weight then
        (let total = rg_total rg + nat weight in
         rg\<lparr>rg_total := total, rg_pool := rg_pool rg @ [\<lparr>ws_id = sid, ws_cum = total\<rparr>]\<rparr>)
      else rg)"

definition AllShards :: "'d registry \<Rightarrow> (int \<times> 'd database) list" where
  "AllShards rg = sort_key fst (rg_map rg)"

text \<open>\<open>r\<close> is \<^verbatim>\<open>rand.IntN(totalWeight)\<close>, a number below the total; None is
  \<^verbatim>\<open>ErrNoShardAvailable\<close>.\<close>

fun pick_loop :: "nat \<Rightarrow> weighted_shard list \<Rightarrow> int option" where
  "pick_loop r [] = None"
| "pick_loop r (s # ss) = (if r < ws_cum s then Some (ws_id s) else pick_loop r ss)"

definition PickShard :: "nat \<Rightarrow> 'd registry \<Rightarrow> int option" where
  "PickShard r rg =
     (if rg_total rg = 0 then None
      else case pick_loop r (rg_pool rg) of
        Some i \<Rightarrow> Some i
      | None \<Rightarrow> Some (ws_id (last (rg_pool rg))))"

definition GetShard :: "int \<Rightarrow> 'd registry \<Rightarrow> 'd database option" where
  "GetShard sid rg = map_of (rg_map rg) sid"

definition GetGameDB :: "'d registry \<Rightarrow> 'd database option" where
  "GetGameDB rg = GetShard GameDBShardID rg"

definition CloseAll :: "'d registry \<Rightarrow> 'd registry" where
  "CloseAll rg = rg\<lparr>rg_map := [], rg_pool := [], rg_total := 0\<rparr>"

text \<open>Registering a whole configuration: identifier, database and weight of each entry.\<close>

definition register_all :: "(int \<times> 'd database \<times> int) list \<Rightarrow> 'd registry" where
  "register_all cfg = fold (\<lambda>(i, d, w) rg. RegisterShard i d w rg) cfg new_registry"

section \<open>SQL texts\<close>

record model_meta =
  mm_table :: string
  mm_pk :: string
  mm_columns :: "string list"
  mm_insert_cols :: "string list"

text \<open>The metadata of a struct from the values of its \<^verbatim>\<open>db\<close> tags, in field order.\<close>

definition getMeta :: "string \<Rightarrow> string \<Rightarrow> string list \<Rightarrow> model_meta" where
  "getMeta table pk tags =
     (let cols = filter (\<lambda>t. t \<noteq> [] \<and> t \<noteq> ''-'') tags in
      \<lparr>mm_table = table, mm_pk = pk, mm_columns = cols, mm_insert_cols = filter (\<lambda>t. t \<noteq> pk) cols\<rparr>)"

definition buildSelect :: "model_meta \<Rightarrow> string \<Rightarrow> string" where
  "buildSelect meta w = ''SELECT * FROM '' @ mm_table meta @ '' WHERE '' @ w"

definition buildInsert :: "model_meta \<Rightarrow> string" where
  "buildInsert meta = ''INSERT INTO '' @ mm_table meta @ '' ('' @ join_with '', '' (mm_insert_cols meta)
     @ '') VALUES ('' @ join_with '', '' (map (\<lambda>c. CHR '':'' # c) (mm_insert_cols meta)) @ '')''"

definition buildUpdate :: "model_meta \<Rightarrow> string list \<Rightarrow> string" where
  "buildUpdate meta cols = ''UPDATE '' @ mm_table meta @ '' SET ''
     @ join_with '', '' (map (\<lambda>c. c @ '' = :'' @ c) cols)
     @ '' WHERE '' @ mm_pk meta @ '' = :'' @ mm_pk meta"

definition buildDelete :: "model_meta \<Rightarrow> string" where
  "buildDelete meta = ''DELETE FROM '' @ mm_table meta @ '' WHERE '' @ mm_pk meta @ '' = ?''"

definition buildCount :: "model_meta \<Rightarrow> string \<Rightarrow> string" where
  "buildCount meta w = ''SELECT COUNT(*) FROM '' @ mm_table meta @ '' WHERE '' @ w"

record query_option =
  qo_order_by :: string
  qo_limit :: int
  qo_offset :: int

definition list_query :: "model_meta \<Rightarrow> string \<Rightarrow> query_option option \<Rightarrow> string" where
  "list_query meta w opt =
     buildSelect meta w @
     (case opt of
        None \<Rightarrow> []
      | Some o' \<Rightarrow>
          (if qo_order_by o' \<noteq> [] then '' ORDER BY '' @ qo_order_by o' else [])
          @ (if 0 < qo_limit o' then '' LIMIT '' @ dec_int (qo_limit o') else [])
          @ (if 0 < qo_offset o' then '' OFFSET '' @ dec_int (qo_offset o') else []))"

definition update_query :: "model_meta \<Rightarrow> string list \<Rightarrow> string" where
  "update_query meta cols = buildUpdate meta (if cols = [] then mm_insert_cols meta else cols)"

section \<open>Lemmas\<close>

text \<open>The pool's cumulative weights, as the weights of its entries.\<close>

fun cumulate :: "nat \<Rightarrow> (int \<times> nat) list \<Rightarrow> weighted_shard list" where
  "cumulate c [] = []"
| "cumulate c ((i, w) # ws) = \<lparr>ws_id = i, ws_cum = c + w\<rparr> # cumulate (c + w) ws"

definition weights :: "(int \<times> 'd database \<times> int) list \<Rightarrow> (int \<times> nat) list" where
  "weights cfg = map (\<lambda>(i, d, w). (i, nat w)) (filter (\<lambda>(i, d, w). 0 < w) cfg)"

lemma cumulate_append:
  "cumulate c (xs @ [(i, w)]) = cumulate c xs @ [\<lparr>ws_id = i, ws_cum = c + sum_list (map snd xs) + w\<rparr>]"
  by (induction xs arbitrary: c) auto

lemma register_pool:
  "rg_pool (register_all cfg) = cumulate 0 (weights cfg) \<and> rg_total (register_all cfg) = sum_list (map snd (weights cfg))"
proof (induction cfg rule: rev_induct)
  case Nil
  then show ?case by (simp add: register_all_def new_registry_def weights_def)
next
  case (snoc c cfg)
  obtain i d w where c: "c = (i, d, w)" by (cases c)
  have "register_all (cfg @ [c]) = RegisterShard i d w (register_all cfg)"
    by (simp add: register_all_def c)
  with snoc show ?case
    by (simp add: c RegisterShard_def Let_def weights_def cumulate_append)
qed

lemma pick_loop_range:
  "c \<le> r \<Longrightarrow> r < c + sum_list (map snd ws) \<Longrightarrow>
     \<exists>pre i w post. ws = pre @ (i, w) # post \<and> pick_loop r (cumulate c ws) = Some i
       \<and> c + sum_list (map snd pre) \<le> r \<and> r < c + sum_list (map snd pre) + w"
proof (induction ws arbitrary: c)
  case Nil
  then show ?case by simp
next
  case (Cons p ws)
  obtain i w where p: "p = (i, w)" by (cases p)
  show ?case
  proof (cases "r < c + w")
    case True
    then have "p # ws = [] @ (i, w) # ws" "pick_loop r (cumulate c (p # ws)) = Some i" by (simp_all add: p)
    with True Cons.prems(1) show ?thesis by fastforce
  next
    case False
    then have "c + w \<le> r" "r < c + w + sum_list (map snd ws)" using Cons.prems p by simp_all
    from Cons.IH [OF this] obtain pre j v post where
      "ws = pre @ (j, v) # post" "pick_loop r (cumulate (c + w) ws) = Some j"
      "c + w + sum_list (map snd pre) \<le> r" "r < c + w + sum_list (map snd pre) + v" by blast
    with False p show ?thesis by (intro exI [of _ "p # pre"]) auto
  qed
qed

text \<open>How many of the equally likely numbers choose a given shard.\<close>

lemma pick_count:
  "card {r. c \<le> r \<and> r < c + sum_list (map snd ws) \<and> pick_loop r (cumulate c ws) = Some i}
     = sum_list (map snd (filter (\<lambda>p. fst p = i) ws))"
proof (induction ws arbitrary: c)
  case Nil
  then show ?case by simp
next
  case (Cons p ws)
  obtain j w where p: "p = (j, w)" by (cases p)
  let ?A = "{r. c \<le> r \<and> r < c + w \<and> j = i}"
  let ?B = "{r. c + w \<le> r \<and> r < c + w + sum_list (map snd ws) \<and> pick_loop r (cumulate (c + w) ws) = Some i}"
  have "{r. c \<le> r \<and> r < c + sum_list (map snd (p # ws)) \<and> pick_loop r (cumulate c (p # ws)) = Some i} = ?A \<union> ?B"
    by (auto simp: p split: if_splits)
  moreover have "finite ?A" by (rule finite_subset [of _ "{..<c + w}"]) auto
  moreover have "finite ?B" by (rule finite_subset [of _ "{..<c + w + sum_list (map snd ws)}"]) auto
  moreover have "?A \<inter> ?B = {}" by auto
  moreover have "card ?A = (if j = i then w else 0)"
  proof -
    have "?A = (if j = i then {c..<c + w} else {})" by auto
    then show ?thesis by simp
  qed
  ultimately show ?case using Cons.IH [of "c + w"] by (simp add: card_Un_disjoint p)
qed

section \<open>Properties\<close>


text \<open>Looking up and listing.\<close>

lemma distinct_registry: "distinct (map fst (rg_map (register_all cfg)))"
proof (induction cfg rule: rev_induct)
  case Nil
  then show ?case by (simp add: register_all_def new_registry_def)
next
  case (snoc c cfg)
  then show ?case
    by (cases c) (simp add: register_all_def RegisterShard_def Let_def distinct_update)
qed

lemma AllShards_lookup:
  "(i, d) \<in> set (AllShards (register_all cfg)) \<longleftrightarrow> GetShard i (register_all cfg) = Some d"
  using distinct_registry [of cfg] by (simp add: AllShards_def GetShard_def)

lemma AllShards_sorted: "sorted (map fst (AllShards rg))"
  by (simp add: AllShards_def)

end
