(* ===== verification/AdminApi.thy ===== *)
theory AdminApi
  imports GoRuntime Migrator Database
begin

text \<open>
  The admin endpoints of \<^verbatim>\<open>router/admin.go\<close> besides the clock's: server info, the version
  table (with \<^verbatim>\<open>internal/repository/version_repository.go\<close>), the migration files and
  status, and the fallback of the single-page application.  A handler is a function of the decoded
  request and the state it uses; errors of the database, of echo's binding and of the file system
  are arguments.
\<close>

section \<open>Stage and info\<close>

definition IsLive :: "stage \<Rightarrow> bool" where
  "IsLive s \<longleftrightarrow> s = StageLive"

text \<open>In the live stage none of the admin routes is registered.\<close>

definition admin_enabled :: "stage \<Rightarrow> bool" where
  "admin_enabled s \<longleftrightarrow> \<not> IsLive s"

definition get_info :: "stage \<Rightarrow> admin_info reply" where
  "get_info s = ReplyJson 200 \<lparr>ai_stage = s\<rparr>"

section \<open>The version table\<close>

record version_model =
  gv_idx :: nat
  gv_client_version :: string
  gv_server_version :: string
  gv_app_id :: string
  gv_is_active :: int
  gv_update_flag :: int
  gv_inspection_flag :: int
  gv_catalog_filename :: string
  gv_comment :: string
  gv_insert_time :: int
  gv_update_time :: int

text \<open>The rows and the table's next automatic key.\<close>

record version_table =
  vtb_rows :: "version_model list"
  vtb_next :: nat

definition version_FindAll :: "version_table \<Rightarrow> version_model list" where
  "version_FindAll t = take 200 (rev (sort_key gv_idx (vtb_rows t)))"

definition version_Create :: "int \<Rightarrow> version_model \<Rightarrow> version_table \<Rightarrow> version_model \<times> version_table" where
  "version_Create now m0 t =
     (let m = m0\<lparr>gv_insert_time := now, gv_update_time := now, gv_idx := vtb_next t\<rparr>
      in (m, t\<lparr>vtb_rows := vtb_rows t @ [m], vtb_next := Suc (vtb_next t)\<rparr>))"

definition version_Delete :: "nat \<Rightarrow> version_table \<Rightarrow> nat \<times> version_table" where
  "version_Delete idx t =
     (length (filter (\<lambda>m. gv_idx m = idx) (vtb_rows t)),
      t\<lparr>vtb_rows := filter (\<lambda>m. gv_idx m \<noteq> idx) (vtb_rows t)\<rparr>)"

text \<open>A row as JSON; times print with the fraction of the second.\<close>

definition json_time :: "int \<Rightarrow> int \<Rightarrow> string" where
  "json_time z ns =
     (let s = format_rfc3339 z ns; k = length s - length (zone_suffix z)
      in take k s @ frac_text 9 (nat (ns mod 1000000000)) @ zone_suffix z)"

definition version_json :: "int \<Rightarrow> version_model \<Rightarrow> version_row" where
  "version_json z m =
     \<lparr>v_idx = to_num (int (gv_idx m)), v_client_version = gv_client_version m,
      v_server_version = gv_server_version m, v_app_id = gv_app_id m,
      v_is_active = Fin (gv_is_active m), v_update_flag = Fin (gv_update_flag m),
      v_inspection_flag = Fin (gv_inspection_flag m), v_catalog_filename = gv_catalog_filename m,
      v_comment = gv_comment m, v_insert_time = json_time z (gv_insert_time m),
      v_update_time = json_time z (gv_update_time m)\<rparr>"

definition get_versions :: "int \<Rightarrow> string option \<Rightarrow> version_table \<Rightarrow> version_row list reply" where
  "get_versions z err t =
     (case err of Some e \<Rightarrow> ReplyError 500 e
      | None \<Rightarrow> ReplyJson 200 (map (version_json z) (version_FindAll t)))"

definition delete_version :: "string option \<Rightarrow> string \<Rightarrow> version_table \<Rightarrow> (nat \<times> nat) reply \<times> version_table" where
  "delete_version err idx_str t =
     (case parse_uint64 idx_str of
        None \<Rightarrow> (ReplyError 400 ''invalid idx'', t)
      | Some idx \<Rightarrow>
          (case err of
             Some e \<Rightarrow> (ReplyError 500 e, t)
           | None \<Rightarrow> (case version_Delete idx t of
               (affected, t') \<Rightarrow>
                 if affected = 0 then (ReplyError 404 ''not found'', t')
                 else (ReplyJson 200 (idx, affected), t'))))"

definition bind_version :: "json \<Rightarrow> version_model option" where
  "bind_version j = do {
     kvs \<leftarrow> json_fields j;
     cv \<leftarrow> get_str ''client_version'' kvs;
     sv \<leftarrow> get_str ''server_version'' kvs;
     app \<leftarrow> get_str ''app_id'' kvs;
     act \<leftarrow> get_uint8 ''is_active'' kvs;
     upd \<leftarrow> get_uint8 ''update_flag'' kvs;
     ins \<leftarrow> get_uint8 ''inspection_flag'' kvs;
     catalog \<leftarrow> get_str ''catalog_filename'' kvs;
     com \<leftarrow> get_str ''comment'' kvs;
     Some \<lparr>gv_idx = 0, gv_client_version = cv, gv_server_version = sv, gv_app_id = app,
       gv_is_active = act, gv_update_flag = upd, gv_inspection_flag = ins,
       gv_catalog_filename = catalog, gv_comment = com, gv_insert_time = 0, gv_update_time = 0\<rparr> }"

definition post_version ::
  "int \<Rightarrow> int \<Rightarrow> string \<Rightarrow> string option \<Rightarrow> json \<Rightarrow> version_table \<Rightarrow> version_row reply \<times> version_table" where
  "post_version z now bind_err err body t =
     (case bind_version body of
        None \<Rightarrow> (ReplyError 400 bind_err, t)
      | Some m \<Rightarrow>
          if gv_client_version m = [] \<or> gv_server_version m = []
          then (ReplyError 400 ''client_version, server_version required'', t)
          else (case err of
             Some e \<Rightarrow> (ReplyError 500 e, t)
           | None \<Rightarrow> (case version_Create now m t of (m', t') \<Rightarrow> (ReplyJson 200 (version_json z m'), t'))))"

section \<open>The version table as a map\<close>

text \<open>The table stands for a finite map from keys to rows; its next key is above every key in it.\<close>

definition version_abs :: "version_table \<Rightarrow> nat \<rightharpoonup> version_model" where
  "version_abs t = map_of (map (\<lambda>m. (gv_idx m, m)) (vtb_rows t))"

definition version_inv :: "version_table \<Rightarrow> bool" where
  "version_inv t \<longleftrightarrow> distinct (map gv_idx (vtb_rows t)) \<and> (\<forall>m \<in> set (vtb_rows t). gv_idx m < vtb_next t)"

lemma version_abs_append:
  "version_abs (t\<lparr>vtb_rows := vtb_rows t @ [m], vtb_next := n\<rparr>) =
     [gv_idx m \<mapsto> m] ++ version_abs t"
  by (simp add: version_abs_def)

lemma version_abs_none: "version_inv t \<Longrightarrow> vtb_next t \<le> k \<Longrightarrow> version_abs t k = None"
  by (force simp: version_inv_def version_abs_def map_of_eq_None_iff)

lemma version_abs_filter:
  "version_abs (t\<lparr>vtb_rows := filter (\<lambda>m. gv_idx m \<noteq> i) (vtb_rows t)\<rparr>) = (version_abs t)(i := None)"
proof -
  have "map_of (map (\<lambda>m. (gv_idx m, m)) (filter (\<lambda>m. gv_idx m \<noteq> i) ms)) = (map_of (map (\<lambda>m. (gv_idx m, m)) ms))(i := None)" for ms
    by (induction ms) (auto simp: fun_eq_iff)
  then show ?thesis by (simp add: version_abs_def)
qed

lemma version_Create_inv: "version_inv t \<Longrightarrow> version_inv (snd (version_Create now m t))"
  by (force simp: version_inv_def version_Create_def Let_def)

lemma version_Delete_inv: "version_inv t \<Longrightarrow> version_inv (snd (version_Delete i t))"
  by (auto simp: version_inv_def version_Delete_def distinct_map_filter)

lemma deleted_count:
  assumes "distinct (map gv_idx ms)"
  shows "length (filter (\<lambda>m. gv_idx m = i) ms) = (if i \<in> gv_idx ` set ms then 1 else 0)"
  using assms by (induction ms) auto

lemma version_abs_dom: "i \<in> gv_idx ` set (vtb_rows t) \<longleftrightarrow> version_abs t i \<noteq> None"
  by (simp add: version_abs_def map_of_eq_None_iff image_image)

lemma version_abs_mem:
  "version_inv t \<Longrightarrow> m \<in> set (vtb_rows t) \<Longrightarrow> version_abs t (gv_idx m) = Some m"
  unfolding version_abs_def version_inv_def
  by (rule map_of_is_SomeI) (auto simp: comp_def)


definition demo_version_table :: version_table where
  "demo_version_table = \<lparr>vtb_rows = [], vtb_next = 1\<rparr>"

definition demo_model :: version_model where
  "demo_model = \<lparr>gv_idx = 1, gv_client_version = ''1.2.0'', gv_server_version = ''2.02.01.00'', gv_app_id = [],
     gv_is_active = 1, gv_update_flag = 0, gv_inspection_flag = 0, gv_catalog_filename = [], gv_comment = [],
     gv_insert_time = 0, gv_update_time = 0\<rparr>"


text \<open>The types of the stored columns: flags are bytes, the two version texts are not empty.\<close>

definition row_typed :: "version_model \<Rightarrow> bool" where
  "row_typed m \<longleftrightarrow> {gv_is_active m, gv_update_flag m, gv_inspection_flag m} \<subseteq> {0..255}
     \<and> gv_client_version m \<noteq> [] \<and> gv_server_version m \<noteq> []"

lemma get_uint8_range: "get_uint8 k kvs = Some n \<Longrightarrow> 0 \<le> n \<and> n \<le> 255"
  by (auto simp: get_uint8_def get_int_def split: option.splits json.splits if_splits)

lemma bind_version_flags:
  "bind_version j = Some m \<Longrightarrow> {gv_is_active m, gv_update_flag m, gv_inspection_flag m} \<subseteq> {0..255}"
  by (auto simp: bind_version_def dest!: get_uint8_range split: bind_splits)

text \<open>C36: whatever body is posted, the version table stays well typed: an accepted row has flags
  that fit a byte and non-empty version texts, its JSON says so, and a refused request, answered 400
  or 500, leaves the table as it was.\<close>

theorem version_rows_typed:
  assumes "\<forall>m \<in> set (vtb_rows t). row_typed m" and "post_version z now be err body t = (r, t')"
  shows "(\<forall>m \<in> set (vtb_rows t'). row_typed m)
    \<and> (case r of
         ReplyJson c row \<Rightarrow> c = 200
           \<and> {v_is_active row, v_update_flag row, v_inspection_flag row} \<subseteq> Fin ` {0..255}
       | ReplyError c e \<Rightarrow> c \<in> {400, 500} \<and> t' = t
       | ReplyText c e \<Rightarrow> False)"
proof (cases "bind_version body")
  case None
  with assms show ?thesis by (auto simp: post_version_def)
next
  case (Some m)
  with bind_version_flags [OF Some] assms show ?thesis
    by (auto simp: post_version_def version_Create_def version_json_def row_typed_def Let_def
        split: if_splits option.splits)
qed

definition demo_bad_body :: json where
  "demo_bad_body = JObj [(''client_version'', JStr ''1''), (''server_version'', JStr ''2''), (''is_active'', JInt 256)]"

lemma version_rows_typed_witness:
  "post_version 0 0 ''e'' None demo_bad_body demo_version_table = (ReplyError 400 ''e'', demo_version_table)"
proof -
  obtain r t' where p: "post_version 0 0 ''e'' None demo_bad_body demo_version_table = (r, t')" by fastforce
  moreover have "bind_version demo_bad_body = None"
    by (simp add: bind_version_def demo_bad_body_def json_fields_def get_str_def get_uint8_def get_int_def)
  then have "r = ReplyError 400 ''e''" using p by (simp add: post_version_def)
  moreover have "\<forall>m \<in> set (vtb_rows demo_version_table). row_typed m" by (simp add: demo_version_table_def)
  ultimately show ?thesis using version_rows_typed [OF _ p] by auto
qed

section \<open>Migration files\<close>

definition file_path :: "string \<Rightarrow> string \<Rightarrow> string \<Rightarrow> string" where
  "file_path cat ver filename = cat @ ''/'' @ (if ver \<noteq> [] then ver @ ''/'' else []) @ filename"

definition get_migration_file :: "file_source \<Rightarrow> string \<Rightarrow> string \<Rightarrow> string \<Rightarrow> migration_file_content reply" where
  "get_migration_file fs cat ver filename =
     (if cat \<noteq> ''game'' \<and> cat \<noteq> ''shard'' then ReplyError 400 (create_error_text ErrInvalidCategory)
      else if ver \<noteq> [] \<and> \<not> rx_test version_rx ver then ReplyError 400 ''invalid version format (expected x.yy.zz)''
      else if \<not> rx_test filename_rx filename then ReplyError 400 ''invalid filename format''
      else let path = file_path cat ver filename in
        case fs_read_file fs path of
          None \<Rightarrow> ReplyError 404 (''file not found: '' @ path)
        | Some data \<Rightarrow> ReplyJson 200 \<lparr>fc_path = path, fc_content = data\<rparr>)"

definition bind_create :: "json \<Rightarrow> create_request option" where
  "bind_create j = do {
     kvs \<leftarrow> json_fields j;
     cat \<leftarrow> get_str ''category'' kvs;
     ver \<leftarrow> get_str ''version'' kvs;
     nam \<leftarrow> get_str ''name'' kvs;
     aut \<leftarrow> get_str ''author'' kvs;
     up \<leftarrow> get_str ''up_sql'' kvs;
     dn \<leftarrow> get_str ''down_sql'' kvs;
     Some \<lparr>cr_category = cat, cr_version = ver, cr_name = nam, cr_author = aut,
       cr_base_dir = ''sql/migrations'', cr_up_sql = up, cr_down_sql = dn\<rparr> }"

fun create_status :: "create_error \<Rightarrow> nat" where
  "create_status ErrFileExists = 409"
| "create_status ErrInvalidCategory = 400"
| "create_status ErrInvalidVersion = 400"
| "create_status ErrInvalidName = 400"
| "create_status ErrAuthorRequired = 400"
| "create_status (ErrMkdir e) = 500"
| "create_status (ErrWrite e) = 500"

definition post_migrations ::
  "stage \<Rightarrow> int \<Rightarrow> string \<Rightarrow> string option \<Rightarrow> (string \<times> string option) option \<Rightarrow> json \<Rightarrow> disk \<Rightarrow> string reply \<times> disk" where
  "post_migrations st now bind_err mk wr body dk =
     (if st \<noteq> StageLocal then
        (ReplyError 403 (''migration file creation is only allowed in local stage (current: '' @
           (case st of StageLocal \<Rightarrow> ''local'' | StageDev \<Rightarrow> ''dev'' | StageQA \<Rightarrow> ''qa''
            | StageStaging \<Rightarrow> ''staging'' | StageLive \<Rightarrow> ''live'') @ '')''), dk)
      else case bind_create body of
        None \<Rightarrow> (ReplyError 400 bind_err, dk)
      | Some req \<Rightarrow> (case create_migration_file now mk wr req dk of
            (Inl e, dk') \<Rightarrow> (ReplyError (create_status e) (create_error_text e), dk')
          | (Inr path, dk') \<Rightarrow> (ReplyJson 200 path, dk')))"

text \<open>The source of the local stage, \<^verbatim>\<open>os.DirFS("sql/migrations")\<close>: reading a file there is
  reading the disk below that directory.\<close>

definition disk_source :: "(string \<Rightarrow> string + dir_entry list) \<Rightarrow> disk \<Rightarrow> file_source" where
  "disk_source rd dk = \<lparr>fs_read_dir = rd, fs_read_file = (\<lambda>p. dk (''sql/migrations/'' @ p))\<rparr>"

section \<open>Migration status\<close>

definition status_row :: "migration_status \<Rightarrow> migration_file_status" where
  "status_row s =
     \<lparr>mf_version = mfile_version (ms_file s), mf_filename = mfile_name (ms_file s),
      mf_version_id = to_num (mfile_id (ms_file s)), mf_applied = ms_applied s\<rparr>"

text \<open>One database of the reply; a nil slice is null.\<close>

definition db_status ::
  "string option \<Rightarrow> string option \<Rightarrow> file_source \<Rightarrow> int \<Rightarrow> 'd goose_db database \<Rightarrow> db_migration_status" where
  "db_status dialect qe fs sid d =
     (let cat = (if sid = GameDBShardID then Game else Shard);
          label = (if sid = GameDBShardID then ''GameDB['' else ''ShardDB['') @ db_dbName d @ '']'';
          base = \<lparr>db_label = label, db_category = cat, db_shard_id = Fin sid, db_name = db_dbName d,
                  db_total = Fin 0, db_pending = Fin 0, db_migrations = None, db_error = None\<rparr>
      in case mig_Status dialect qe fs (category_name cat) (db_handle d) of
           Inl e \<Rightarrow> base\<lparr>db_error := (if e = [] then None else Some e)\<rparr>
         | Inr rows \<Rightarrow> base\<lparr>db_total := Fin (int (length rows)),
             db_pending := Fin (int (length (filter (\<lambda>r. \<not> ms_applied r) rows))),
             db_migrations := (if rows = [] then None else Some (map status_row rows))\<rparr>)"

definition get_migrations_status ::
  "string option \<Rightarrow> (int \<Rightarrow> string option) \<Rightarrow> file_source \<Rightarrow> 'd goose_db registry \<Rightarrow> db_migration_status list reply" where
  "get_migrations_status dialect qe fs rg =
     ReplyJson 200 (map (\<lambda>(sid, d). db_status dialect (qe sid) fs sid d) (AllShards rg))"

section \<open>The single-page application\<close>

datatype fs_stat = StatNotExist | StatError | StatDir | StatFile

text \<open>The file served for a path below \<^verbatim>\<open>/admin/ui/\<close>.\<close>

definition trim_prefix :: "string \<Rightarrow> string \<Rightarrow> string" where
  "trim_prefix s p = (if prefix p s then drop (length p) s else s)"

definition ui_file :: "(string \<Rightarrow> fs_stat) \<Rightarrow> string \<Rightarrow> string" where
  "ui_file st url_path =
     (let p0 = trim_prefix url_path ''/admin/ui/'';
          p = (if p0 = [] then ''index.html'' else p0)
      in if st p = StatNotExist \<or> st p = StatDir then ''index.html'' else p)"

end
