(* ===== verification/UrlQuery.thy ===== *)
theory UrlQuery
  imports JsRuntime
begin

text \<open>
  The server's reading of a query string, Go's \<^verbatim>\<open>url.ParseQuery\<close> behind echo's
  \<^verbatim>\<open>QueryParam\<close>, and the fact that it inverts the browser's
  \<^verbatim>\<open>URLSearchParams.toString\<close> on every list of byte strings.
\<close>

section \<open>Decoding\<close>

definition unhex :: "char \<Rightarrow> nat option" where
  "unhex c =
     (if is_digit c then Some (code c - 48)
      else if 97 \<le> code c \<and> code c \<le> 102 then Some (code c - 87)
      else if 65 \<le> code c \<and> code c \<le> 70 then Some (code c - 55)
      else None)"

fun query_unescape :: "string \<Rightarrow> string option" where
  "query_unescape [] = Some []"
| "query_unescape (c # s) =
     (if c = CHR ''%'' then
        (case s of
           h # l # r \<Rightarrow>
             (case (unhex h, unhex l) of
                (Some a, Some b) \<Rightarrow> map_option ((#) (char_of (16 * a + b))) (query_unescape r)
              | _ \<Rightarrow> None)
         | _ \<Rightarrow> None)
      else map_option ((#) (if c = CHR ''+'' then CHR '' '' else c)) (query_unescape s))"

text \<open>\<^verbatim>\<open>strings.Cut\<close> at a character.\<close>

definition cut_at :: "char \<Rightarrow> string \<Rightarrow> string \<times> string" where
  "cut_at c s = (takeWhile (\<lambda>x. x \<noteq> c) s, drop 1 (dropWhile (\<lambda>x. x \<noteq> c) s))"

lemma cut_at_shorter: "s \<noteq> [] \<Longrightarrow> length (snd (cut_at c s)) < length s"
  using length_dropWhile_le [of "\<lambda>x. x \<noteq> c" s] by (cases s) (auto simp: cut_at_def)

text \<open>A segment with a semicolon, an empty one and one that does not decode are skipped.\<close>

definition parse_segment :: "string \<Rightarrow> (string \<times> string) list" where
  "parse_segment seg =
     (if CHR '';'' \<in> set seg \<or> seg = [] then []
      else case cut_at (CHR ''='') seg of
        (k, v) \<Rightarrow> (case (query_unescape k, query_unescape v) of
            (Some k', Some v') \<Rightarrow> [(k', v')]
          | _ \<Rightarrow> []))"

function parse_query :: "string \<Rightarrow> (string \<times> string) list" where
  "parse_query s = (if s = [] then []
     else parse_segment (fst (cut_at (CHR ''&'') s)) @ parse_query (snd (cut_at (CHR ''&'') s)))"
  by pat_completeness auto
termination
  by (relation "measure length") (simp_all add: cut_at_shorter)

declare parse_query.simps [simp del]

text \<open>\<^verbatim>\<open>QueryParam\<close>: the first value, or the empty string.\<close>

definition query_param :: "string \<Rightarrow> string \<Rightarrow> string" where
  "query_param query k = (case map_of (parse_query query) k of Some v \<Rightarrow> v | None \<Rightarrow> [])"

section \<open>Round trip\<close>

lemma unhex_hex_upper: "n < 16 \<Longrightarrow> unhex (hex_upper n) = Some n"
  by (auto simp: unhex_def hex_upper_def is_digit_def of_char_of)

lemma form_plain_special:
  "form_plain c \<Longrightarrow> c \<noteq> CHR ''%'' \<and> c \<noteq> CHR ''+'' \<and> c \<noteq> CHR ''&'' \<and> c \<noteq> CHR ''='' \<and> c \<noteq> CHR '';''"
  by (auto simp: form_plain_def is_lower_def is_upper_def is_digit_def)

lemma hex_upper_special:
  "n < 16 \<Longrightarrow> hex_upper n \<noteq> CHR ''&'' \<and> hex_upper n \<noteq> CHR ''='' \<and> hex_upper n \<noteq> CHR '';''"
proof -
  assume "n < 16"
  then have "code (hex_upper n) \<in> {48..57} \<union> {65..70}" by (auto simp: hex_upper_def of_char_of)
  then show ?thesis by auto
qed

lemma unescape_byte: "query_unescape (form_encode_byte c @ s) = map_option ((#) c) (query_unescape s)"
proof -
  have "code c < 256" using nat_of_char_less_256 [of c] by simp
  then have "code c div 16 < 16" "code c mod 16 < 16" by (simp_all add: less_mult_imp_div_less)
  then show ?thesis
    using form_plain_special [of c]
    by (auto simp: form_encode_byte_def unhex_hex_upper)
qed

lemma unescape_encode [simp]: "query_unescape (form_encode s) = Some s"
  by (induction s) (simp_all add: form_encode_def unescape_byte)

lemma encode_special:
  "CHR ''&'' \<notin> set (form_encode s) \<and> CHR ''='' \<notin> set (form_encode s) \<and> CHR '';'' \<notin> set (form_encode s)"
proof (induction s)
  case Nil
  then show ?case by (simp add: form_encode_def)
next
  case (Cons c s)
  have "code c < 256" using nat_of_char_less_256 [of c] by simp
  then have "code c div 16 < 16" "code c mod 16 < 16" by (simp_all add: less_mult_imp_div_less)
  then have "CHR ''&'' \<notin> set (form_encode_byte c) \<and> CHR ''='' \<notin> set (form_encode_byte c) \<and> CHR '';'' \<notin> set (form_encode_byte c)"
    using form_plain_special [of c] hex_upper_special [of "code c div 16"] hex_upper_special [of "code c mod 16"]
    by (auto simp: form_encode_byte_def)
  with Cons show ?case by (simp add: form_encode_def)
qed

lemma cut_at_append: "c \<notin> set s \<Longrightarrow> cut_at c (s @ c # t) = (s, t)"
  by (induction s) (auto simp: cut_at_def)

lemma cut_at_none: "c \<notin> set s \<Longrightarrow> cut_at c s = (s, [])"
  by (induction s) (auto simp: cut_at_def)

lemma parse_pair: "parse_segment (form_encode k @ ''='' @ form_encode v) = [(k, v)]"
  using encode_special [of k] encode_special [of v] cut_at_append [of "CHR ''=''" "form_encode k"]
  by (simp add: parse_segment_def)

lemma pair_special: "CHR ''&'' \<notin> set (form_encode k @ ''='' @ form_encode v)"
  using encode_special [of k] encode_special [of v] by simp

lemma parse_search_params: "parse_query (search_params kvs) = kvs"
proof (induction kvs)
  case Nil
  then show ?case by (simp add: search_params_def parse_query.simps)
next
  case (Cons kv kvs)
  obtain k v where kv: "kv = (k, v)" by (cases kv)
  let ?p = "form_encode k @ ''='' @ form_encode v"
  show ?case
  proof (cases kvs)
    case Nil
    then have "search_params (kv # kvs) = ?p" by (simp add: search_params_def kv)
    moreover have "cut_at (CHR ''&'') ?p = (?p, [])" by (rule cut_at_none [OF pair_special])
    ultimately show ?thesis
      using parse_pair [of k v] Nil kv by (subst parse_query.simps) (simp add: parse_query.simps [of "[]"])
  next
    case (Cons kv' kvs')
    then have "search_params (kv # kvs) = ?p @ CHR ''&'' # search_params kvs"
      by (simp add: search_params_def kv)
    moreover have "cut_at (CHR ''&'') (?p @ CHR ''&'' # search_params kvs) = (?p, search_params kvs)"
      by (rule cut_at_append [OF pair_special])
    ultimately show ?thesis
      using parse_pair [of k v] Cons.IH kv by (subst parse_query.simps) simp
  qed
qed

end
