(* ===== verification/Design.thy ===== *)
theory Design
  imports AdminApi "HOL-Library.AList" "HOL-Library.Char_ord" "HOL-Library.List_Lexorder"
begin

text \<open>
  The design data, \<^verbatim>\<open>internal/design\<close>: the catalog of one server version, its download and
  check (\<^verbatim>\<open>loader.go\<close>), the store that maps client versions to catalogs
  (\<^verbatim>\<open>store.go\<close>) and the choice of the active versions from the version table
  (\<^verbatim>\<open>syncer.go\<close>, with \<^verbatim>\<open>FindActiveOrderedByServerVersion\<close>).  The network, the SHA-256
  digest and the decoding of a file's JSON are parameters.
\<close>

section \<open>Catalogs\<close>

text \<open>The rows of the design sheets.  Of the batters the server reads two columns; the others are one
  field.\<close>

record 'b bat_design =
  bd_nid :: int
  bd_useflag :: bool
  bd_columns :: 'b

record currency_design =
  cd_idx :: int
  cd_item_id :: int
  cd_comment :: string

record item_design =
  id_idx :: int
  id_item_id :: int
  id_comment :: string
  id_item_type :: int

record shop_design =
  sd_idx :: int
  sd_shop_id :: int
  sd_type :: int
  sd_open_time :: int
  sd_close_time :: int
  sd_currency_id :: int
  sd_use_flag :: int
  sd_show_flag :: int
  sd_price :: int
  sd_shop_type :: int
  sd_ticker :: int
  sd_comment :: string

text \<open>A table by its key, Go's map as an association list with distinct keys; the order of its entries
  means nothing.\<close>

type_synonym 'v design = "(int \<times> 'v) list"

definition design_set :: "int \<Rightarrow> 'v \<Rightarrow> 'v design \<Rightarrow> 'v design" where
  "design_set k v t = AList.update k v t"

definition design_Find :: "'v design \<Rightarrow> int \<Rightarrow> 'v option" where
  "design_Find t k = map_of t k"

record 'b catalog =
  ct_version :: string
  ct_bat_data :: "'b bat_design design"
  ct_currency :: "currency_design design"
  ct_item :: "item_design design"
  ct_shop :: "shop_design design"
  ct_bat_by_use_flag :: "'b bat_design design"

definition NewCatalog :: "string \<Rightarrow> 'b catalog" where
  "NewCatalog version = \<lparr>ct_version = version, ct_bat_data = [], ct_currency = [],
     ct_item = [], ct_shop = [], ct_bat_by_use_flag = []\<rparr>"

section \<open>Loading\<close>

text \<open>\<open>cdn_do\<close> is the HTTP exchange: a transport error, or the status and the result of reading
  the body.\<close>

record 'b cdn =
  cdn_do :: "string \<Rightarrow> string + nat \<times> (string + string)"
  cdn_sha256_hex :: "string \<Rightarrow> string"
  cdn_manifest :: "string \<Rightarrow> string + (string \<times> string) list"
  cdn_bat :: "string \<Rightarrow> string + 'b bat_design list"
  cdn_currency :: "string \<Rightarrow> string + currency_design list"
  cdn_item :: "string \<Rightarrow> string + item_design list"
  cdn_shop :: "string \<Rightarrow> string + shop_design list"

definition http_get :: "'b cdn \<Rightarrow> string \<Rightarrow> string + string" where
  "http_get n url =
     (case cdn_do n url of
        Inl e \<Rightarrow> Inl e
      | Inr (status, body) \<Rightarrow> if status \<noteq> 200 then Inl (''http '' @ dec status @ '': '' @ url) else body)"

definition verify_checksum :: "'b cdn \<Rightarrow> string \<Rightarrow> string \<Rightarrow> string option" where
  "verify_checksum n data expected =
     (if \<not> prefix ''sha256:'' expected then Some (''unsupported checksum format: '' @ expected)
      else let want = drop 7 expected; got = cdn_sha256_hex n data in
        if got \<noteq> want then Some (''checksum mismatch: got '' @ got @ '', want '' @ want) else None)"

definition fetch_file :: "'b cdn \<Rightarrow> string \<Rightarrow> string \<Rightarrow> string \<Rightarrow> string \<Rightarrow> string + string" where
  "fetch_file n base version name checksum =
     (case http_get n (base @ ''/'' @ version @ ''/'' @ name) of
        Inl e \<Rightarrow> Inl e
      | Inr data \<Rightarrow>
          if checksum \<noteq> [] then (case verify_checksum n data checksum of Some e \<Rightarrow> Inl e | None \<Rightarrow> Inr data)
          else Inr data)"

definition unmarshal_into :: "'b cdn \<Rightarrow> string \<Rightarrow> string \<Rightarrow> 'b catalog \<Rightarrow> string + 'b catalog" where
  "unmarshal_into n name data c =
     (if name = ''BAT_DATA.json'' then
        (case cdn_bat n data of
           Inl e \<Rightarrow> Inl e
         | Inr list \<Rightarrow> Inr (fold (\<lambda>v c.
             (let c1 = c\<lparr>ct_bat_data := design_set (bd_nid v) v (ct_bat_data c)\<rparr> in
              if bd_useflag v then c1\<lparr>ct_bat_by_use_flag := design_set (bd_nid v) v (ct_bat_by_use_flag c1)\<rparr> else c1)) list c))
      else if name = ''CURRENCY_LIST.json'' then
        (case cdn_currency n data of
           Inl e \<Rightarrow> Inl e
         | Inr list \<Rightarrow> Inr (fold (\<lambda>v c. c\<lparr>ct_currency := design_set (cd_item_id v) v (ct_currency c)\<rparr>) list c))
      else if name = ''ITEM_LIST.json'' then
        (case cdn_item n data of
           Inl e \<Rightarrow> Inl e
         | Inr list \<Rightarrow> Inr (fold (\<lambda>v c. c\<lparr>ct_item := design_set (id_item_id v) v (ct_item c)\<rparr>) list c))
      else if name = ''SHOP_LIST.json'' then
        (case cdn_shop n data of
           Inl e \<Rightarrow> Inl e
         | Inr list \<Rightarrow> Inr (fold (\<lambda>v c. c\<lparr>ct_shop := design_set (sd_shop_id v) v (ct_shop c)\<rparr>) list c))
      else Inr c)"

fun load_files :: "'b cdn \<Rightarrow> string \<Rightarrow> string \<Rightarrow> (string \<times> string) list \<Rightarrow> 'b catalog \<Rightarrow> string + 'b catalog" where
  "load_files n base version [] c = Inr c"
| "load_files n base version ((name, checksum) # fs) c =
     (case fetch_file n base version name checksum of
        Inl e \<Rightarrow> Inl (''fetch '' @ name @ '': '' @ e)
      | Inr data \<Rightarrow> (case unmarshal_into n name data c of
            Inl e \<Rightarrow> Inl (''unmarshal '' @ name @ '': '' @ e)
          | Inr c' \<Rightarrow> load_files n base version fs c'))"

definition fetch_manifest :: "'b cdn \<Rightarrow> string \<Rightarrow> string \<Rightarrow> string + (string \<times> string) list" where
  "fetch_manifest n base version =
     (case http_get n (base @ ''/'' @ version @ ''/manifest.json'') of
        Inl e \<Rightarrow> Inl e
      | Inr data \<Rightarrow> cdn_manifest n data)"

definition Load :: "'b cdn \<Rightarrow> string \<Rightarrow> string \<Rightarrow> string + 'b catalog" where
  "Load n base version =
     (case fetch_manifest n base version of
        Inl e \<Rightarrow> Inl (''fetch manifest: '' @ e)
      | Inr files \<Rightarrow> load_files n base version files (NewCatalog version))"

section \<open>The store and the active versions\<close>

type_synonym 'b design_store = "string \<rightharpoonup> 'b catalog"

definition GetByClientVersion :: "'b design_store \<Rightarrow> string \<Rightarrow> 'b catalog option" where
  "GetByClientVersion st cv = st cv"

definition MaxActiveVersions :: nat where
  "MaxActiveVersions = 2"

text \<open>The query orders by the text of the server version, largest first; rows with the same one stay
  in table order.\<close>

definition FindActiveOrderedByServerVersion :: "version_table \<Rightarrow> version_model list" where
  "FindActiveOrderedByServerVersion t =
     rev (sort_key gv_server_version (rev (filter (\<lambda>m. gv_is_active m = 1) (vtb_rows t))))"

fun ordered_sv :: "version_model list \<Rightarrow> string list \<Rightarrow> string list" where
  "ordered_sv [] acc = acc"
| "ordered_sv (v # vs) acc =
     ordered_sv vs (if gv_server_version v \<in> set acc then acc else acc @ [gv_server_version v])"

definition cv_by_sv :: "version_model list \<Rightarrow> string \<Rightarrow> string list" where
  "cv_by_sv rows sv = map gv_client_version (filter (\<lambda>v. gv_server_version v = sv) rows)"

text \<open>The loop over the kept server versions; \<open>first\<close> is \<^verbatim>\<open>i == 0\<close>.\<close>

fun load_loop :: "(string \<Rightarrow> string + 'b catalog) \<Rightarrow> version_model list \<Rightarrow> bool \<Rightarrow> string list \<Rightarrow> 'b design_store \<Rightarrow> string + 'b design_store" where
  "load_loop ld rows first [] m = Inr m"
| "load_loop ld rows first (sv # svs) m =
     (case ld sv of
        Inl e \<Rightarrow> if first then Inl (''load latest '' @ sv @ '': '' @ e) else load_loop ld rows False svs m
      | Inr c \<Rightarrow> load_loop ld rows False svs (fold (\<lambda>cv m. m(cv \<mapsto> c)) (cv_by_sv rows sv) m))"

definition LoadActive ::
  "(string \<Rightarrow> string + 'b catalog) \<Rightarrow> string + version_model list \<Rightarrow> 'b design_store \<Rightarrow> string option \<times> 'b design_store" where
  "LoadActive ld query st =
     (case query of
        Inl e \<Rightarrow> (Some (''query TB_VERSION: '' @ e), st)
      | Inr rows \<Rightarrow>
          (let svs = ordered_sv rows [] in
           if svs = [] then (Some ''no active version in TB_VERSION'', st)
           else let kept = (if MaxActiveVersions < length svs then take MaxActiveVersions svs else svs) in
             case load_loop ld rows True kept Map.empty of
               Inl e \<Rightarrow> (Some e, st)
             | Inr m \<Rightarrow> (None, m)))"

text \<open>\<^verbatim>\<open>Trigger\<close>: reload, then publish; \<open>pub\<close> is the error of publishing.  The endpoint
  \<^verbatim>\<open>POST /admin/design/reload\<close> answers with it.\<close>

definition design_Trigger ::
  "(string \<Rightarrow> string + 'b catalog) \<Rightarrow> string + version_model list \<Rightarrow> string option \<Rightarrow> 'b design_store \<Rightarrow> string option \<times> 'b design_store" where
  "design_Trigger ld query pub st =
     (case LoadActive ld query st of
        (Some e, st') \<Rightarrow> (Some e, st')
      | (None, st') \<Rightarrow> (pub, st'))"

definition post_design_reload ::
  "(string \<Rightarrow> string + 'b catalog) \<Rightarrow> string + version_model list \<Rightarrow> string option \<Rightarrow> 'b design_store \<Rightarrow> unit reply \<times> 'b design_store" where
  "post_design_reload ld query pub st =
     (case design_Trigger ld query pub st of
        (Some e, st') \<Rightarrow> (ReplyText 500 e, st')
      | (None, st') \<Rightarrow> (ReplyText 200 ''OK: reloaded from TB_VERSION'', st'))"

text \<open>A published reload at another server: its own message is skipped, a failing reload only
  logged.\<close>

definition design_received ::
  "string \<Rightarrow> string \<Rightarrow> (string \<Rightarrow> string + 'b catalog) \<Rightarrow> string + version_model list \<Rightarrow> 'b design_store \<Rightarrow> 'b design_store" where
  "design_received self payload ld query st =
     (if payload = self \<and> self \<noteq> [] then st else snd (LoadActive ld query st))"

section \<open>Lemmas\<close>

lemma unmarshal_version: "unmarshal_into n name data c = Inr c' \<Longrightarrow> ct_version c' = ct_version c"
proof -
  have f: "ct_version (fold g xs c) = ct_version c" if "\<And>v c. ct_version (g v c) = ct_version c"
    for g :: "'x \<Rightarrow> 'b catalog \<Rightarrow> 'b catalog" and xs c
    using that by (induction xs arbitrary: c) simp_all
  assume "unmarshal_into n name data c = Inr c'"
  then show ?thesis
    by (auto simp: unmarshal_into_def f Let_def split: if_splits sum.splits)
qed

lemma load_files_version: "load_files n base v fs c = Inr c' \<Longrightarrow> ct_version c' = ct_version c"
  by (induction n base v fs c rule: load_files.induct)
    (auto split: sum.splits dest: unmarshal_version)

lemma Load_version: "Load n base v = Inr c \<Longrightarrow> ct_version c = v"
  by (auto simp: Load_def NewCatalog_def split: sum.splits dest!: load_files_version)

lemma ordered_sv_set: "set (ordered_sv rows acc) = set acc \<union> gv_server_version ` set rows"
  by (induction rows acc rule: ordered_sv.induct) auto

lemma ordered_sv_distinct: "distinct acc \<Longrightarrow> distinct (ordered_sv rows acc)"
  by (induction rows acc rule: ordered_sv.induct) auto

lemma ordered_sv_prefix: "prefix acc (ordered_sv rows acc)"
  by (induction rows acc rule: ordered_sv.induct) (auto simp: prefix_def split: if_splits)

lemma ordered_sv_hd: "rows \<noteq> [] \<Longrightarrow> hd (ordered_sv rows []) = gv_server_version (hd rows) \<and> ordered_sv rows [] \<noteq> []"
proof (cases rows)
  case (Cons v vs)
  from ordered_sv_prefix [of "[gv_server_version v]" vs] show ?thesis
    unfolding Cons by (auto simp: prefix_def)
qed simp

lemma fold_assign: "fold (\<lambda>cv m. m(cv \<mapsto> c)) cvs m cv = (if cv \<in> set cvs then Some c else m cv)"
  by (induction cvs arbitrary: m) auto

text \<open>The server version whose catalog a client gets: the last one of the list that has it and could
  be loaded.\<close>

definition serving :: "(string \<Rightarrow> string + 'b catalog) \<Rightarrow> version_model list \<Rightarrow> string list \<Rightarrow> string \<Rightarrow> string option" where
  "serving ld rows svs cv = find (\<lambda>sv. cv \<in> set (cv_by_sv rows sv) \<and> \<not> isl (ld sv)) (rev svs)"

lemma find_append: "find P (xs @ ys) = (case find P xs of Some x \<Rightarrow> Some x | None \<Rightarrow> find P ys)"
  by (induction xs) auto

lemma find_SomeD: "find P xs = Some x \<Longrightarrow> P x \<and> x \<in> set xs"
  by (induction xs) (auto split: if_splits)

lemma serving_SomeD:
  "serving ld rows svs cv = Some sv \<Longrightarrow> sv \<in> set svs \<and> cv \<in> set (cv_by_sv rows sv) \<and> \<not> isl (ld sv)"
  unfolding serving_def using find_SomeD by fastforce

lemma load_loop_serving:
  "load_loop ld rows first svs m = Inr m' \<Longrightarrow>
     m' cv = (case serving ld rows svs cv of Some sv \<Rightarrow> Some (projr (ld sv)) | None \<Rightarrow> m cv)"
proof (induction svs arbitrary: first m)
  case Nil
  then show ?case by (simp add: serving_def)
next
  case (Cons sv svs)
  then show ?case
    by (auto simp: serving_def find_append fold_assign split: sum.splits if_splits option.splits)
qed

lemma load_loop_first: "load_loop ld rows True (sv # svs) m = Inr m' \<Longrightarrow> \<not> isl (ld sv)"
  by (auto split: sum.splits)

lemma take_kept: "(if MaxActiveVersions < length svs then take MaxActiveVersions svs else svs) = take 2 svs"
  by (simp add: MaxActiveVersions_def)

lemma LoadActive_failed: "LoadActive ld query st = (Some e, st') \<Longrightarrow> st' = st"
  by (auto simp: LoadActive_def Let_def split: sum.splits if_splits)

lemma LoadActive_loaded:
  assumes "LoadActive ld (Inr rows) st = (None, st')"
  shows "rows \<noteq> [] \<and> \<not> isl (ld (gv_server_version (hd rows)))
    \<and> st' cv = map_option (projr \<circ> ld) (serving ld rows (take 2 (ordered_sv rows [])) cv)"
proof -
  let ?svs = "ordered_sv rows []"
  have n: "?svs \<noteq> []" and l: "load_loop ld rows True (take 2 ?svs) Map.empty = Inr st'"
    using assms by (auto simp: LoadActive_def take_kept Let_def split: sum.splits if_splits)
  have r: "rows \<noteq> []" using n by auto
  obtain svs where "take 2 ?svs = gv_server_version (hd rows) # svs"
    using ordered_sv_hd [OF r] by (cases ?svs) (auto simp: take_Cons')
  with l have "\<not> isl (ld (gv_server_version (hd rows)))" using load_loop_first by metis
  with r load_loop_serving [OF l, of cv] show ?thesis by (simp split: option.splits)
qed

section \<open>Properties\<close>

text \<open>C39: a reload is atomic and computes the documented mapping: on any failure the store is as it was;
  on success the newest active server version has been loaded, every client gets a catalog exactly
  when one of the two newest active server versions lists it and could be loaded, and the catalog is
  that of the older of the two when both do.\<close>

theorem reload_maps_clients:
  assumes "LoadActive (Load n base) query st = (res, st')"
  shows "(res \<noteq> None \<longrightarrow> st' = st)
    \<and> (res = None \<longrightarrow> (\<exists>rows c. query = Inr rows \<and> rows \<noteq> []
        \<and> Load n base (gv_server_version (hd rows)) = Inr c
        \<and> (\<forall>cv. GetByClientVersion st' cv
             = map_option (projr \<circ> Load n base) (serving (Load n base) rows (take 2 (ordered_sv rows [])) cv)
           \<and> (\<forall>k. GetByClientVersion st' cv = Some k \<longrightarrow> cv \<in> set (cv_by_sv rows (ct_version k))
                 \<and> ct_version k \<in> set (take 2 (ordered_sv rows []))))))"
proof (cases res)
  case (Some e)
  with assms LoadActive_failed show ?thesis by auto
next
  case None
  then obtain rows where rows: "query = Inr rows" using assms by (cases query) (auto simp: LoadActive_def)
  note l = LoadActive_loaded [OF assms [unfolded rows None]]
  have "cv \<in> set (cv_by_sv rows (ct_version k)) \<and> ct_version k \<in> set (take 2 (ordered_sv rows []))"
    if k: "st' cv = Some k" for cv k
  proof -
    obtain sv where "serving (Load n base) rows (take 2 (ordered_sv rows [])) cv = Some sv" "k = projr (Load n base sv)"
      using k l [of cv] by auto
    moreover from this have "cv \<in> set (cv_by_sv rows sv)" "\<not> isl (Load n base sv)" "sv \<in> set (take 2 (ordered_sv rows []))"
      using serving_SomeD by metis+
    ultimately show ?thesis using Load_version [of n base sv] by (metis sum.collapse(2))
  qed
  moreover obtain c where "Load n base (gv_server_version (hd rows)) = Inr c"
    using l by (metis sum.collapse(2))
  ultimately show ?thesis using None rows l by (auto simp: GetByClientVersion_def)
qed

lemma FindActive_set: "set (FindActiveOrderedByServerVersion t) = {m \<in> set (vtb_rows t). gv_is_active m = 1}"
  by (auto simp: FindActiveOrderedByServerVersion_def)

lemma sorted_last: "sorted (map f xs) \<Longrightarrow> x \<in> set xs \<Longrightarrow> f x \<le> f (last xs)"
  by (induction xs) (auto split: if_splits)

lemma FindActive_hd:
  assumes "m \<in> set (vtb_rows t)" and "gv_is_active m = 1"
    and "\<forall>x \<in> set (vtb_rows t). gv_is_active x = 1 \<longrightarrow> gv_server_version x \<le> gv_server_version m"
  shows "gv_server_version (hd (FindActiveOrderedByServerVersion t)) = gv_server_version m"
proof -
  let ?rows = "sort_key gv_server_version (rev (filter (\<lambda>m. gv_is_active m = 1) (vtb_rows t)))"
  have m: "m \<in> set ?rows" using assms by simp
  then have "?rows \<noteq> []" by (metis empty_iff list.set(1))
  then have "last ?rows \<in> set ?rows" by (rule last_in_set)
  then have "gv_server_version (last ?rows) \<le> gv_server_version m" using assms(3) by auto
  moreover have "gv_server_version m \<le> gv_server_version (last ?rows)"
    using m by (intro sorted_last) simp_all
  ultimately have "gv_server_version (last ?rows) = gv_server_version m" by simp
  then show ?thesis using \<open>?rows \<noteq> []\<close>
    by (simp add: FindActiveOrderedByServerVersion_def hd_rev)
qed

lemma newest_is_served:
  assumes "LoadActive ld (Inr (FindActiveOrderedByServerVersion t)) st = (None, st')"
    and "m \<in> set (vtb_rows t)" and "gv_is_active m = 1"
    and "\<forall>x \<in> set (vtb_rows t). gv_is_active x = 1 \<longrightarrow> gv_server_version x \<le> gv_server_version m"
  shows "\<exists>sv. serving ld (FindActiveOrderedByServerVersion t) (take 2 (ordered_sv (FindActiveOrderedByServerVersion t) [])) (gv_client_version m) = Some sv
    \<and> st' (gv_client_version m) = Some (projr (ld sv))"
proof -
  let ?rows = "FindActiveOrderedByServerVersion t" and ?cv = "gv_client_version m"
  note l = LoadActive_loaded [OF assms(1), of ?cv] and h = FindActive_hd [OF assms(2-4)]
  have "?cv \<in> set (cv_by_sv ?rows (gv_server_version m))"
    using assms(2,3) by (auto simp: cv_by_sv_def FindActive_set)
  moreover have "hd (ordered_sv ?rows []) = gv_server_version m" "ordered_sv ?rows [] \<noteq> []"
    using ordered_sv_hd [of ?rows] l h by auto
  then have "gv_server_version m \<in> set (rev (take 2 (ordered_sv ?rows [])))"
    by (cases "ordered_sv ?rows []") auto
  moreover have "\<not> isl (ld (gv_server_version m))" using l h by simp
  ultimately have "serving ld ?rows (take 2 (ordered_sv ?rows [])) ?cv \<noteq> None"
    unfolding serving_def find_None_iff by blast
  with l show ?thesis by auto
qed

section \<open>Concrete runs\<close>

text \<open>A network that serves empty manifests.\<close>

definition demo_cdn :: "unit cdn" where
  "demo_cdn = \<lparr>cdn_do = (\<lambda>_. Inr (200, Inr [])), cdn_sha256_hex = (\<lambda>_. []), cdn_manifest = (\<lambda>_. Inr []),
     cdn_bat = (\<lambda>_. Inr []), cdn_currency = (\<lambda>_. Inr []), cdn_item = (\<lambda>_. Inr []), cdn_shop = (\<lambda>_. Inr [])\<rparr>"

lemma demo_load: "Load demo_cdn base v = Inr (NewCatalog v)"
  by (simp add: Load_def fetch_manifest_def http_get_def demo_cdn_def)

definition demo_active :: "version_model list" where
  "demo_active = [demo_model\<lparr>gv_client_version := ''c'', gv_server_version := ''2''\<rparr>,
     demo_model\<lparr>gv_client_version := ''c'', gv_server_version := ''1''\<rparr>]"

text \<open>A client listed by both active server versions gets the older catalog.\<close>

lemma reload_maps_clients_witness:
  "\<exists>st. LoadActive (Load demo_cdn []) (Inr demo_active) Map.empty = (None, st)
     \<and> GetByClientVersion st ''c'' = Some (NewCatalog ''1'')"
proof -
  have svs: "ordered_sv demo_active [] = [''2'', ''1'']" by (simp add: demo_active_def)
  obtain res st where l: "LoadActive (Load demo_cdn []) (Inr demo_active) Map.empty = (res, st)" by fastforce
  then have "res = None"
    by (auto simp: LoadActive_def svs demo_load MaxActiveVersions_def Let_def)
  moreover have "serving (Load demo_cdn []) demo_active [''2'', ''1''] ''c'' = Some ''1''"
    by (simp add: serving_def cv_by_sv_def demo_active_def demo_load)
  ultimately show ?thesis
    using reload_maps_clients [OF l] l by (auto simp: svs demo_load)
qed

end
