(* ===== verification/AdminStack.thy ===== *)
theory AdminStack
  imports AdminApp AdminApi UrlQuery Design
begin

text \<open>
  The admin pages against the server's endpoints: what a request that a page sends does when the
  handler of \<^verbatim>\<open>router/admin.go\<close> answers it, and what the page then shows.  The router hands
  the handler the query string, the last path segment and the decoded body of the request.
\<close>

section \<open>Requests on the wire\<close>

text \<open>The part of a URL after a known prefix.\<close>

definition url_rest :: "string \<Rightarrow> http_request \<Rightarrow> string option" where
  "url_rest p rq = (if prefix p (rq_url rq) then Some (drop (length p) (rq_url rq)) else None)"

definition body_of :: "http_request \<Rightarrow> json" where
  "body_of rq = (case rq_body rq of Some j \<Rightarrow> j | None \<Rightarrow> JNull)"

text \<open>The file endpoint on a request: its three query parameters.\<close>

definition serve_file :: "file_source \<Rightarrow> http_request \<Rightarrow> migration_file_content reply option" where
  "serve_file fs rq =
     map_option (\<lambda>q. get_migration_file fs (query_param q ''category'') (query_param q ''version'')
                       (query_param q ''filename''))
       (url_rest ''/admin/migrations/file?'' rq)"

definition serve_delete :: "string option \<Rightarrow> http_request \<Rightarrow> version_table \<Rightarrow> ((nat \<times> nat) reply \<times> version_table) option" where
  "serve_delete err rq t = map_option (\<lambda>p. delete_version err p t) (url_rest ''/admin/version/'' rq)"

lemma serve_file_request:
  "serve_file fs (mig_request (MFile v)) =
     Some (get_migration_file fs (category_name (vt_category v)) (vt_version v) (vt_filename v))"
  by (simp add: serve_file_def url_rest_def migrationsApi_file_def send_def BASE_def Let_def
      query_param_def parse_search_params)

section \<open>Viewing migration files\<close>

text \<open>A path component that names one entry of its directory.\<close>

definition plain_component :: "string \<Rightarrow> bool" where
  "plain_component p \<longleftrightarrow> p \<noteq> [] \<and> CHR ''/'' \<notin> set p \<and> p \<noteq> ''.'' \<and> p \<noteq> ''..''"

lemma plain_component_head:
  "p = c # q \<Longrightarrow> c \<noteq> CHR ''.'' \<Longrightarrow> CHR ''/'' \<notin> set p \<Longrightarrow> plain_component p"
  by (auto simp: plain_component_def)

lemma digit_specials: "is_digit c \<Longrightarrow> c \<noteq> CHR ''.'' \<and> c \<noteq> CHR ''/''"
  by (auto simp: is_digit_def)

lemma snake_specials: "snake_char c \<Longrightarrow> c \<noteq> CHR ''/''"
  by (auto simp: snake_char_def is_digit_def is_lower_def)

lemma version_component: "rx_test version_rx s \<Longrightarrow> plain_component s"
proof -
  assume "rx_test version_rx s"
  then obtain maj mid low where s: "s = maj @ ''.'' @ mid @ ''.'' @ low" "maj \<noteq> []"
      "\<forall>c \<in> set (maj @ mid @ low). is_digit c"
    by (auto simp: version_rx_shape)
  then obtain c q where "maj = c # q" by (cases maj) auto
  with s show ?thesis
    by (intro plain_component_head [of _ c "q @ ''.'' @ mid @ ''.'' @ low"]) (auto dest: digit_specials)
qed

lemma filename_component: "rx_test filename_rx s \<Longrightarrow> plain_component s"
proof -
  assume "rx_test filename_rx s"
  then obtain ts body where s: "s = ts @ ''_'' @ body @ ''.sql''" "length ts = 14"
      "\<forall>c \<in> set ts. is_digit c" "\<forall>c \<in> set body. snake_char c"
    by (auto simp: filename_rx_shape)
  then obtain c q where "ts = c # q" by (cases ts) auto
  with s show ?thesis
    by (intro plain_component_head [of _ c "q @ ''_'' @ body @ ''.sql''"])
      (auto dest: digit_specials snake_specials)
qed

text \<open>C31: the file endpoint never leaves the migration directories: whatever the query says, a reply
  other than 400 comes from reading exactly one path, made of a category, at most one version
  directory and a file name, none of them empty, a dot segment or containing a slash.\<close>

theorem file_endpoint_confined:
  assumes "get_migration_file fs cat ver fn = r" and "reply_status r \<noteq> 400"
  shows "\<exists>parts. list_all plain_component parts \<and> length parts = (if ver = [] then 2 else 3)
    \<and> hd parts \<in> {''game'', ''shard''}
    \<and> r = (case fs_read_file fs (join_with ''/'' parts) of
             None \<Rightarrow> ReplyError 404 (''file not found: '' @ join_with ''/'' parts)
           | Some d \<Rightarrow> ReplyJson 200 \<lparr>fc_path = join_with ''/'' parts, fc_content = d\<rparr>)"
proof -
  have c: "cat = ''game'' \<or> cat = ''shard''" "ver = [] \<or> rx_test version_rx ver" "rx_test filename_rx fn"
    and r: "r = (case fs_read_file fs (file_path cat ver fn) of
             None \<Rightarrow> ReplyError 404 (''file not found: '' @ file_path cat ver fn)
           | Some d \<Rightarrow> ReplyJson 200 \<lparr>fc_path = file_path cat ver fn, fc_content = d\<rparr>)"
    using assms by (auto simp: get_migration_file_def Let_def split: if_splits)
  let ?parts = "cat # (if ver = [] then [] else [ver]) @ [fn]"
  have "list_all plain_component ?parts"
    using c version_component filename_component by (auto simp: plain_component_def)
  moreover have path: "file_path cat ver fn = join_with ''/'' ?parts"
    by (simp add: file_path_def)
  moreover have "length ?parts = (if ver = [] then 2 else 3)" "hd ?parts \<in> {''game'', ''shard''}"
    using c(1) by auto
  ultimately show ?thesis using r [unfolded path] by blast
qed

text \<open>Two operators at work: a file that the dialogue has created is at once visible in the viewer.\<close>

definition created_target :: "int \<Rightarrow> create_migration_input \<Rightarrow> view_target" where
  "created_target now i =
     \<lparr>vt_category = cm_category i, vt_version = cm_version i,
      vt_filename = create_filename now (sanitize_author (cm_author i)) (cm_name i)\<rparr>"

definition created_path :: "int \<Rightarrow> create_migration_input \<Rightarrow> string" where
  "created_path now i = join_with ''/'' [''sql/migrations'', category_name (cm_category i), cm_version i,
     create_filename now (sanitize_author (cm_author i)) (cm_name i)]"

definition created_text :: "int \<Rightarrow> create_migration_input \<Rightarrow> string" where
  "created_text now i = build_template (cm_name i) (sanitize_author (cm_author i)) now (cm_up_sql i) (cm_down_sql i)"

lemma bind_create_request:
  "bind_create (body_of (mig_request (MCreate k i))) =
     Some \<lparr>cr_category = category_name (cm_category i), cr_version = cm_version i, cr_name = cm_name i,
       cr_author = cm_author i, cr_base_dir = ''sql/migrations'', cr_up_sql = cm_up_sql i, cr_down_sql = cm_down_sql i\<rparr>"
  by (simp add: body_of_def migrationsApi_create_def send_def bind_create_def json_fields_def get_str_def)

lemma category_cases: "category_name c = ''game'' \<or> category_name c = ''shard''"
  by (cases c) simp_all

lemma post_create_request:
  assumes "valid_create_input i"
  shows "post_migrations StageLocal now be None None (body_of (mig_request (MCreate k i))) dk =
     (if sanitize_author (cm_author i) = [] then (ReplyError 400 (create_error_text ErrAuthorRequired), dk)
      else if dk (created_path now i) \<noteq> None then (ReplyError 409 (create_error_text ErrFileExists), dk)
      else (ReplyJson 200 (created_path now i), dk(created_path now i \<mapsto> created_text now i)))"
proof -
  let ?req = "\<lparr>cr_category = category_name (cm_category i), cr_version = cm_version i,
       cr_name = cm_name i, cr_author = cm_author i, cr_base_dir = ''sql/migrations'',
       cr_up_sql = cm_up_sql i, cr_down_sql = cm_down_sql i\<rparr>"
  have path: "path_join [path_join [''sql/migrations'', category_name (cm_category i), cm_version i],
      create_filename now (sanitize_author (cm_author i)) (cm_name i)] = created_path now i"
    by (simp add: path_join_def created_path_def)
  have "create_migration_file now None None ?req dk =
     (if sanitize_author (cm_author i) = [] then (Inl ErrAuthorRequired, dk)
      else if dk (created_path now i) \<noteq> None then (Inl ErrFileExists, dk)
      else (Inr (created_path now i), dk(created_path now i \<mapsto> created_text now i)))"
    using assms category_cases [of "cm_category i"]
    by (auto simp: create_migration_file_def valid_create_input_def CategoryGame_def CategoryShard_def
        path created_text_def Let_def)
  then show ?thesis
    by (simp add: post_migrations_def bind_create_request del: mig_request.simps)
qed

text \<open>C32: in the local stage a create request of the page has three possible answers, when the file
  system itself works: 400 exactly when nothing is left of the author after sanitizing, 409 exactly
  when the file exists, and otherwise 200; a refusal leaves the disk as it was and reaches the
  dialogue that sent the request as an error text with the status in front.\<close>

theorem create_answers:
  assumes "reaches mig_init (mig_step lib srv) s" and "MCreate k i \<in> set (mg_pending s)"
    and "post_migrations StageLocal now be None None (body_of (mig_request (MCreate k i))) dk = (r, dk')"
  shows "reply_status r \<in> {200, 400, 409}
    \<and> (reply_status r = 400 \<longleftrightarrow> sanitize_author (cm_author i) = [])
    \<and> (reply_status r = 200 \<longleftrightarrow> sanitize_author (cm_author i) \<noteq> [] \<and> dk (created_path now i) = None)
    \<and> (reply_status r \<noteq> 200 \<longrightarrow> dk' = dk \<and> (\<exists>text. submit_outcome store (received r)
         = Inl (Exn ''Error'' (dec (reply_status r) @ '' '' @ text))))"
proof -
  have "valid_create_input i"
    using create_inv_reachable [OF assms(1)] assms(2) by (auto simp: create_inv_def)
  from post_create_request [OF this, of now be k dk] assms(3)
  show ?thesis by (auto simp: submit_outcome_def res_ok_def split: if_splits)
qed

text \<open>C33: a file created through the dialogue can be read back through the viewer at once: in the
  local stage the server reads the disk, the viewer's request for the new file is answered with it,
  and the page shows the template with the operator's SQL.\<close>

theorem created_file_is_viewable:
  assumes "reaches mig_init (mig_step lib srv) s" and "MCreate k i \<in> set (mg_pending s)"
    and "post_migrations StageLocal now be None None (body_of (mig_request (MCreate k i))) dk = (ReplyJson 200 path, dk')"
    and "year_fits (civil_in kst_zone now)"
  shows "path = created_path now i \<and>
    (\<exists>r. serve_file (disk_source rd dk') (mig_request (MFile (created_target now i))) = Some r
      \<and> mg_view_content (file_result (received r) p) = created_text now i)"
proof -
  let ?fn = "create_filename now (sanitize_author (cm_author i)) (cm_name i)"
  have v: "valid_create_input i"
    using create_inv_reachable [OF assms(1)] assms(2) by (auto simp: create_inv_def)
  from post_create_request [OF this, of now be k dk] assms(3)
  have a: "sanitize_author (cm_author i) \<noteq> []" "path = created_path now i"
    "dk' = dk(created_path now i \<mapsto> created_text now i)"
    by (auto split: if_splits)
  have "rx_test filename_rx ?fn"
    using create_filename_valid [OF assms(4) a(1)] v sanitize_author_snake
    by (auto simp: valid_create_input_def)
  moreover have "rx_test version_rx (cm_version i)" "cm_version i \<noteq> []"
    using v by (auto simp: valid_create_input_def version_rx_shape)
  moreover have "''sql/migrations/'' @ file_path (category_name (cm_category i)) (cm_version i) ?fn = created_path now i"
    using \<open>cm_version i \<noteq> []\<close> by (simp add: file_path_def created_path_def)
  ultimately have "serve_file (disk_source rd dk') (mig_request (MFile (created_target now i))) =
      Some (ReplyJson 200 \<lparr>fc_path = file_path (category_name (cm_category i)) (cm_version i) ?fn,
                            fc_content = created_text now i\<rparr>)"
    using category_cases [of "cm_category i"] a(3)
    by (simp only: serve_file_request) (auto simp: created_target_def get_migration_file_def disk_source_def Let_def)
  then show ?thesis using a(2) by (auto simp: file_result_def res_ok_def)
qed

section \<open>Creating and deleting versions\<close>

text \<open>What the server stores for a flag of the form: NaN and the infinities travel as null, which
  leaves the zero value; None is a value that does not fit a byte.\<close>

definition stored_flag :: "jsnum \<Rightarrow> int option" where
  "stored_flag x = (case x of Fin a \<Rightarrow> if 0 \<le> a \<and> a \<le> 255 then Some a else None | _ \<Rightarrow> Some 0)"

definition stored_flags :: "version_create_input \<Rightarrow> (int \<times> int \<times> int) option" where
  "stored_flags i = do {
     a \<leftarrow> stored_flag (vi_is_active i);
     u \<leftarrow> stored_flag (vi_update_flag i);
     c \<leftarrow> stored_flag (vi_inspection_flag i);
     Some (a, u, c) }"

lemma json_num_uint8: "map_of kvs k = Some (json_num x) \<Longrightarrow> get_uint8 k kvs = stored_flag x"
  by (cases x) (auto simp: get_uint8_def get_int_def stored_flag_def)

definition form_model :: "version_create_input \<Rightarrow> int \<times> int \<times> int \<Rightarrow> version_model" where
  "form_model i f = (case f of (a, u, c) \<Rightarrow>
     \<lparr>gv_idx = 0, gv_client_version = vi_client_version i, gv_server_version = vi_server_version i,
      gv_app_id = vi_app_id i, gv_is_active = a, gv_update_flag = u, gv_inspection_flag = c,
      gv_catalog_filename = vi_catalog_filename i, gv_comment = vi_comment i,
      gv_insert_time = 0, gv_update_time = 0\<rparr>)"

lemma bind_version_request:
  "bind_version (body_of (versionApi_create i)) = map_option (form_model i) (stored_flags i)"
proof -
  let ?kvs = "[(''client_version'', JStr (vi_client_version i)), (''server_version'', JStr (vi_server_version i)),
        (''app_id'', JStr (vi_app_id i)), (''is_active'', json_num (vi_is_active i)),
        (''update_flag'', json_num (vi_update_flag i)),
        (''inspection_flag'', json_num (vi_inspection_flag i)),
        (''catalog_filename'', JStr (vi_catalog_filename i)), (''comment'', JStr (vi_comment i))]"
  have "get_uint8 ''is_active'' ?kvs = stored_flag (vi_is_active i)"
    "get_uint8 ''update_flag'' ?kvs = stored_flag (vi_update_flag i)"
    "get_uint8 ''inspection_flag'' ?kvs = stored_flag (vi_inspection_flag i)"
    by (rule json_num_uint8; simp)+
  moreover have "body_of (versionApi_create i) = JObj ?kvs"
    by (simp add: body_of_def versionApi_create_def send_def)
  ultimately show ?thesis
    by (simp add: bind_version_def json_fields_def get_str_def stored_flags_def form_model_def
        Option.bind_map_option map_option_bind comp_def del: map_of.simps cong: bind_option_cong)
qed

lemma form_ok_fields: "form_ok i \<Longrightarrow> vi_client_version i \<noteq> [] \<and> vi_server_version i \<noteq> []"
  using js_trim_nonempty_source by (auto simp: form_ok_def)

lemma post_version_request:
  assumes "form_ok i"
  shows "post_version z now be None (body_of (versionApi_create i)) t =
    (case stored_flags i of
       None \<Rightarrow> (ReplyError 400 be, t)
     | Some f \<Rightarrow> (case version_Create now (form_model i f) t of (m, t') \<Rightarrow> (ReplyJson 200 (version_json z m), t')))"
  using form_ok_fields [OF assms]
  by (auto simp: post_version_def bind_version_request form_model_def split: option.splits prod.splits)

lemma sort_key_max_last:
  assumes "\<forall>x \<in> set xs. f x \<le> f m"
  shows "sort_key f (xs @ [m]) = sort_key f xs @ [m]"
proof -
  have "insort_key f x (ys @ [m]) = insort_key f x ys @ [m]" if "f x \<le> f m" for x ys
    using that by (induction ys) auto
  then show ?thesis using assms by (induction xs) auto
qed

lemma version_FindAll_created:
  assumes "version_inv t" and "version_Create now m0 t = (m, t')"
  shows "version_FindAll t' = m # take 199 (version_FindAll t)"
proof -
  have m: "gv_idx m = vtb_next t" "vtb_rows t' = vtb_rows t @ [m]"
    using assms(2) by (auto simp: version_Create_def Let_def)
  have "sort_key gv_idx (vtb_rows t @ [m]) = sort_key gv_idx (vtb_rows t) @ [m]"
    using assms(1) m(1) by (intro sort_key_max_last) (auto simp: version_inv_def)
  then show ?thesis using m(2) by (simp add: version_FindAll_def take_Cons')
qed


text \<open>C40: the way from the form to the game: a version added with its active flag set, whose server
  version is the newest among the active ones, is served after a successful reload, so the
  dispatcher no longer refuses the client; and when that client version is active under this server
  version only, it gets exactly this server version's catalog.\<close>

theorem added_version_is_served:
  assumes "reaches version_init (version_step lib) s" and "VCreate i \<in> set (vp_pending s)"
    and "vi_is_active i = Fin 1"
    and "post_version z now be None (body_of (versionApi_create i)) t = (ReplyJson 200 row, t')"
    and "\<forall>x \<in> set (vtb_rows t). gv_is_active x = 1 \<longrightarrow> gv_server_version x \<le> vi_server_version i"
    and "post_design_reload (Load n base) (Inr (FindActiveOrderedByServerVersion t')) None st = (r, st')"
    and "reply_status r = 200"
  shows "\<exists>c. GetByClientVersion st' (vi_client_version i) = Some c
    \<and> ((\<forall>x \<in> set (vtb_rows t). gv_is_active x = 1 \<longrightarrow> gv_client_version x \<noteq> vi_client_version i)
        \<longrightarrow> Load n base (vi_server_version i) = Inr c)"
proof -
  obtain f m where f: "stored_flags i = Some f" and m: "version_Create now (form_model i f) t = (m, t')"
    using post_version_request [OF creates_checked [OF assms(1,2)], of z now be t] assms(4)
    by (auto split: option.splits prod.splits)
  obtain u c where "f = (1, u, c)"
    using f assms(3) by (cases f) (auto simp: stored_flags_def stored_flag_def split: bind_splits)
  then have new: "gv_client_version m = vi_client_version i" "gv_server_version m = vi_server_version i"
      "gv_is_active m = 1" "vtb_rows t' = vtb_rows t @ [m]"
    using m by (auto simp: version_Create_def form_model_def Let_def)
  have l: "LoadActive (Load n base) (Inr (FindActiveOrderedByServerVersion t')) st = (None, st')"
    using assms(6,7)
    by (auto simp: post_design_reload_def design_Trigger_def split: prod.splits option.splits)
  obtain sv where sv: "serving (Load n base) (FindActiveOrderedByServerVersion t')
        (take 2 (ordered_sv (FindActiveOrderedByServerVersion t') [])) (vi_client_version i) = Some sv"
      "st' (vi_client_version i) = Some (projr (Load n base sv))"
    using newest_is_served [OF l, of m] new assms(5) by auto
  note d = serving_SomeD [OF sv(1)]
  have "Load n base sv = Inr (projr (Load n base sv))" using d by simp
  moreover have "sv = vi_server_version i"
    if only: "\<forall>x \<in> set (vtb_rows t). gv_is_active x = 1 \<longrightarrow> gv_client_version x \<noteq> vi_client_version i"
    using d only new by (auto simp: cv_by_sv_def FindActive_set)
  ultimately show ?thesis using sv(2) by (auto simp: GetByClientVersion_def)
qed

text \<open>The delete requests of a batch, in the order in which the server handles them.\<close>

fun serve_deletes :: "http_request list \<Rightarrow> version_table \<Rightarrow> (nat \<times> nat) reply option list \<times> version_table" where
  "serve_deletes [] t = ([], t)"
| "serve_deletes (rq # rqs) t =
     (case serve_delete None rq t of
        None \<Rightarrow> (case serve_deletes rqs t of (rs, t') \<Rightarrow> (None # rs, t'))
      | Some (r, t1) \<Rightarrow> (case serve_deletes rqs t1 of (rs, t') \<Rightarrow> (Some r # rs, t')))"

definition row_delete :: "int \<Rightarrow> version_model \<Rightarrow> http_request" where
  "row_delete z m = versionApi_delete (v_idx (version_json z m))"

lemma serve_row_delete:
  assumes "gv_idx m < 2 ^ 53"
  shows "serve_delete None (row_delete z m) t =
    (case version_Delete (gv_idx m) t of (n, t') \<Rightarrow>
       Some (if n = 0 then ReplyError 404 ''not found'' else ReplyJson 200 (gv_idx m, n), t'))"
proof -
  have "\<bar>int (gv_idx m)\<bar> < 2 ^ 53" using assms by (metis abs_of_nat of_nat_less_iff of_nat_numeral of_nat_power)
  then have "v_idx (version_json z m) = Fin (int (gv_idx m))"
    and "num_to_string (Fin (int (gv_idx m))) = dec (gv_idx m)"
    by (simp_all add: version_json_def to_num_exact dec_int_def)
  moreover have "gv_idx m < 2 ^ 64" using assms by (rule order.strict_trans) simp
  then have "parse_uint64 (dec (gv_idx m)) = Some (gv_idx m)" by (rule parse_uint64_dec)
  ultimately show ?thesis
    by (simp add: serve_delete_def url_rest_def row_delete_def versionApi_delete_def send_def BASE_def
        delete_version_def del: num_to_string.simps split: prod.splits)
qed

lemma version_Delete_keys:
  "version_inv t \<Longrightarrow> version_Delete i t =
     (if i \<in> gv_idx ` set (vtb_rows t) then 1 else 0, t\<lparr>vtb_rows := filter (\<lambda>m. gv_idx m \<noteq> i) (vtb_rows t)\<rparr>)"
  by (simp add: version_Delete_def deleted_count version_inv_def)

lemma serve_deletes_present:
  assumes "version_inv t" and "set ms \<subseteq> set (vtb_rows t)" and "distinct ms" and "\<forall>m \<in> set ms. gv_idx m < 2 ^ 53"
  shows "serve_deletes (map (row_delete z) ms) t =
    (map (\<lambda>m. Some (ReplyJson 200 (gv_idx m, 1))) ms, t\<lparr>vtb_rows := filter (\<lambda>m. m \<notin> set ms) (vtb_rows t)\<rparr>)"
  using assms
proof (induction ms arbitrary: t)
  case Nil
  then show ?case by simp
next
  case (Cons m ms)
  have inj: "inj_on gv_idx (set (vtb_rows t))" using Cons.prems(1) by (simp add: version_inv_def distinct_map)
  have m: "m \<in> set (vtb_rows t)" "gv_idx m < 2 ^ 53" using Cons.prems by auto
  have eq: "filter (\<lambda>x. gv_idx x \<noteq> gv_idx m) (vtb_rows t) = filter (\<lambda>x. x \<noteq> m) (vtb_rows t)"
    using inj m(1) by (intro filter_cong) (auto dest: inj_onD)
  let ?t1 = "t\<lparr>vtb_rows := filter (\<lambda>x. x \<noteq> m) (vtb_rows t)\<rparr>"
  have "serve_delete None (row_delete z m) t = Some (ReplyJson 200 (gv_idx m, 1), ?t1)"
    using m by (simp add: serve_row_delete version_Delete_keys [OF Cons.prems(1)] eq)
  moreover have "version_inv ?t1" using Cons.prems(1) by (auto simp: version_inv_def distinct_map_filter)
  then have "serve_deletes (map (row_delete z) ms) ?t1 =
      (map (\<lambda>m. Some (ReplyJson 200 (gv_idx m, 1))) ms, ?t1\<lparr>vtb_rows := filter (\<lambda>m. m \<notin> set ms) (vtb_rows ?t1)\<rparr>)"
    using Cons.prems by (intro Cons.IH) auto
  ultimately show ?case by (simp add: conj_commute)
qed

lemma serve_deletes_absent:
  assumes "version_inv t" and "gv_idx ` set ms \<inter> gv_idx ` set (vtb_rows t) = {}" and "\<forall>m \<in> set ms. gv_idx m < 2 ^ 53"
  shows "serve_deletes (map (row_delete z) ms) t = (map (\<lambda>m. Some (ReplyError 404 ''not found'')) ms, t)"
  using assms(2,3)
proof (induction ms)
  case Nil
  then show ?case by simp
next
  case (Cons m ms)
  then have "gv_idx m \<notin> gv_idx ` set (vtb_rows t)" by auto
  moreover from this have "filter (\<lambda>x. gv_idx x \<noteq> gv_idx m) (vtb_rows t) = vtb_rows t"
    by (intro filter_True) (force simp: image_iff)
  ultimately have "serve_delete None (row_delete z m) t = Some (ReplyError 404 ''not found'', t)"
    using Cons.prems by (simp add: serve_row_delete version_Delete_keys [OF assms(1)])
  with Cons show ?case by auto
qed

text \<open>A batch deletion does what its dialogue says in whatever order the server handles the
  requests: for any arrangement of the selected rows each request is answered 200 with one deleted
  row, exactly those rows are gone, and repeating the batch, as after a partial failure, is answered
  404 throughout and changes nothing.\<close>

theorem batch_delete_any_order:
  assumes "version_inv t" and "set ms \<subseteq> set (vtb_rows t)" and "distinct ms" and "\<forall>m \<in> set ms. gv_idx m < 2 ^ 53"
  shows "\<exists>t'. serve_deletes (map (row_delete z) ms) t = (map (\<lambda>m. Some (ReplyJson 200 (gv_idx m, 1))) ms, t')
    \<and> vtb_rows t' = filter (\<lambda>m. m \<notin> set ms) (vtb_rows t) \<and> version_inv t'
    \<and> serve_deletes (map (row_delete z) ms) t' = (map (\<lambda>m. Some (ReplyError 404 ''not found'')) ms, t')"
proof -
  let ?t' = "t\<lparr>vtb_rows := filter (\<lambda>m. m \<notin> set ms) (vtb_rows t)\<rparr>"
  have inv: "version_inv ?t'" using assms(1) by (auto simp: version_inv_def distinct_map_filter)
  have "gv_idx ` set ms \<inter> gv_idx ` set (vtb_rows ?t') = {}"
    using assms(1,2) by (auto simp: version_inv_def distinct_map dest: inj_onD)
  from serve_deletes_absent [OF inv this assms(4), of z] serve_deletes_present [OF assms, of z] inv
  show ?thesis by (intro exI [of _ ?t']) simp
qed

section \<open>The status tabs\<close>

definition db_category_name :: "int \<Rightarrow> string" where
  "db_category_name sid = (if sid = GameDBShardID then CategoryGame else CategoryShard)"

definition applied_files :: "'d goose_db \<Rightarrow> migration_file list \<Rightarrow> nat" where
  "applied_files db files = length (filter (\<lambda>f. mfile_id f \<in> applied_set db) files)"

lemma db_status_ok:
  assumes "walk_migration_files fs (db_category_name sid) = Inr files"
  shows "db_total (db_status None None fs sid d) = Fin (int (length files))
    \<and> db_pending (db_status None None fs sid d)
      = Fin (int (length (filter (\<lambda>f. mfile_id f \<notin> applied_set (db_handle d)) files)))
    \<and> db_error (db_status None None fs sid d) = None"
proof -
  have "category_name (if sid = GameDBShardID then Game else Shard) = db_category_name sid"
    by (simp add: db_category_name_def CategoryGame_def CategoryShard_def)
  with assms show ?thesis
    by (simp add: db_status_def mig_Status_def Let_def filter_map comp_def)
qed

lemma small_num: "n < 2 ^ 53 \<Longrightarrow> num_to_string (to_num (int n)) = dec n"
  by (simp add: to_num_exact dec_int_def)

lemma tab_texts:
  assumes "walk_migration_files fs (db_category_name sid) = Inr files" and "length files < 2 ^ 53"
  shows "db_summary (db_status None None fs sid d) =
    [dec (applied_files (db_handle d) files) @ ''/'' @ dec (length files) @ '' applied'',
     (if applied_files (db_handle d) files = length files then t_mig_ok
      else ''pending '' @ dec (length files - applied_files (db_handle d) files))]"
proof -
  define a p where "a = applied_files (db_handle d) files"
    and "p = length (filter (\<lambda>f. mfile_id f \<notin> applied_set (db_handle d)) files)"
  have sum: "a + p = length files"
    unfolding a_def p_def applied_files_def by (rule sum_length_filter_compl)
  have diff: "num_sub (Fin (int (length files))) (Fin (int p)) = to_num (int a)"
  proof -
    have "int (length files) - int p = int a" using sum by linarith
    then show ?thesis by (simp add: num_sub_def)
  qed
  have small: "a < 2 ^ 53" "p < 2 ^ 53" using sum assms(2) by linarith+
  have str: "num_to_string (Fin (int k)) = dec k" if "k < 2 ^ 53" for k
    using that by (simp add: dec_int_def)
  show ?thesis
    using db_status_ok [OF assms(1), of d] sum
    by (auto simp: db_summary_def truthy_def diff small_num [OF small(1)] str [OF small(2)] str [OF assms(2)]
        simp del: num_to_string.simps simp flip: a_def p_def)
qed

text \<open>The tab of a database shows the numbers of its migrations: applied over all files, then
  either the all-applied mark, exactly when every file's version is recorded as applied, or the
  number of pending ones.\<close>

theorem status_tab_counts:
  assumes "walk_migration_files fs (db_category_name sid) = Inr files" and "length files < 2 ^ 53"
  shows "db_summary (db_status None None fs sid d) =
    [dec (applied_files (db_handle d) files) @ ''/'' @ dec (length files) @ '' applied'',
     (if applied_files (db_handle d) files = length files then t_mig_ok
      else ''pending '' @ dec (length files - applied_files (db_handle d) files))]
    \<and> (applied_files (db_handle d) files = length files \<longleftrightarrow> mfile_id ` set files \<subseteq> applied_set (db_handle d))"
proof -
  have "applied_files db files = length files \<longleftrightarrow> filter (\<lambda>f. mfile_id f \<in> applied_set db) files = files" for db :: "'a goose_db"
    unfolding applied_files_def using filter_id_conv length_filter_less by (metis less_irrefl)
  then have "applied_files (db_handle d) files = length files \<longleftrightarrow> mfile_id ` set files \<subseteq> applied_set (db_handle d)"
    by (auto simp: filter_id_conv)
  with tab_texts [OF assms, of d] show ?thesis by blast
qed

text \<open>After a successful migration run the database's tab shows every file applied.\<close>

theorem up_completes_tab:
  assumes "goose_ok gl" and "MigrateUp gl fs (db_category_name sid) (db_handle d) = ((n, None), db')"
    and "walk_migration_files fs (db_category_name sid) = Inr files" and "length files < 2 ^ 53"
  shows "db_summary (db_status None None fs sid (d\<lparr>db_handle := db'\<rparr>)) =
    [dec (length files) @ ''/'' @ dec (length files) @ '' applied'', t_mig_ok]"
proof -
  have "filter (\<lambda>f. mfile_id f \<in> applied_set db') files = files"
    using up_applies_all [OF assms(1-3)] by (auto simp: filter_empty_conv filter_id_conv)
  then show ?thesis using tab_texts [OF assms(3,4), of "d\<lparr>db_handle := db'\<rparr>"] by (simp add: applied_files_def)
qed

section \<open>Concrete runs\<close>

lemma file_endpoint_confined_witness:
  "get_migration_file demo_source ''game'' [] ''20260101000000_init_schema.sql''
     = ReplyError 404 (''file not found: '' @ ''game/20260101000000_init_schema.sql'')"
proof -
  have rx: "rx_test filename_rx ''20260101000000_init_schema.sql''" by code_simp
  define r where "r = get_migration_file demo_source ''game'' [] ''20260101000000_init_schema.sql''"
  have e: "r = ReplyError 404 (''file not found: '' @ ''game/20260101000000_init_schema.sql'')"
    using rx by (simp add: r_def get_migration_file_def file_path_def demo_source_def Let_def)
  from file_endpoint_confined [OF r_def [symmetric]] e show ?thesis by (auto simp: r_def)
qed

lemma demo_sanitized: "sanitize_author ''q'' = ''q''"
  by code_simp

lemma demo_input_reachable:
  "reaches mig_init (mig_step list_lib (honest (\<lambda>_. []))) demo_sent" "MCreate 0 demo_input \<in> set (mg_pending demo_sent)"
  by (rule demo_sent_reachable) (simp add: demo_sent_def)

lemma demo_input_created:
  "post_migrations StageLocal demo_now [] None None (body_of (mig_request (MCreate 0 demo_input))) Map.empty
     = (ReplyJson 200 (created_path demo_now demo_input),
        [created_path demo_now demo_input \<mapsto> created_text demo_now demo_input])"
proof -
  have "valid_create_input demo_input"
    using create_inv_reachable [OF demo_input_reachable(1)] demo_input_reachable(2) by (auto simp: create_inv_def)
  moreover have "sanitize_author (cm_author demo_input) \<noteq> []" using demo_sanitized by (simp add: demo_input_def)
  ultimately show ?thesis by (simp add: post_create_request del: mig_request.simps)
qed

lemma create_answers_witness: "sanitize_author (cm_author demo_input) \<noteq> []"
  using create_answers [OF demo_input_reachable demo_input_created, of None] by simp

lemma created_file_is_viewable_witness:
  "\<exists>r. serve_file (disk_source (\<lambda>_. Inr []) [created_path demo_now demo_input \<mapsto> created_text demo_now demo_input])
      (mig_request (MFile (created_target demo_now demo_input))) = Some r
    \<and> mg_view_content (file_result (received r) demo_sent) = created_text demo_now demo_input"
  using created_file_is_viewable [OF demo_input_reachable demo_input_created demo_year_fits] by blast

definition demo_version_input :: version_create_input where
  "demo_version_input = EMPTY_INPUT\<lparr>vi_client_version := ''1.2.0'', vi_server_version := ''2.02.01.00''\<rparr>"

definition demo_creating :: version_page where
  "demo_creating = demo_listed\<lparr>vp_input := demo_version_input, vp_busy := True,
     vp_pending := [VCreate demo_version_input]\<rparr>"

lemma js_trim_version: "js_trim ''1.2.0'' = ''1.2.0''" "js_trim ''2.02.01.00'' = ''2.02.01.00''"
  by (rule js_trim_visible; simp add: visible_def)+

lemma demo_creating_reachable: "reaches version_init (version_step lib) demo_creating"
proof -
  define a1 where "a1 = version_handle (\<lambda>_. True) (UpdStr FClient ''1.2.0'') demo_listed"
  define a2 where "a2 = version_handle (\<lambda>_. True) (UpdStr FServer ''2.02.01.00'') a1"
  have "version_step lib demo_listed a1" unfolding a1_def
    by (rule version_input) (simp add: version_view_def field_def Let_def)
  then have r1: "reaches version_init (version_step lib) a1"
    using reaches_step [OF demo_listed_reachable] by metis
  have "version_step lib a1 a2" unfolding a2_def
    by (rule version_input) (simp add: version_view_def field_def Let_def)
  with r1 have r2: "reaches version_init (version_step lib) a2" by (rule reaches_step)
  have "version_step lib a2 (version_handle (\<lambda>_. True) CreateSubmit a2)"
    by (rule version_click) (simp add: version_view_def a2_def a1_def demo_listed_def Let_def)
  moreover have "version_handle (\<lambda>_. True) CreateSubmit a2 = demo_creating"
    using js_trim_version
    by (simp add: on_create_def v_pend_def a2_def a1_def demo_listed_def demo_creating_def demo_version_input_def)
  ultimately show ?thesis using reaches_step [OF r2] by metis
qed

definition demo_table :: version_table where
  "demo_table = \<lparr>vtb_rows = [], vtb_next = 7\<rparr>"


lemma added_version_is_served_witness:
  "\<exists>row t' st'. post_version 0 0 [] None (body_of (versionApi_create demo_version_input)) demo_table = (ReplyJson 200 row, t')
    \<and> post_design_reload (Load demo_cdn []) (Inr (FindActiveOrderedByServerVersion t')) None Map.empty
       = (ReplyText 200 ''OK: reloaded from TB_VERSION'', st')
    \<and> GetByClientVersion st' ''1.2.0'' = Some (NewCatalog ''2.02.01.00'')"
proof -
  define m where "m = (form_model demo_version_input (1, 0, 0))\<lparr>gv_insert_time := 0, gv_update_time := 0, gv_idx := 7\<rparr>"
  define t' where "t' = \<lparr>vtb_rows = [m], vtb_next = 8\<rparr>"
  have f: "stored_flags demo_version_input = Some (1, 0, 0)"
    by (simp add: stored_flags_def stored_flag_def demo_version_input_def EMPTY_INPUT_def)
  have v: "VCreate demo_version_input \<in> set (vp_pending demo_creating)" by (simp add: demo_creating_def)
  have p: "post_version 0 0 [] None (body_of (versionApi_create demo_version_input)) demo_table = (ReplyJson 200 (version_json 0 m), t')"
    using post_version_request [OF creates_checked [OF demo_creating_reachable v], of 0 0 "[]" demo_table]
    by (simp add: f version_Create_def demo_table_def m_def t'_def Let_def)
  have rows: "FindActiveOrderedByServerVersion t' = [m]"
    by (simp add: FindActiveOrderedByServerVersion_def t'_def m_def form_model_def)
  obtain st' where l: "post_design_reload (Load demo_cdn []) (Inr (FindActiveOrderedByServerVersion t')) None Map.empty
       = (ReplyText 200 ''OK: reloaded from TB_VERSION'', st')"
    by (simp add: rows post_design_reload_def design_Trigger_def LoadActive_def demo_load MaxActiveVersions_def Let_def)
  have "vi_is_active demo_version_input = Fin 1" by (simp add: demo_version_input_def EMPTY_INPUT_def)
  from added_version_is_served [OF demo_creating_reachable v this p _ l]
  have "GetByClientVersion st' ''1.2.0'' = Some (NewCatalog ''2.02.01.00'')"
    by (auto simp: demo_table_def demo_load demo_version_input_def)
  with p l show ?thesis by blast
qed

definition demo_models :: "version_model list" where
  "demo_models = [(form_model demo_version_input (1, 0, 0))\<lparr>gv_idx := 3\<rparr>,
     (form_model demo_version_input (1, 0, 0))\<lparr>gv_idx := 5\<rparr>]"

lemma batch_delete_any_order_witness:
  "\<exists>t'. serve_deletes (map (row_delete 0) (rev demo_models)) \<lparr>vtb_rows = demo_models, vtb_next = 6\<rparr>
     = ([Some (ReplyJson 200 (5, 1)), Some (ReplyJson 200 (3, 1))], t') \<and> vtb_rows t' = []"
proof -
  have ms: "demo_models = [m3, m5] \<Longrightarrow> gv_idx m3 = 3 \<Longrightarrow> gv_idx m5 = 5 \<Longrightarrow> ?thesis" for m3 m5
  proof -
    assume m: "demo_models = [m3, m5]" "gv_idx m3 = 3" "gv_idx m5 = 5"
    then have "m3 \<noteq> m5" by auto
    then obtain t' where "serve_deletes (map (row_delete 0) [m5, m3]) \<lparr>vtb_rows = [m3, m5], vtb_next = 6\<rparr>
        = (map (\<lambda>m. Some (ReplyJson 200 (gv_idx m, 1))) [m5, m3], t')" "vtb_rows t' = []"
      using batch_delete_any_order [of "\<lparr>vtb_rows = [m3, m5], vtb_next = 6\<rparr>" "[m5, m3]" 0] m(2,3)
      by (auto simp: version_inv_def simp del: serve_deletes.simps)
    then show ?thesis unfolding m(1) using m(2,3)
      by (intro exI [of _ t']) (simp del: serve_deletes.simps)
  qed
  show ?thesis by (rule ms [OF demo_models_def]) simp_all
qed

lemma demo_files_few: "length demo_walk < 2 ^ 53"
  by (simp add: demo_walk_def)

lemma demo_game_walk: "walk_migration_files demo_source (db_category_name GameDBShardID) = Inr demo_walk"
  using demo_walked by (simp add: db_category_name_def CategoryGame_def)

definition demo_game :: "unit goose_db database" where
  "demo_game = \<lparr>db_dbName = ''N_GAME'', db_handle = empty_db\<rparr>"

lemma status_tab_counts_witness:
  "db_summary (db_status None None demo_source GameDBShardID demo_game) = [''0/3 applied'', ''pending 3'']"
proof -
  have "applied_files (db_handle demo_game) demo_walk = 0"
    by (simp add: applied_files_def applied_set_def demo_game_def empty_db_def)
  moreover have "length demo_walk = 3" by (simp add: demo_walk_def)
  moreover have "dec 0 = ''0''" "dec 3 = ''3''" by (simp_all add: dec_eval)
  ultimately show ?thesis
    using status_tab_counts [OF demo_game_walk demo_files_few, of demo_game] by simp
qed

lemma up_completes_tab_witness:
  "\<exists>db'. db_summary (db_status None None demo_source GameDBShardID (demo_game\<lparr>db_handle := db'\<rparr>)) = [''3/3 applied'', t_mig_ok]"
proof -
  obtain n db' where u: "MigrateUp demo_goose demo_source (db_category_name GameDBShardID) (db_handle demo_game) = ((n, None), db')"
    using demo_up by (auto simp: db_category_name_def CategoryGame_def demo_game_def)
  moreover have "length demo_walk = 3" by (simp add: demo_walk_def)
  moreover have "dec 3 = ''3''" by (simp add: dec_eval)
  ultimately show ?thesis
    using up_completes_tab [OF demo_goose_ok u demo_game_walk demo_files_few] by auto
qed

end
