(* ===== verification/GameModel.thy ===== *)
theory GameModel
  imports GoRuntime Database Design "HOL-Library.State_Monad"
begin

text \<open>
  The data of the game API: the models of \<^verbatim>\<open>internal/model\<close>, the entity kinds of
  \<^verbatim>\<open>internal/uow/entity_kind.go\<close>, the databases and the Redis cache as a request sees them, and
  the request's own memory.  Code that talks to a database, to Redis or to the clock takes an
  environment that says what each such call meets: an error, or its documented effect.
\<close>

section \<open>Models\<close>

type_synonym uint64 = "64 word"
type_synonym uint32 = "32 word"
type_synonym uint16 = "16 word"
type_synonym uint8 = "8 word"

text \<open>Times are nanoseconds since the epoch; \<^verbatim>\<open>int8\<close> shard numbers are integers.\<close>

record account =
  ac_user_id :: uint64
  ac_channel_uid :: uint64
  ac_device_id :: string
  ac_is_active :: uint8
  ac_db_shard_id :: int
  ac_insert_time :: int
  ac_update_time :: int

record asset =
  as_idx :: uint64
  as_user_id :: uint64
  as_asset_id :: uint32
  as_quantity :: int64
  as_last_recharge_time :: int64
  as_insert_time :: int
  as_update_time :: int

record item =
  it_idx :: uint64
  it_user_id :: uint64
  it_item_type :: uint16
  it_item_id :: uint32
  it_amount :: uint64
  it_insert_time :: int
  it_update_time :: int

record skill_data =
  sk_exp :: uint32
  sk_slot :: uint32
  sk_level :: uint32
  sk_skill_id :: uint32

record card =
  cr_idx :: uint64
  cr_user_id :: uint64
  cr_card_id :: uint32
  cr_two_way_idx :: uint64
  cr_level_break_step :: uint16
  cr_level_break_cur_material :: uint16
  cr_limit_break_level :: uint16
  cr_limit_break_exp :: uint32
  cr_level :: uint16
  cr_exp :: uint32
  cr_exp_exceed :: uint32
  cr_theme_id :: uint16
  cr_extra_theme_id :: uint16
  cr_is_lock :: uint8
  cr_skill :: "skill_data option list"
  cr_potential_list :: "(uint32 \<times> uint32) list"
  cr_enhance_card_idx :: uint64
  cr_insert_time :: int
  cr_update_time :: int

text \<open>A value of one of the model types, what Go keeps in an \<^verbatim>\<open>any\<close>.\<close>

datatype gmodel = MAccount account | MAsset asset | MCard card | MItem item

fun TableName :: "gmodel \<Rightarrow> string" where
  "TableName (MAccount _) = ''TB_ACCOUNT''"
| "TableName (MAsset _) = ''TB_ASSET''"
| "TableName (MCard _) = ''TB_CARD''"
| "TableName (MItem _) = ''TB_ITEM''"

fun primary_key :: "gmodel \<Rightarrow> uint64" where
  "primary_key (MAccount a) = ac_user_id a"
| "primary_key (MAsset a) = as_idx a"
| "primary_key (MCard c) = cr_idx c"
| "primary_key (MItem i) = it_idx i"

fun SetPrimaryKey :: "int64 \<Rightarrow> gmodel \<Rightarrow> gmodel" where
  "SetPrimaryKey k (MAccount a) = MAccount (a\<lparr>ac_user_id := k\<rparr>)"
| "SetPrimaryKey k (MAsset a) = MAsset (a\<lparr>as_idx := k\<rparr>)"
| "SetPrimaryKey k (MCard c) = MCard (c\<lparr>cr_idx := k\<rparr>)"
| "SetPrimaryKey k (MItem i) = MItem (i\<lparr>it_idx := k\<rparr>)"

fun IsSingleton :: "gmodel \<Rightarrow> bool" where
  "IsSingleton (MAccount _) = True"
| "IsSingleton (MAsset _) = False"
| "IsSingleton (MCard _) = False"
| "IsSingleton (MItem _) = False"

text \<open>The column \<^verbatim>\<open>user_id\<close> of a row.\<close>

fun user_column :: "gmodel \<Rightarrow> uint64" where
  "user_column (MAccount a) = ac_user_id a"
| "user_column (MAsset a) = as_user_id a"
| "user_column (MCard c) = cr_user_id c"
| "user_column (MItem i) = it_user_id i"

text \<open>A \<^verbatim>\<open>TIMESTAMP\<close> column keeps whole seconds, rounded.\<close>

definition timestamp_column :: "int \<Rightarrow> int" where
  "timestamp_column t = (t + 500000000) div 1000000000 * 1000000000"

fun map_times :: "(int \<Rightarrow> int) \<Rightarrow> gmodel \<Rightarrow> gmodel" where
  "map_times f (MAccount a) = MAccount (a\<lparr>ac_insert_time := f (ac_insert_time a), ac_update_time := f (ac_update_time a)\<rparr>)"
| "map_times f (MAsset a) = MAsset (a\<lparr>as_insert_time := f (as_insert_time a), as_update_time := f (as_update_time a)\<rparr>)"
| "map_times f (MCard c) = MCard (c\<lparr>cr_insert_time := f (cr_insert_time c), cr_update_time := f (cr_update_time c)\<rparr>)"
| "map_times f (MItem i) = MItem (i\<lparr>it_insert_time := f (it_insert_time i), it_update_time := f (it_update_time i)\<rparr>)"

section \<open>Entity kinds\<close>

text \<open>All kinds with a model belong to the user scope; the club scope has no model type and no
  handler sets a club, so it is left out here and in the unit of work.\<close>

record entity_kind =
  ek_name :: string
  ek_is_game :: bool

definition EntityAccount :: entity_kind where
  "EntityAccount = \<lparr>ek_name = ''account.v1'', ek_is_game = True\<rparr>"

definition EntityAssets :: entity_kind where
  "EntityAssets = \<lparr>ek_name = ''assets.v1'', ek_is_game = False\<rparr>"

definition EntityCards :: entity_kind where
  "EntityCards = \<lparr>ek_name = ''cards.v1'', ek_is_game = False\<rparr>"

definition EntityItems :: entity_kind where
  "EntityItems = \<lparr>ek_name = ''items.v1'', ek_is_game = False\<rparr>"

text \<open>The kinds with their tables.\<close>

definition entity_tables :: "(entity_kind \<times> string) list" where
  "entity_tables = [(EntityAccount, ''TB_ACCOUNT''), (EntityAssets, ''TB_ASSET''),
     (EntityCards, ''TB_CARD''), (EntityItems, ''TB_ITEM'')]"

section \<open>The world\<close>

text \<open>A table of a database: its rows in the order of their keys and the next automatic key.\<close>

record gtable =
  gt_rows :: "gmodel list"
  gt_next :: nat

text \<open>A cached value: the JSON of one model or of a list, as the value it decodes to.\<close>

datatype cached = COne gmodel | CMany "gmodel list"

text \<open>Databases are known by their shard number.  \<open>w_tick\<close> counts the calls to the outside; \<open>w_lock\<close>
  holds the token of the lock of each user.\<close>

record world =
  w_db :: "int \<Rightarrow> string \<Rightarrow> gtable"
  w_cache :: "uint64 \<Rightarrow> string \<rightharpoonup> cached"
  w_session :: "uint64 \<rightharpoonup> string"
  w_lock :: "uint64 \<rightharpoonup> string"
  w_tick :: nat

text \<open>
  The environment, by the number of the call: the error it meets (a database or Redis that cannot
  be reached, a value a column refuses, a canceled request), whether a failing commit took effect
  all the same, the logical time, the random number, the token, whether the holder of a lock has
  given it up, and the error of deleting a cache key.
\<close>

record env =
  en_fault :: "nat \<Rightarrow> string option"
  en_applied :: "nat \<Rightarrow> bool"
  en_now :: "nat \<Rightarrow> int"
  en_rand :: "nat \<Rightarrow> nat"
  en_token :: "nat \<Rightarrow> string"
  en_freed :: "nat \<Rightarrow> bool"
  en_delete_fault :: "nat \<Rightarrow> string option"
  en_shards :: "unit registry"

text \<open>Go's errors; a panic passes through every caller.\<close>

datatype go_error = Coded int string | Other string | NoRows | Panic

section \<open>The request\<close>

datatype op = CreateOp nat | UpdateOp nat

text \<open>What the store holds of an entity: a pointer or a slice of pointers.\<close>

datatype stored = One nat | Many "nat list"

text \<open>The unit of work with the objects it has allocated; a pointer is a position in \<open>u_heap\<close>.  Queued
  writes name their database, None for a nil one.\<close>

record 'b uow =
  u_user_id :: uint64
  u_catalog :: "'b catalog"
  u_store :: "(string \<times> stored) list"
  u_ops :: "(int option \<times> op) list"
  u_dirty :: "nat list"
  u_heap :: "gmodel list"

type_synonym ('b, 'a) game = "(world \<times> 'b uow, 'a) state"

definition gets :: "(world \<Rightarrow> 'b uow \<Rightarrow> 'a) \<Rightarrow> ('b, 'a) game" where
  "gets f = State (\<lambda>(w, u). (f w u, (w, u)))"

definition modify_world :: "(world \<Rightarrow> world) \<Rightarrow> ('b, unit) game" where
  "modify_world f = State (\<lambda>(w, u). ((), (f w, u)))"

definition modify_uow :: "('b uow \<Rightarrow> 'b uow) \<Rightarrow> ('b, unit) game" where
  "modify_uow f = State (\<lambda>(w, u). ((), (w, f u)))"

text \<open>One call to the outside: its number.\<close>

definition outside :: "('b, nat) game" where
  "outside = State (\<lambda>(w, u). (w_tick w, (w\<lparr>w_tick := Suc (w_tick w)\<rparr>, u)))"

definition clock_now :: "env \<Rightarrow> ('b, int) game" where
  "clock_now e = do { k \<leftarrow> outside; State_Monad.return (en_now e k) }"

text \<open>\<^verbatim>\<open>&model.T{...}\<close>: allocate an object.\<close>

definition new_object :: "gmodel \<Rightarrow> ('b, nat) game" where
  "new_object m = State (\<lambda>(w, u). (length (u_heap u), (w, u\<lparr>u_heap := u_heap u @ [m]\<rparr>)))"

definition set_object :: "nat \<Rightarrow> gmodel \<Rightarrow> ('b, unit) game" where
  "set_object a m = modify_uow (\<lambda>u. u\<lparr>u_heap := (u_heap u)[a := m]\<rparr>)"

lemma run_primitives [simp]:
  "run_state (gets f) (w, u) = (f w u, (w, u))"
  "run_state (modify_world g) (w, u) = ((), (g w, u))"
  "run_state (modify_uow h) (w, u) = ((), (w, h u))"
  "run_state outside (w, u) = (w_tick w, (w\<lparr>w_tick := Suc (w_tick w)\<rparr>, u))"
  "run_state (clock_now e) (w, u) = (en_now e (w_tick w), (w\<lparr>w_tick := Suc (w_tick w)\<rparr>, u))"
  "run_state (new_object m) (w, u) = (length (u_heap u), (w, u\<lparr>u_heap := u_heap u @ [m]\<rparr>))"
  "run_state (set_object a m) (w, u) = ((), (w, u\<lparr>u_heap := (u_heap u)[a := m]\<rparr>))"
  by (simp_all add: gets_def modify_world_def modify_uow_def outside_def clock_now_def new_object_def set_object_def)

section \<open>Databases\<close>

definition put_rows :: "int \<Rightarrow> string \<Rightarrow> gtable \<Rightarrow> world \<Rightarrow> world" where
  "put_rows d t tab w = w\<lparr>w_db := (w_db w)(d := (w_db w d)(t := tab))\<rparr>"

text \<open>\<^verbatim>\<open>INSERT\<close> with an automatic key.\<close>

definition insert_row :: "gmodel \<Rightarrow> gtable \<Rightarrow> (nat \<times> gtable) option" where
  "insert_row m tab =
     (if 2 ^ 64 \<le> int (gt_next tab) then None
      else Some (gt_next tab,
        \<lparr>gt_rows = gt_rows tab @ [map_times timestamp_column (SetPrimaryKey (of_nat (gt_next tab)) m)],
         gt_next = Suc (gt_next tab)\<rparr>))"

text \<open>\<^verbatim>\<open>UPDATE\<close> of all columns by key.\<close>

definition update_row :: "gmodel \<Rightarrow> gtable \<Rightarrow> gtable" where
  "update_row m tab =
     tab\<lparr>gt_rows := map (\<lambda>r. if primary_key r = primary_key m then map_times timestamp_column m else r) (gt_rows tab)\<rparr>"

text \<open>\<^verbatim>\<open>Create\<close> and \<^verbatim>\<open>CreateTx\<close>: the insert with its new key.  \<^verbatim>\<open>SaveTx\<close>
  without columns; all callers pass none.\<close>

definition db_create :: "env \<Rightarrow> int \<Rightarrow> gmodel \<Rightarrow> ('b, go_error + int64) game" where
  "db_create e d m = do {
     k \<leftarrow> outside;
     case en_fault e k of
       Some x \<Rightarrow> State_Monad.return (Inl (Other x))
     | None \<Rightarrow> do {
         tab \<leftarrow> gets (\<lambda>w u. w_db w d (TableName m));
         case insert_row m tab of
           None \<Rightarrow> State_Monad.return (Inl (Other ''automatic keys exhausted''))
         | Some (i, tab') \<Rightarrow> do {
             modify_world (put_rows d (TableName m) tab');
             State_Monad.return (Inr (of_nat i)) } } }"

definition SaveTx :: "env \<Rightarrow> int \<Rightarrow> gmodel \<Rightarrow> ('b, go_error + unit) game" where
  "SaveTx e d m = do {
     k \<leftarrow> outside;
     case en_fault e k of
       Some x \<Rightarrow> State_Monad.return (Inl (Other x))
     | None \<Rightarrow> do {
         modify_world (\<lambda>w. put_rows d (TableName m) (update_row m (w_db w d (TableName m))) w);
         State_Monad.return (Inr ()) } }"

text \<open>\<^verbatim>\<open>FindOne\<close> and \<^verbatim>\<open>FindList\<close> with \<^verbatim>\<open>user_id = ?\<close> on a database that may be nil.\<close>

definition FindOne :: "env \<Rightarrow> int option \<Rightarrow> string \<Rightarrow> uint64 \<Rightarrow> ('b, go_error + gmodel) game" where
  "FindOne e db t uid =
     (case db of
        None \<Rightarrow> State_Monad.return (Inl Panic)
      | Some d \<Rightarrow> do {
          k \<leftarrow> outside;
          rows \<leftarrow> gets (\<lambda>w u. gt_rows (w_db w d t));
          State_Monad.return
            (case en_fault e k of
               Some x \<Rightarrow> Inl (Other x)
             | None \<Rightarrow> (case find (\<lambda>r. user_column r = uid) rows of
                 None \<Rightarrow> Inl NoRows
               | Some r \<Rightarrow> Inr r)) })"

definition FindList :: "env \<Rightarrow> int option \<Rightarrow> string \<Rightarrow> uint64 \<Rightarrow> ('b, go_error + gmodel list) game" where
  "FindList e db t uid =
     (case db of
        None \<Rightarrow> State_Monad.return (Inl Panic)
      | Some d \<Rightarrow> do {
          k \<leftarrow> outside;
          rows \<leftarrow> gets (\<lambda>w u. gt_rows (w_db w d t));
          State_Monad.return
            (case en_fault e k of
               Some x \<Rightarrow> Inl (Other x)
             | None \<Rightarrow> Inr (filter (\<lambda>r. user_column r = uid) rows)) })"

section \<open>The user cache\<close>

text \<open>\<^verbatim>\<open>Get\<close>: any error and any value of another shape is a miss to its callers.\<close>

definition cache_get :: "env \<Rightarrow> uint64 \<Rightarrow> string \<Rightarrow> ('b, cached option) game" where
  "cache_get e uid field = do {
     k \<leftarrow> outside;
     v \<leftarrow> gets (\<lambda>w u. w_cache w uid field);
     State_Monad.return (if en_fault e k = None then v else None) }"

definition put_fields :: "uint64 \<Rightarrow> (string \<times> cached) list \<Rightarrow> world \<Rightarrow> world" where
  "put_fields uid fs w = w\<lparr>w_cache := (w_cache w)(uid := w_cache w uid ++ map_of fs)\<rparr>"

text \<open>\<^verbatim>\<open>Set\<close> and \<^verbatim>\<open>SetMulti\<close> run as one script.\<close>

definition cache_set :: "env \<Rightarrow> uint64 \<Rightarrow> (string \<times> cached) list \<Rightarrow> ('b, string option) game" where
  "cache_set e uid fs = do {
     k \<leftarrow> outside;
     case en_fault e k of
       Some x \<Rightarrow> State_Monad.return (Some x)
     | None \<Rightarrow> do { modify_world (put_fields uid fs); State_Monad.return None } }"

definition cache_delete_all :: "env \<Rightarrow> uint64 \<Rightarrow> ('b, string option) game" where
  "cache_delete_all e uid = do {
     k \<leftarrow> outside;
     case en_delete_fault e k of
       Some x \<Rightarrow> State_Monad.return (Some x)
     | None \<Rightarrow> do { modify_world (\<lambda>w. w\<lparr>w_cache := (w_cache w)(uid := Map.empty)\<rparr>); State_Monad.return None } }"

end
