(* ===== verification/Uow.thy ===== *)
theory Uow
  imports GameModel
begin

text \<open>
  The unit of work of a request, \<^verbatim>\<open>internal/uow\<close>: lazy loading through the store, the cache and
  the database, queued writes, the commit, and \<^verbatim>\<open>CommitOrRollback\<close> of
  \<^verbatim>\<open>internal/handler/uow_helper.go\<close>.  The generic functions take the table of their type
  parameter.
\<close>

section \<open>Loading\<close>

definition New :: "uint64 \<Rightarrow> 'b catalog \<Rightarrow> 'b uow" where
  "New uid c = \<lparr>u_user_id = uid, u_catalog = c, u_store = [], u_ops = [], u_dirty = [], u_heap = []\<rparr>"

definition SetUserID :: "uint64 \<Rightarrow> ('b, unit) game" where
  "SetUserID uid = modify_uow (\<lambda>u. u\<lparr>u_user_id := uid\<rparr>)"

definition put_store :: "entity_kind \<Rightarrow> stored \<Rightarrow> ('b, unit) game" where
  "put_store k v = modify_uow (\<lambda>u. u\<lparr>u_store := AList.update (ek_name k) v (u_store u)\<rparr>)"

fun new_objects :: "gmodel list \<Rightarrow> ('b, nat list) game" where
  "new_objects [] = State_Monad.return []"
| "new_objects (m # ms) = do { a \<leftarrow> new_object m; as \<leftarrow> new_objects ms; State_Monad.return (a # as) }"

definition no_user_id :: go_error where
  "no_user_id = Other ''uow: userID is not set''"

text \<open>
  \<^verbatim>\<open>LoadOne\<close> for a database found by \<open>shard_db\<close> when the kind is not in the game database.  Loading the
  account, which is there, needs none, so the recursion through \<open>ShardDB\<close> ends after one step.  A
  stored value of another shape fails the type assertion.
\<close>

definition LoadOne_from :: "('b, int option) game \<Rightarrow> env \<Rightarrow> entity_kind \<Rightarrow> string \<Rightarrow> ('b, go_error + nat) game" where
  "LoadOne_from shard_db e k t = do {
     st \<leftarrow> gets (\<lambda>w u. map_of (u_store u) (ek_name k));
     case st of
       Some (One a) \<Rightarrow> State_Monad.return (Inr a)
     | Some (Many _) \<Rightarrow> State_Monad.return (Inl Panic)
     | None \<Rightarrow> do {
         uid \<leftarrow> gets (\<lambda>w u. u_user_id u);
         if uid = 0 then State_Monad.return (Inl no_user_id)
         else do {
           c \<leftarrow> cache_get e uid (ek_name k);
           case c of
             Some (COne m) \<Rightarrow> do { a \<leftarrow> new_object m; put_store k (One a); State_Monad.return (Inr a) }
           | _ \<Rightarrow> do {
               db \<leftarrow> (if ek_is_game k then State_Monad.return (Some GameDBShardID) else shard_db);
               r \<leftarrow> FindOne e db t uid;
               case r of
                 Inl x \<Rightarrow> State_Monad.return (Inl x)
               | Inr m \<Rightarrow> do {
                   a \<leftarrow> new_object m;
                   put_store k (One a);
                   _ \<leftarrow> cache_set e uid [(ek_name k, COne m)];
                   State_Monad.return (Inr a) } } } } }"

definition Account :: "env \<Rightarrow> ('b, go_error + nat) game" where
  "Account e = LoadOne_from (State_Monad.return None) e EntityAccount ''TB_ACCOUNT''"

definition shard_of :: "env \<Rightarrow> gmodel \<Rightarrow> int option" where
  "shard_of e m =
     (case m of
        MAccount a \<Rightarrow> if GetShard (ac_db_shard_id a) (en_shards e) = None then None else Some (ac_db_shard_id a)
      | _ \<Rightarrow> None)"

definition ShardDB :: "env \<Rightarrow> ('b, int option) game" where
  "ShardDB e = do {
     r \<leftarrow> Account e;
     case r of
       Inl _ \<Rightarrow> State_Monad.return None
     | Inr a \<Rightarrow> gets (\<lambda>w u. shard_of e (u_heap u ! a)) }"

definition entity_db :: "env \<Rightarrow> entity_kind \<Rightarrow> ('b, int option) game" where
  "entity_db e k = (if ek_is_game k then State_Monad.return (Some GameDBShardID) else ShardDB e)"

definition LoadList :: "env \<Rightarrow> entity_kind \<Rightarrow> string \<Rightarrow> ('b, go_error + nat list) game" where
  "LoadList e k t = do {
     st \<leftarrow> gets (\<lambda>w u. map_of (u_store u) (ek_name k));
     case st of
       Some (Many as) \<Rightarrow> State_Monad.return (Inr as)
     | Some (One _) \<Rightarrow> State_Monad.return (Inl Panic)
     | None \<Rightarrow> do {
         uid \<leftarrow> gets (\<lambda>w u. u_user_id u);
         if uid = 0 then State_Monad.return (Inl no_user_id)
         else do {
           c \<leftarrow> cache_get e uid (ek_name k);
           case c of
             Some (CMany ms) \<Rightarrow> do { as \<leftarrow> new_objects ms; put_store k (Many as); State_Monad.return (Inr as) }
           | _ \<Rightarrow> do {
               db \<leftarrow> entity_db e k;
               r \<leftarrow> FindList e db t uid;
               case r of
                 Inl x \<Rightarrow> State_Monad.return (Inl x)
               | Inr ms \<Rightarrow> do {
                   as \<leftarrow> new_objects ms;
                   put_store k (Many as);
                   _ \<leftarrow> cache_set e uid [(ek_name k, CMany ms)];
                   State_Monad.return (Inr as) } } } } }"

definition Assets :: "env \<Rightarrow> ('b, go_error + nat list) game" where
  "Assets e = LoadList e EntityAssets ''TB_ASSET''"

definition Cards :: "env \<Rightarrow> ('b, go_error + nat list) game" where
  "Cards e = LoadList e EntityCards ''TB_CARD''"

definition Items :: "env \<Rightarrow> ('b, go_error + nat list) game" where
  "Items e = LoadList e EntityItems ''TB_ITEM''"

section \<open>Writing\<close>

text \<open>The setups register assets and items; accounts and cards are not tracked.\<close>

fun entityNameOf :: "gmodel \<Rightarrow> string option" where
  "entityNameOf (MAsset _) = Some (ek_name EntityAssets)"
| "entityNameOf (MItem _) = Some (ek_name EntityItems)"
| "entityNameOf (MAccount _) = None"
| "entityNameOf (MCard _) = None"

definition markDirty :: "nat \<Rightarrow> ('b, unit) game" where
  "markDirty a = modify_uow (\<lambda>u.
     if entityNameOf (u_heap u ! a) = None \<or> a \<in> set (u_dirty u) then u
     else u\<lparr>u_dirty := u_dirty u @ [a]\<rparr>)"

definition storeModel :: "entity_kind \<Rightarrow> nat \<Rightarrow> ('b, unit) game" where
  "storeModel k a = modify_uow (\<lambda>u.
     if IsSingleton (u_heap u ! a) then u\<lparr>u_store := AList.update (ek_name k) (One a) (u_store u)\<rparr>
     else case map_of (u_store u) (ek_name k) of
       Some (Many as) \<Rightarrow> u\<lparr>u_store := AList.update (ek_name k) (Many (as @ [a])) (u_store u)\<rparr>
     | _ \<Rightarrow> u\<lparr>u_store := AList.update (ek_name k) (Many [a]) (u_store u)\<rparr>)"

definition queueOp :: "int option \<Rightarrow> op \<Rightarrow> ('b, unit) game" where
  "queueOp db o' = modify_uow (\<lambda>u. u\<lparr>u_ops := u_ops u @ [(db, o')]\<rparr>)"

definition Create :: "env \<Rightarrow> entity_kind \<Rightarrow> nat \<Rightarrow> ('b, unit) game" where
  "Create e k a = do {
     storeModel k a;
     markDirty a;
     db \<leftarrow> entity_db e k;
     queueOp db (CreateOp a) }"

definition CreateNow :: "env \<Rightarrow> entity_kind \<Rightarrow> nat \<Rightarrow> ('b, go_error + unit) game" where
  "CreateNow e k a = do {
     db \<leftarrow> entity_db e k;
     m \<leftarrow> gets (\<lambda>w u. u_heap u ! a);
     r \<leftarrow> (case db of None \<Rightarrow> State_Monad.return (Inl Panic) | Some d \<Rightarrow> db_create e d m);
     case r of
       Inl x \<Rightarrow> State_Monad.return (Inl x)
     | Inr i \<Rightarrow> do {
         set_object a (SetPrimaryKey i m);
         storeModel k a;
         markDirty a;
         (if k = EntityAccount then SetUserID i else State_Monad.return ());
         State_Monad.return (Inr ()) } }"

definition Update :: "env \<Rightarrow> entity_kind \<Rightarrow> nat \<Rightarrow> ('b, unit) game" where
  "Update e k a = do {
     markDirty a;
     db \<leftarrow> entity_db e k;
     queueOp db (UpdateOp a) }"

section \<open>Committing\<close>

text \<open>The grouping loop: a group per database, in the order of their first operations.\<close>

fun add_to_group :: "int option \<times> op \<Rightarrow> (int option \<times> op list) list \<Rightarrow> (int option \<times> op list) list" where
  "add_to_group (d, f) [] = [(d, [f])]"
| "add_to_group (d, f) ((d', fns) # gs) =
     (if d = d' then (d', fns @ [f]) # gs else (d', fns) # add_to_group (d, f) gs)"

definition group_ops :: "(int option \<times> op) list \<Rightarrow> (int option \<times> op list) list" where
  "group_ops ops = fold add_to_group ops []"

text \<open>The closures that \<^verbatim>\<open>Create\<close> and \<^verbatim>\<open>Update\<close> queue read the object when they run.\<close>

fun exec_op :: "env \<Rightarrow> int \<Rightarrow> op \<Rightarrow> ('b, go_error + unit) game" where
  "exec_op e d (CreateOp a) = do {
     m \<leftarrow> gets (\<lambda>w u. u_heap u ! a);
     r \<leftarrow> db_create e d m;
     case r of
       Inl x \<Rightarrow> State_Monad.return (Inl x)
     | Inr i \<Rightarrow> do { set_object a (SetPrimaryKey i m); State_Monad.return (Inr ()) } }"
| "exec_op e d (UpdateOp a) = do {
     m \<leftarrow> gets (\<lambda>w u. u_heap u ! a);
     SaveTx e d m }"

fun exec_ops :: "env \<Rightarrow> int \<Rightarrow> op list \<Rightarrow> ('b, go_error + unit) game" where
  "exec_ops e d [] = State_Monad.return (Inr ())"
| "exec_ops e d (f # fns) = do {
     r \<leftarrow> exec_op e d f;
     case r of Inl x \<Rightarrow> State_Monad.return (Inl x) | Inr _ \<Rightarrow> exec_ops e d fns }"

text \<open>Rolling back restores the rows; automatic keys are not given back.\<close>

definition restore_rows :: "int \<Rightarrow> (string \<Rightarrow> gtable) \<Rightarrow> world \<Rightarrow> world" where
  "restore_rows d old w = w\<lparr>w_db := (w_db w)(d := (\<lambda>t. (w_db w d t)\<lparr>gt_rows := gt_rows (old t)\<rparr>))\<rparr>"

definition Transaction :: "env \<Rightarrow> int option \<Rightarrow> op list \<Rightarrow> ('b, go_error + unit) game" where
  "Transaction e db fns =
     (case db of
        None \<Rightarrow> State_Monad.return (Inl Panic)
      | Some d \<Rightarrow> do {
          k \<leftarrow> outside;
          case en_fault e k of
            Some x \<Rightarrow> State_Monad.return (Inl (Other x))
          | None \<Rightarrow> do {
              old \<leftarrow> gets (\<lambda>w u. w_db w d);
              r \<leftarrow> exec_ops e d fns;
              case r of
                Inl x \<Rightarrow> do { modify_world (restore_rows d old); State_Monad.return (Inl x) }
              | Inr _ \<Rightarrow> do {
                  k' \<leftarrow> outside;
                  case en_fault e k' of
                    None \<Rightarrow> State_Monad.return (Inr ())
                  | Some x \<Rightarrow> do {
                      modify_world (if en_applied e k' then id else restore_rows d old);
                      State_Monad.return (Inl (Other x)) } } } })"

fun error_text :: "go_error \<Rightarrow> string" where
  "error_text (Coded c m) = m"
| "error_text (Other m) = m"
| "error_text NoRows = ''sql: no rows in result set''"
| "error_text Panic = []"

definition commit_error :: "go_error \<Rightarrow> go_error" where
  "commit_error x = (if x = Panic then Panic else Other (''uow commit: '' @ error_text x))"

fun run_groups :: "env \<Rightarrow> (int option \<times> op list) list \<Rightarrow> ('b, go_error + unit) game" where
  "run_groups e [] = State_Monad.return (Inr ())"
| "run_groups e ((db, fns) # gs) = do {
     r \<leftarrow> Transaction e db fns;
     case r of Inl x \<Rightarrow> State_Monad.return (Inl (commit_error x)) | Inr _ \<Rightarrow> run_groups e gs }"

text \<open>The JSON of what the store points to.\<close>

fun stored_value :: "gmodel list \<Rightarrow> stored \<Rightarrow> cached" where
  "stored_value h (One a) = COne (h ! a)"
| "stored_value h (Many as) = CMany (map ((!) h) as)"

definition store_values :: "'b uow \<Rightarrow> (string \<times> cached) list" where
  "store_values u = map (\<lambda>(f, v). (f, stored_value (u_heap u) v)) (u_store u)"

definition update_caches :: "env \<Rightarrow> ('b, go_error + unit) game" where
  "update_caches e = do {
     u \<leftarrow> gets (\<lambda>w u. u);
     if u_user_id u \<noteq> 0 \<and> u_store u \<noteq> [] then do {
       r \<leftarrow> cache_set e (u_user_id u) (store_values u);
       State_Monad.return (case r of Some x \<Rightarrow> Inl (Other (''user cache set: '' @ x)) | None \<Rightarrow> Inr ()) }
     else State_Monad.return (Inr ()) }"

definition Commit :: "env \<Rightarrow> ('b, go_error + unit) game" where
  "Commit e = do {
     ops \<leftarrow> gets (\<lambda>w u. u_ops u);
     r \<leftarrow> run_groups e (group_ops ops);
     case r of
       Inl x \<Rightarrow> State_Monad.return (Inl x)
     | Inr _ \<Rightarrow> do { modify_uow (\<lambda>u. u\<lparr>u_ops := []\<rparr>); update_caches e } }"

definition CommitOrRollback :: "env \<Rightarrow> ('b, go_error + unit) game" where
  "CommitOrRollback e = do {
     r \<leftarrow> Commit e;
     case r of
       Inr _ \<Rightarrow> State_Monad.return (Inr ())
     | Inl Panic \<Rightarrow> State_Monad.return (Inl Panic)
     | Inl x \<Rightarrow> do {
         uid \<leftarrow> gets (\<lambda>w u. u_user_id u);
         (if uid \<noteq> 0 then do { _ \<leftarrow> cache_delete_all e uid; State_Monad.return () } else State_Monad.return ());
         State_Monad.return (Inl (Coded 500 (''commit failed. err : '' @ error_text x))) } }"

end
