(* ===== verification/UowInvariant.thy ===== *)
theory UowInvariant
  imports Uow
begin

text \<open>
  The invariant of a request between its steps: which rows the objects of the store stand for, which
  of them have queued writes, and that every cached value is the value of the database.  The loading
  functions keep it.  Time columns are compared as if zero: the database keeps whole seconds, the
  cache the full time.
\<close>

section \<open>Running\<close>

lemma run_bindE:
  assumes "run_state (State_Monad.bind m f) (w, u) = (r, w2, u2)"
  obtains x w1 u1 where "run_state m (w, u) = (x, w1, u1)" "run_state (f x) (w1, u1) = (r, w2, u2)"
  using assms by (auto split: prod.splits)

section \<open>Rows\<close>

definition untimed :: "gmodel \<Rightarrow> gmodel" where
  "untimed = map_times (\<lambda>_. 0)"

fun shard_column :: "gmodel \<Rightarrow> int" where
  "shard_column (MAccount a) = ac_db_shard_id a"
| "shard_column _ = 0"

text \<open>The columns that never change once a row exists.\<close>

definition keys :: "gmodel \<Rightarrow> string \<times> uint64 \<times> uint64 \<times> int" where
  "keys m = (TableName m, primary_key m, user_column m, shard_column m)"

lemma untimed_simps [simp]:
  "TableName (map_times f m) = TableName m" "primary_key (map_times f m) = primary_key m"
  "user_column (map_times f m) = user_column m" "shard_column (map_times f m) = shard_column m"
  "keys (map_times f m) = keys m" "untimed (map_times f m) = untimed m"
  by (cases m; simp add: keys_def untimed_def)+

lemma untimed_keys: "untimed m = untimed r \<Longrightarrow> keys m = keys r"
  by (metis untimed_simps(5) untimed_def)

lemma SetPrimaryKey_simps [simp]:
  "TableName (SetPrimaryKey i m) = TableName m" "primary_key (SetPrimaryKey i m) = i"
  "shard_column (SetPrimaryKey i m) = shard_column m"
  by (cases m; simp)+

lemma SetPrimaryKey_user [simp]: "TableName m \<noteq> ''TB_ACCOUNT'' \<Longrightarrow> user_column (SetPrimaryKey i m) = user_column m"
  by (cases m) simp_all

definition same_rows :: "gmodel list \<Rightarrow> gmodel list \<Rightarrow> bool" where
  "same_rows xs ys \<longleftrightarrow> map untimed xs = map untimed ys"

lemma same_rows_refl [simp]: "same_rows xs xs" by (simp add: same_rows_def)

lemma same_rows_keys: "same_rows xs ys \<Longrightarrow> map keys xs = map keys ys"
proof (induction xs arbitrary: ys)
  case (Cons x xs)
  then obtain y ys' where "ys = y # ys'" by (cases ys) (simp_all add: same_rows_def)
  with Cons untimed_keys [of x y] show ?case by (simp add: same_rows_def)
qed (simp add: same_rows_def)

definition user_rows :: "world \<Rightarrow> int \<Rightarrow> string \<Rightarrow> uint64 \<Rightarrow> gmodel list" where
  "user_rows w d t uid = filter (\<lambda>r. user_column r = uid) (gt_rows (w_db w d t))"

definition table_ok :: "string \<Rightarrow> gtable \<Rightarrow> bool" where
  "table_ok t tab \<longleftrightarrow> distinct (map primary_key (gt_rows tab)) \<and> 0 < gt_next tab
     \<and> (\<forall>r \<in> set (gt_rows tab). TableName r = t \<and> unat (primary_key r) < gt_next tab)"

definition db_inv :: "world \<Rightarrow> bool" where
  "db_inv w \<longleftrightarrow> (\<forall>d t. table_ok t (w_db w d t))"

text \<open>The database of a user's rows of a kind.\<close>

definition db_of :: "world \<Rightarrow> entity_kind \<Rightarrow> uint64 \<Rightarrow> int option" where
  "db_of w k uid =
     (if ek_is_game k then Some GameDBShardID
      else case user_rows w GameDBShardID ''TB_ACCOUNT'' uid of
        [r] \<Rightarrow> Some (shard_column r)
      | _ \<Rightarrow> None)"

section \<open>Coherence of the cache\<close>

fun cached_list :: "cached \<Rightarrow> gmodel list" where
  "cached_list (COne m) = [m]"
| "cached_list (CMany ms) = ms"

fun cached_single :: "cached \<Rightarrow> bool" where
  "cached_single (COne m) = True"
| "cached_single (CMany ms) = False"

definition entry_ok :: "world \<Rightarrow> uint64 \<Rightarrow> string \<Rightarrow> cached \<Rightarrow> bool" where
  "entry_ok w uid f v \<longleftrightarrow>
     (\<exists>k t d. (k, t) \<in> set entity_tables \<and> f = ek_name k \<and> cached_single v = (k = EntityAccount)
        \<and> db_of w k uid = Some d \<and> same_rows (cached_list v) (user_rows w d t uid))"

definition coherent :: "world \<Rightarrow> bool" where
  "coherent w \<longleftrightarrow> (\<forall>uid f v. w_cache w uid f = Some v \<longrightarrow> entry_ok w uid f v)"

lemmas entity_defs = EntityAccount_def EntityAssets_def EntityCards_def EntityItems_def

lemma entity_cases:
  assumes "(k, t) \<in> set entity_tables"
  obtains "k = EntityAccount" "t = ''TB_ACCOUNT''" | "k = EntityAssets" "t = ''TB_ASSET''"
    | "k = EntityCards" "t = ''TB_CARD''" | "k = EntityItems" "t = ''TB_ITEM''"
  using assms by (auto simp: entity_tables_def)

lemma entity_members [simp]:
  "(EntityAccount, ''TB_ACCOUNT'') \<in> set entity_tables" "(EntityAssets, ''TB_ASSET'') \<in> set entity_tables"
  "(EntityCards, ''TB_CARD'') \<in> set entity_tables" "(EntityItems, ''TB_ITEM'') \<in> set entity_tables"
  by (simp_all add: entity_tables_def)

lemma entity_names [simp]:
  "ek_name EntityAccount = ''account.v1''" "ek_name EntityAssets = ''assets.v1''"
  "ek_name EntityCards = ''cards.v1''" "ek_name EntityItems = ''items.v1''"
  "ek_is_game EntityAccount" "\<not> ek_is_game EntityAssets" "\<not> ek_is_game EntityCards" "\<not> ek_is_game EntityItems"
  by (simp_all add: entity_defs)

lemma entity_distinct [simp]:
  "EntityAssets \<noteq> EntityAccount" "EntityCards \<noteq> EntityAccount" "EntityItems \<noteq> EntityAccount"
  by (simp_all add: entity_defs)

lemma entity_unique:
  "(k, t) \<in> set entity_tables \<Longrightarrow> (k', t') \<in> set entity_tables \<Longrightarrow> ek_name k = ek_name k' \<Longrightarrow> k = k' \<and> t = t'"
  "(k, t) \<in> set entity_tables \<Longrightarrow> (k', t) \<in> set entity_tables \<Longrightarrow> k = k'"
  by (erule entity_cases; erule entity_cases; simp)+

lemma entity_game:
  "(k, t) \<in> set entity_tables \<Longrightarrow> ek_is_game k \<longleftrightarrow> k = EntityAccount"
  "(k, t) \<in> set entity_tables \<Longrightarrow> t = ''TB_ACCOUNT'' \<longleftrightarrow> k = EntityAccount"
  by (erule entity_cases; simp)+

lemma account_db [simp]: "db_of w EntityAccount uid = Some GameDBShardID"
  by (simp add: db_of_def)

lemma user_rows_cong: "w_db w' = w_db w \<Longrightarrow> user_rows w' = user_rows w"
  by (intro ext) (simp add: user_rows_def)

lemma db_of_cong: "w_db w' = w_db w \<Longrightarrow> db_of w' = db_of w"
  by (intro ext) (simp add: db_of_def user_rows_cong [of w' w])

lemma entry_ok_cong: "w_db w' = w_db w \<Longrightarrow> entry_ok w' = entry_ok w"
  by (intro ext) (simp add: entry_ok_def user_rows_cong [of w' w] db_of_cong [of w' w])

section \<open>The request\<close>

fun op_addr :: "op \<Rightarrow> nat" where
  "op_addr (CreateOp a) = a"
| "op_addr (UpdateOp a) = a"

fun addrs :: "stored \<Rightarrow> nat list" where
  "addrs (One a) = [a]"
| "addrs (Many as) = as"

fun stored_single :: "stored \<Rightarrow> bool" where
  "stored_single (One a) = True"
| "stored_single (Many as) = False"

definition creates :: "op list \<Rightarrow> nat list" where
  "creates ops = concat (map (\<lambda>f. case f of CreateOp a \<Rightarrow> [a] | UpdateOp a \<Rightarrow> []) ops)"

text \<open>An object is created before it is updated, and once.\<close>

fun ordered_ops :: "nat set \<Rightarrow> op list \<Rightarrow> bool" where
  "ordered_ops S [] = True"
| "ordered_ops S (CreateOp a # ops) = (a \<notin> S \<and> ordered_ops (insert a S) ops)"
| "ordered_ops S (UpdateOp a # ops) = (a \<in> S \<and> ordered_ops S ops)"

text \<open>An object and its row.\<close>

definition link :: "gmodel list \<Rightarrow> op list \<Rightarrow> nat \<Rightarrow> gmodel \<Rightarrow> bool" where
  "link h ops a r \<longleftrightarrow> keys (h ! a) = keys r \<and> (untimed (h ! a) = untimed r \<or> UpdateOp a \<in> set ops)"

definition ops_on :: "nat list \<Rightarrow> (int option \<times> op) list \<Rightarrow> (int option \<times> op) list" where
  "ops_on as ops = filter (\<lambda>(d, f). op_addr f \<in> set as) ops"

text \<open>The objects of an entity: first those that have rows, in the order of the rows, then those whose
  insert is queued.\<close>

definition entity_ok :: "world \<Rightarrow> 'b uow \<Rightarrow> (int option \<times> op) list \<Rightarrow> entity_kind \<Rightarrow> string \<Rightarrow> nat list \<Rightarrow> bool" where
  "entity_ok w u ops k t as \<longleftrightarrow>
     (\<exists>d old. db_of w k (u_user_id u) = Some d
        \<and> (\<forall>x \<in> set (ops_on as ops). fst x = Some d)
        \<and> (\<forall>a \<in> set as. a < length (u_heap u) \<and> TableName (u_heap u ! a) = t \<and> user_column (u_heap u ! a) = u_user_id u)
        \<and> as = old @ creates (map snd (ops_on as ops))
        \<and> (k = EntityAccount \<longrightarrow> creates (map snd (ops_on as ops)) = [])
        \<and> list_all2 (link (u_heap u) (map snd (ops_on as ops))) old (user_rows w d t (u_user_id u))
        \<and> ordered_ops (set old) (map snd (ops_on as ops)))"

definition store_addrs :: "'b uow \<Rightarrow> nat list" where
  "store_addrs u = concat (map (addrs \<circ> snd) (u_store u))"

definition inv :: "(int option \<times> op) list \<Rightarrow> world \<Rightarrow> 'b uow \<Rightarrow> bool" where
  "inv ops w u \<longleftrightarrow>
     db_inv w \<and> (u_store u = [] \<or> u_user_id u \<noteq> 0)
     \<and> distinct (map fst (u_store u)) \<and> distinct (store_addrs u)
     \<and> (\<forall>x \<in> set (u_store u). \<exists>k t. (k, t) \<in> set entity_tables \<and> fst x = ek_name k
          \<and> stored_single (snd x) = (k = EntityAccount) \<and> entity_ok w u ops k t (addrs (snd x)))
     \<and> (\<forall>x \<in> set ops. op_addr (snd x) \<in> set (store_addrs u))"

definition reqinv :: "(int option \<times> op) list \<Rightarrow> world \<Rightarrow> 'b uow \<Rightarrow> bool" where
  "reqinv V w u \<longleftrightarrow> coherent w \<and> inv (u_ops u @ V) w u"

text \<open>What loading may do to the request: nothing it already has changes.\<close>

definition grows :: "world \<Rightarrow> 'b uow \<Rightarrow> world \<Rightarrow> 'b uow \<Rightarrow> bool" where
  "grows w u w' u' \<longleftrightarrow>
     w_db w' = w_db w \<and> u_ops u' = u_ops u \<and> u_user_id u' = u_user_id u \<and> u_catalog u' = u_catalog u
     \<and> prefix (u_heap u) (u_heap u')
     \<and> (\<forall>f v. map_of (u_store u) f = Some v \<longrightarrow> map_of (u_store u') f = Some v)"

lemma grows_refl [simp]: "grows w u w u"
  by (simp add: grows_def)

lemma grows_trans: "grows w u w1 u1 \<Longrightarrow> grows w1 u1 w2 u2 \<Longrightarrow> grows w u w2 u2"
  by (auto simp: grows_def intro: prefix_order.trans)

section \<open>Loading keeps the invariant\<close>

lemma coherent_cong: "w_db w' = w_db w \<Longrightarrow> w_cache w' = w_cache w \<Longrightarrow> coherent w' = coherent w"
  by (simp add: coherent_def entry_ok_cong [of w' w])

lemma db_inv_cong: "w_db w' = w_db w \<Longrightarrow> db_inv w' = db_inv w"
  by (simp add: db_inv_def)

lemma update_new: "map_of al k = None \<Longrightarrow> AList.update k v al = al @ [(k, v)]"
  by (induction al) (auto split: if_splits)

lemma entity_ok_frame:
  assumes "entity_ok w u ops k t as" and "ops_on as ops' = ops_on as ops"
    and "\<forall>a \<in> set as. u_heap u' ! a = u_heap u ! a" and "length (u_heap u) \<le> length (u_heap u')"
    and "u_user_id u' = u_user_id u" and "db_of w' k (u_user_id u) = db_of w k (u_user_id u)"
    and "\<forall>d. user_rows w' d t (u_user_id u) = user_rows w d t (u_user_id u)"
  shows "entity_ok w' u' ops' k t as"
proof -
  obtain d old where o': "db_of w k (u_user_id u) = Some d" "\<forall>x \<in> set (ops_on as ops). fst x = Some d"
    "\<forall>a \<in> set as. a < length (u_heap u) \<and> TableName (u_heap u ! a) = t \<and> user_column (u_heap u ! a) = u_user_id u"
    "as = old @ creates (map snd (ops_on as ops))" "k = EntityAccount \<longrightarrow> creates (map snd (ops_on as ops)) = []"
    "list_all2 (link (u_heap u) (map snd (ops_on as ops))) old (user_rows w d t (u_user_id u))"
    "ordered_ops (set old) (map snd (ops_on as ops))"
    using assms(1) unfolding entity_ok_def by blast
  have old: "set old \<subseteq> set as" using o'(4) by (metis set_append sup_ge1)
  have "list_all2 (link (u_heap u') (map snd (ops_on as ops))) old (user_rows w d t (u_user_id u))"
    using o'(6) by (rule list.rel_mono_strong) (use old assms(3) in \<open>auto simp: link_def\<close>)
  moreover have "\<forall>a \<in> set as. a < length (u_heap u') \<and> TableName (u_heap u' ! a) = t \<and> user_column (u_heap u' ! a) = u_user_id u"
    using o'(3) assms(3,4) by fastforce
  ultimately show ?thesis
    unfolding entity_ok_def assms(2,5,6) using o' assms(7) by (intro exI [of _ d] exI [of _ old]) simp
qed

lemma entity_ok_grows:
  assumes "entity_ok w u ops k t as" and "w_db w' = w_db w" and "u_user_id u' = u_user_id u"
    and "prefix (u_heap u) (u_heap u')"
  shows "entity_ok w' u' ops k t as"
proof (rule entity_ok_frame [OF assms(1)])
  have "\<forall>a \<in> set as. a < length (u_heap u)" using assms(1) unfolding entity_ok_def by blast
  with assms(4) show "\<forall>a \<in> set as. u_heap u' ! a = u_heap u ! a" by (auto simp: prefix_def nth_append)
qed (use assms prefix_length_le in \<open>simp_all add: db_of_cong [OF assms(2)] user_rows_cong [OF assms(2)]\<close>)

lemma inv_entity:
  assumes "inv ops w u" and "x \<in> set (u_store u)"
  shows "\<exists>k t. (k, t) \<in> set entity_tables \<and> fst x = ek_name k \<and> stored_single (snd x) = (k = EntityAccount)
    \<and> entity_ok w u ops k t (addrs (snd x))"
  using assms(1) unfolding inv_def by (elim conjE) (erule bspec [OF _ assms(2)])

lemma store_addr_bound:
  assumes "inv ops w u" and "a \<in> set (store_addrs u)"
  shows "a < length (u_heap u)"
proof -
  obtain x where x: "x \<in> set (u_store u)" "a \<in> set (addrs (snd x))" using assms(2) by (auto simp: store_addrs_def)
  from inv_entity [OF assms(1) x(1)] obtain k t where "entity_ok w u ops k t (addrs (snd x))" by blast
  with x(2) show ?thesis unfolding entity_ok_def by blast
qed

lemma ops_on_fresh:
  assumes "inv ops w u" and "\<forall>a \<in> set as. length (u_heap u) \<le> a"
  shows "ops_on as ops = []"
  unfolding ops_on_def filter_empty_conv
proof (clarify)
  fix d f
  assume "(d, f) \<in> set ops" "op_addr f \<in> set as"
  then have "op_addr f \<in> set (store_addrs u)" "length (u_heap u) \<le> op_addr f"
    using assms by (fastforce simp: inv_def)+
  with store_addr_bound [OF assms(1)] show False by fastforce
qed

lemma rows_of_user:
  assumes "db_inv w" and "same_rows ms (user_rows w d t uid)" and "m \<in> set ms"
  shows "TableName m = t \<and> user_column m = uid"
proof -
  have "keys m \<in> keys ` set (user_rows w d t uid)"
    using same_rows_keys [OF assms(2)] assms(3) by (metis image_eqI image_set)
  then obtain r where "r \<in> set (user_rows w d t uid)" "keys m = keys r" by auto
  with assms(1) show ?thesis by (auto simp: user_rows_def keys_def db_inv_def table_ok_def)
qed

lemma entity_ok_loaded:
  assumes i: "inv ops w u" and d: "db_of w k (u_user_id u) = Some d"
    and ms: "same_rows ms (user_rows w d t (u_user_id u))"
    and w': "w_db w' = w_db w" and u': "u_user_id u' = u_user_id u" "u_heap u' = u_heap u @ ms"
  shows "entity_ok w' u' ops k t [length (u_heap u)..<length (u_heap u) + length ms]"
proof -
  let ?as = "[length (u_heap u)..<length (u_heap u) + length ms]"
  have none: "ops_on ?as ops = []" by (rule ops_on_fresh [OF i]) simp
  have "list_all2 (link (u_heap u') []) ?as (user_rows w d t (u_user_id u))"
    using ms by (auto simp: list_all2_conv_all_nth link_def u' same_rows_def nth_append
      dest: map_eq_imp_length_eq intro!: untimed_keys) (metis nth_map map_eq_imp_length_eq)+
  moreover have "a < length (u_heap u') \<and> TableName (u_heap u' ! a) = t \<and> user_column (u_heap u' ! a) = u_user_id u"
    if "a \<in> set ?as" for a
  proof -
    from that have "u_heap u' ! a \<in> set ms" "a < length (u_heap u')" by (auto simp: u' nth_append)
    with rows_of_user [OF _ ms] i show ?thesis by (auto simp: inv_def)
  qed
  ultimately show ?thesis
    unfolding entity_ok_def user_rows_cong [OF w'] db_of_cong [OF w'] u'(1) none
    using d by (intro exI [of _ d] exI [of _ ?as]) (auto simp: creates_def)
qed

lemma load_step:
  assumes r: "reqinv V w u" and k: "(k, t) \<in> set entity_tables" and new: "map_of (u_store u) (ek_name k) = None"
    and uid: "u_user_id u \<noteq> 0" and d: "db_of w k (u_user_id u) = Some d"
    and ms: "same_rows ms (user_rows w d t (u_user_id u))"
    and st: "stored_single st = (k = EntityAccount)" "addrs st = [length (u_heap u)..<length (u_heap u) + length ms]"
    and w': "w_db w' = w_db w" "coherent w'"
    and u': "u' = u\<lparr>u_heap := u_heap u @ ms, u_store := AList.update (ek_name k) st (u_store u)\<rparr>"
  shows "reqinv V w' u' \<and> grows w u w' u'"
proof -
  let ?ops = "u_ops u @ V"
  have i: "inv ?ops w u" using r by (simp add: reqinv_def)
  have s: "u_store u' = u_store u @ [(ek_name k, st)]" by (simp add: u' update_new [OF new])
  have g: "grows w u w' u'"
    using new by (auto simp: grows_def u' w' update_conv')
  have mine: "entity_ok w' u' ?ops k t (addrs st)"
    unfolding st by (rule entity_ok_loaded [OF i d ms w'(1)]) (simp_all add: u')
  have old: "entity_ok w' u' ?ops k' t' as" if "entity_ok w u ?ops k' t' as" for k' t' as
    using that by (rule entity_ok_grows) (simp_all add: u' w')
  have all: "\<forall>x \<in> set (u_store u'). \<exists>k t. (k, t) \<in> set entity_tables \<and> fst x = ek_name k
      \<and> stored_single (snd x) = (k = EntityAccount) \<and> entity_ok w' u' ?ops k t (addrs (snd x))"
  proof (intro ballI)
    fix x
    assume "x \<in> set (u_store u')"
    then consider "x = (ek_name k, st)" | "x \<in> set (u_store u)" by (auto simp: s)
    then show "\<exists>k t. (k, t) \<in> set entity_tables \<and> fst x = ek_name k
      \<and> stored_single (snd x) = (k = EntityAccount) \<and> entity_ok w' u' ?ops k t (addrs (snd x))"
    proof cases
      case 1
      with mine k st(1) show ?thesis by (intro exI [of _ k] exI [of _ t]) simp
    next
      case 2
      from inv_entity [OF i 2] old show ?thesis by metis
    qed
  qed
  have d': "distinct (store_addrs u')"
    using i store_addr_bound [OF i] by (force simp: inv_def store_addrs_def s st)
  have n: "ek_name k \<notin> set (map fst (u_store u))" using new by (simp add: map_of_eq_None_iff)
  have "inv ?ops w' u'"
    unfolding inv_def
  proof (intro conjI)
    show "db_inv w'" using i db_inv_cong [OF w'(1)] by (simp add: inv_def)
    show "u_store u' = [] \<or> u_user_id u' \<noteq> 0" using uid by (simp add: u')
    show "distinct (map fst (u_store u'))" using i n by (simp add: inv_def s)
    show "distinct (store_addrs u')" by (rule d')
    show "\<forall>x \<in> set (u_store u'). \<exists>k t. (k, t) \<in> set entity_tables \<and> fst x = ek_name k
      \<and> stored_single (snd x) = (k = EntityAccount) \<and> entity_ok w' u' ?ops k t (addrs (snd x))" by (rule all)
    have "set (store_addrs u) \<subseteq> set (store_addrs u')" by (simp add: store_addrs_def s)
    then show "\<forall>x \<in> set ?ops. op_addr (snd x) \<in> set (store_addrs u')"
      using i unfolding inv_def by blast
  qed
  with g w' show ?thesis by (simp add: reqinv_def grows_def)
qed

end
