(* ===== verification/UowLoad.thy ===== *)
theory UowLoad
  imports UowInvariant
begin

text \<open>
  What the loading functions of the unit of work do to a request: they keep its invariant, whatever
  the cache and the databases answer.
\<close>

section \<open>The cache\<close>

lemma coherent_put:
  assumes "coherent w" and "\<forall>(f, v) \<in> set fs. entry_ok w uid f v"
  shows "coherent (put_fields uid fs w)"
proof -
  have e: "entry_ok (put_fields uid fs w) = entry_ok w"
    by (rule entry_ok_cong) (simp add: put_fields_def)
  show ?thesis
    using assms unfolding coherent_def e
    by (auto simp: put_fields_def map_add_def split: option.splits dest!: map_of_SomeD)
qed

lemma cache_set_coherent:
  assumes "run_state (cache_set e uid fs) (w, u) = (r, w', u')" and "coherent w"
    and "\<forall>(f, v) \<in> set fs. entry_ok w uid f v"
  shows "w_db w' = w_db w \<and> coherent w' \<and> u' = u"
proof -
  let ?w = "w\<lparr>w_tick := Suc (w_tick w)\<rparr>"
  have c: "coherent ?w" using assms(2) by (simp add: coherent_cong [of ?w w])
  have "entry_ok ?w = entry_ok w" by (rule entry_ok_cong) simp
  then have "coherent (put_fields uid fs ?w)" using coherent_put [OF c, of fs uid] assms(3) by simp
  with assms(1) c show ?thesis by (auto simp: cache_set_def put_fields_def split: option.splits)
qed

lemma cache_get_cases:
  assumes "run_state (cache_get e uid f) (w, u) = (r, w', u')"
  shows "w_db w' = w_db w \<and> w_cache w' = w_cache w \<and> u' = u \<and> (r = None \<or> r = w_cache w uid f)"
  using assms by (auto simp: cache_get_def split: if_splits)

lemma tick_reqinv: "w_db w' = w_db w \<Longrightarrow> w_cache w' = w_cache w \<Longrightarrow> reqinv V w u \<Longrightarrow> reqinv V w' u \<and> grows w u w' u"
  using entity_ok_grows [of w u _ _ _ _ w' u]
  by (fastforce simp: reqinv_def inv_def grows_def coherent_cong [of w' w] db_inv_cong [of w' w])

lemma run_new_objects:
  "run_state (new_objects ms) (w, u)
     = ([length (u_heap u)..<length (u_heap u) + length ms], (w, u\<lparr>u_heap := u_heap u @ ms\<rparr>))"
proof (induction ms arbitrary: u)
  case (Cons m ms)
  moreover have "[n..<Suc (n + k)] = n # [Suc n..<Suc (n + k)]" for n k by (rule upt_conv_Cons) simp
  ultimately show ?case by (simp del: upt_Suc)
qed simp

section \<open>One row and many\<close>

text \<open>A key determines its row.\<close>

lemma filter_key: "distinct (map f xs) \<Longrightarrow> filter (\<lambda>r. f r = k) xs = [] \<or> (\<exists>r. filter (\<lambda>r. f r = k) xs = [r])"
proof (induction xs)
  case (Cons x xs)
  then have "f x = k \<Longrightarrow> filter (\<lambda>r. f r = k) xs = []" by (auto simp: filter_empty_conv image_iff)
  with Cons show ?case by auto
qed simp

lemma account_rows:
  assumes "db_inv w" and "find (\<lambda>r. user_column r = uid) (gt_rows (w_db w d ''TB_ACCOUNT'')) = Some m"
  shows "user_rows w d ''TB_ACCOUNT'' uid = [m]"
proof -
  let ?rows = "gt_rows (w_db w d ''TB_ACCOUNT'')"
  have t: "TableName r = ''TB_ACCOUNT''" if "r \<in> set ?rows" for r
    using assms(1) that by (simp add: db_inv_def table_ok_def)
  have "user_column r = primary_key r" if "r \<in> set ?rows" for r
    using t [OF that] by (cases r) simp_all
  then have eq: "user_rows w d ''TB_ACCOUNT'' uid = filter (\<lambda>r. primary_key r = uid) ?rows"
    by (simp add: user_rows_def cong: filter_cong)
  have "distinct (map primary_key ?rows)" using assms(1) by (simp add: db_inv_def table_ok_def)
  from filter_key [OF this, of uid]
  have "user_rows w d ''TB_ACCOUNT'' uid = [] \<or> (\<exists>r. user_rows w d ''TB_ACCOUNT'' uid = [r])" by (simp add: eq)
  with assms(2) show ?thesis by (auto simp: find_filter user_rows_def)
qed

section \<open>Loading the account\<close>

lemma FindOne_cases:
  assumes "run_state (FindOne e (Some d) t uid) (w, u) = (r, w', u')"
  shows "w_db w' = w_db w \<and> w_cache w' = w_cache w \<and> u' = u
    \<and> (\<forall>m. r = Inr m \<longrightarrow> find (\<lambda>r. user_column r = uid) (gt_rows (w_db w d t)) = Some m)"
  using assms by (auto simp: FindOne_def split: option.splits)

lemma FindList_cases:
  assumes "run_state (FindList e (Some d) t uid) (w, u) = (r, w', u')"
  shows "w_db w' = w_db w \<and> w_cache w' = w_cache w \<and> u' = u
    \<and> (\<forall>ms. r = Inr ms \<longrightarrow> ms = user_rows w d t uid)"
  using assms by (auto simp: FindList_def user_rows_def split: option.splits)

text \<open>What a call of a loading function gives, from a request in order.\<close>

lemma stored_entity:
  assumes "inv ops w u" and "map_of (u_store u) (ek_name k) = Some st" and "(k, t) \<in> set entity_tables"
  shows "stored_single st = (k = EntityAccount) \<and> entity_ok w u ops k t (addrs st)"
proof -
  have "(ek_name k, st) \<in> set (u_store u)" using assms(2) by (rule map_of_SomeD)
  then obtain k' t' where "(k', t') \<in> set entity_tables" "ek_name k = ek_name k'"
    "stored_single st = (k' = EntityAccount)" "entity_ok w u ops k' t' (addrs st)"
    using inv_entity [OF assms(1)] by (metis fst_conv snd_conv)
  with entity_unique(1) [OF assms(3)] show ?thesis by metis
qed

lemma stored_single_cases: "stored_single st = (\<exists>a. st = One a)" "(\<not> stored_single st) = (\<exists>as. st = Many as)"
  by (cases st; simp)+

definition account_loaded :: "'b uow \<Rightarrow> nat \<Rightarrow> bool" where
  "account_loaded u a \<longleftrightarrow> map_of (u_store u) (ek_name EntityAccount) = Some (One a)"

lemma cached_entry:
  assumes "coherent w" and "w_cache w uid (ek_name k) = Some v" and "(k, t) \<in> set entity_tables"
  shows "cached_single v = (k = EntityAccount)
    \<and> (\<exists>d. db_of w k uid = Some d \<and> same_rows (cached_list v) (user_rows w d t uid))"
proof -
  obtain k' t' d where "(k', t') \<in> set entity_tables" "ek_name k = ek_name k'" "cached_single v = (k' = EntityAccount)"
    "db_of w k' uid = Some d" "same_rows (cached_list v) (user_rows w d t' uid)"
    using assms(1,2) unfolding coherent_def entry_ok_def by blast
  with entity_unique(1) [OF assms(3)] show ?thesis by metis
qed

lemma account_objects:
  assumes r: "reqinv V w u" and new: "map_of (u_store u) (ek_name EntityAccount) = None" and uid: "u_user_id u \<noteq> 0"
    and rows: "same_rows [m] (user_rows w GameDBShardID ''TB_ACCOUNT'' (u_user_id u))" and w2: "w_db w2 = w_db w" "coherent w2"
    and u2: "u2 = u\<lparr>u_heap := u_heap u @ [m], u_store := AList.update (ek_name EntityAccount) (One (length (u_heap u))) (u_store u)\<rparr>"
  shows "reqinv V w2 u2 \<and> grows w u w2 u2 \<and> account_loaded u2 (length (u_heap u))"
  using load_step [OF r entity_members(1) new uid account_db rows _ _ w2 u2] u2
  by (simp add: account_loaded_def update_conv')

text \<open>A miss: the row of the game database becomes the object, and goes into the cache.\<close>

lemma account_from_database:
  assumes r: "reqinv V w u" and new: "map_of (u_store u) (ek_name EntityAccount) = None" and uid: "u_user_id u \<noteq> 0"
    and f: "run_state (FindOne e (Some GameDBShardID) ''TB_ACCOUNT'' (u_user_id u)) (w, u) = (Inr m, w2, u2)"
    and c: "run_state (cache_set e (u_user_id u) [(ek_name EntityAccount, COne m)])
      (w2, u2\<lparr>u_heap := u_heap u2 @ [m], u_store := AList.update (ek_name EntityAccount) (One (length (u_heap u2))) (u_store u2)\<rparr>) = (z, w', u')"
  shows "u2 = u \<and> reqinv V w' u' \<and> grows w u w' u' \<and> account_loaded u' (length (u_heap u))"
proof -
  have co: "coherent w" and db: "db_inv w" using r by (simp_all add: reqinv_def inv_def)
  note fc = FindOne_cases [OF f]
  then have w2: "w_db w2 = w_db w" "w_cache w2 = w_cache w" "u2 = u" by simp_all
  have rows: "user_rows w GameDBShardID ''TB_ACCOUNT'' (u_user_id u) = [m]" using account_rows [OF db] fc by simp
  have "entry_ok w2 (u_user_id u) (ek_name EntityAccount) (COne m)"
    unfolding entry_ok_cong [OF w2(1)] entry_ok_def
    by (intro exI [of _ EntityAccount] exI [of _ "''TB_ACCOUNT''"] exI [of _ GameDBShardID]) (simp add: rows)
  moreover have "coherent w2" using co by (simp add: coherent_cong [OF w2(1,2)])
  ultimately have "w_db w' = w_db w" "coherent w'"
    "u' = u\<lparr>u_heap := u_heap u @ [m], u_store := AList.update (ek_name EntityAccount) (One (length (u_heap u))) (u_store u)\<rparr>"
    using cache_set_coherent [OF c] by (simp_all add: w2)
  from account_objects [OF r new uid _ this] show ?thesis by (simp add: rows w2)
qed

lemma Account_step:
  assumes r: "reqinv V w u" and run: "run_state (Account e) (w, u) = (res, w', u')"
  shows "reqinv V w' u' \<and> grows w u w' u' \<and> (\<forall>a. res = Inr a \<longrightarrow> account_loaded u' a)"
proof (cases "map_of (u_store u) (ek_name EntityAccount) \<noteq> None \<or> u_user_id u = 0")
  case True
  have "inv (u_ops u @ V) w u" using r by (simp add: reqinv_def)
  from stored_entity [OF this _ entity_members(1)] have "\<exists>a. st = One a" if "map_of (u_store u) (ek_name EntityAccount) = Some st" for st
    using that by (auto simp: stored_single_cases)
  with True run r show ?thesis
    by (cases "map_of (u_store u) (ek_name EntityAccount)") (auto simp: Account_def LoadOne_from_def account_loaded_def)
next
  case False
  then have new: "map_of (u_store u) (ek_name EntityAccount) = None" and uid: "u_user_id u \<noteq> 0" by simp_all
  have co: "coherent w" using r by (simp add: reqinv_def)
  obtain c w1 u1 where g: "run_state (cache_get e (u_user_id u) (ek_name EntityAccount)) (w, u) = (c, w1, u1)"
    by (metis prod_cases3)
  note c = cache_get_cases [OF g]
  then have u1: "u1 = u" and w1: "w_db w1 = w_db w" "w_cache w1 = w_cache w" by simp_all
  show ?thesis
  proof (cases "\<exists>m. c = Some (COne m)")
    case True
    then obtain m where m: "c = Some (COne m)" by blast
    have "same_rows [m] (user_rows w GameDBShardID ''TB_ACCOUNT'' (u_user_id u))"
      using cached_entry [OF co _ entity_members(1), of "u_user_id u" "COne m"] c m by auto
    moreover have "coherent w1" using co w1 by (simp add: coherent_cong [of w1 w])
    ultimately show ?thesis using account_objects [OF r new uid _ w1(1) _ refl] run new uid g m
      by (auto simp: Account_def LoadOne_from_def put_store_def u1)
  next
    case no: False
    obtain q w2 u2 where f: "run_state (FindOne e (Some GameDBShardID) ''TB_ACCOUNT'' (u_user_id u)) (w1, u) = (q, w2, u2)"
      by (metis prod_cases3)
    have r1: "reqinv V w1 u" "grows w u w1 u" using tick_reqinv [OF w1 r] by simp_all
    show ?thesis
    proof (cases q)
      case (Inl x)
      have w2: "w_db w2 = w_db w" "w_cache w2 = w_cache w" "u2 = u" using FindOne_cases [OF f] c by simp_all
      show ?thesis
        using run new uid g no f tick_reqinv [OF w2(1,2) r] w2 Inl
        by (auto simp: Account_def LoadOne_from_def u1 split: option.splits cached.splits)
    next
      case (Inr m)
      let ?u = "u2\<lparr>u_heap := u_heap u2 @ [m], u_store := AList.update (ek_name EntityAccount) (One (length (u_heap u2))) (u_store u2)\<rparr>"
      obtain z w3 u3 where cs: "run_state (cache_set e (u_user_id u) [(ek_name EntityAccount, COne m)]) (w2, ?u) = (z, w3, u3)"
        by (metis prod_cases3)
      note fd = account_from_database [OF r1(1) new uid f [unfolded Inr] cs]
      have "res = Inr (length (u_heap u)) \<and> w' = w3 \<and> u' = u3"
        using run new uid g no f cs Inr fd
        by (auto simp: Account_def LoadOne_from_def put_store_def u1 split: option.splits cached.splits)
      with fd grows_trans [OF r1(2)] show ?thesis by auto
    qed
  qed
qed

section \<open>The user's database\<close>

lemma account_row:
  assumes "inv ops w u" and "account_loaded u a"
  shows "\<exists>acc r. a < length (u_heap u) \<and> u_heap u ! a = MAccount acc
    \<and> user_rows w GameDBShardID ''TB_ACCOUNT'' (u_user_id u) = [r] \<and> shard_column r = ac_db_shard_id acc"
proof -
  have "entity_ok w u ops EntityAccount ''TB_ACCOUNT'' [a]"
    using stored_entity [OF assms(1) _ entity_members(1)] assms(2) by (fastforce simp: account_loaded_def)
  then have a: "a < length (u_heap u)" "TableName (u_heap u ! a) = ''TB_ACCOUNT''"
    and l: "list_all2 (link (u_heap u) (map snd (ops_on [a] ops))) [a] (user_rows w GameDBShardID ''TB_ACCOUNT'' (u_user_id u))"
    by (auto simp: entity_ok_def)
  obtain acc where acc: "u_heap u ! a = MAccount acc" using a(2) by (cases "u_heap u ! a") auto
  obtain r where r: "user_rows w GameDBShardID ''TB_ACCOUNT'' (u_user_id u) = [r]" "keys (u_heap u ! a) = keys r"
    using l by (auto simp: list_all2_Cons1 link_def)
  with acc a show ?thesis by (simp add: keys_def)
qed

text \<open>The loaded account names a registered shard.\<close>

definition home_ok :: "env \<Rightarrow> 'b uow \<Rightarrow> bool" where
  "home_ok e u \<longleftrightarrow> (\<exists>a. account_loaded u a \<and> a < length (u_heap u) \<and> shard_of e (u_heap u ! a) \<noteq> None)"

lemma home_ok_grows: "grows w u w' u' \<Longrightarrow> home_ok e u \<Longrightarrow> home_ok e u'"
  by (fastforce simp: home_ok_def grows_def account_loaded_def prefix_def nth_append)

lemma ShardDB_step:
  assumes r: "reqinv V w u" and run: "run_state (ShardDB e) (w, u) = (res, w', u')"
  shows "reqinv V w' u' \<and> grows w u w' u'
    \<and> (\<forall>d k. res = Some d \<longrightarrow> \<not> ek_is_game k \<longrightarrow> db_of w k (u_user_id u) = Some d)
    \<and> (home_ok e u \<longrightarrow> res \<noteq> None)"
proof -
  obtain q w1 u1 where a: "run_state (Account e) (w, u) = (q, w1, u1)" by (metis prod_cases3)
  note st = Account_step [OF r a]
  have w': "w' = w1" "u' = u1" using run a by (auto simp: ShardDB_def split: sum.splits)
  have g: "grows w u w1 u1" using st by simp
  then have uid: "u_user_id u1 = u_user_id u" and db: "w_db w1 = w_db w" by (simp_all add: grows_def)
  show ?thesis
  proof (cases q)
    case (Inl x)
    have "\<not> home_ok e u"
      using Inl a by (auto simp: home_ok_def account_loaded_def Account_def LoadOne_from_def)
    with Inl st a run show ?thesis by (auto simp: ShardDB_def)
  next
    case (Inr p)
    with st have l: "account_loaded u1 p" and i: "inv (u_ops u1 @ V) w1 u1" by (simp_all add: reqinv_def)
    from account_row [OF i l] obtain acc r where row: "u_heap u1 ! p = MAccount acc"
      "user_rows w1 GameDBShardID ''TB_ACCOUNT'' (u_user_id u1) = [r]" "shard_column r = ac_db_shard_id acc" by blast
    have res: "res = shard_of e (u_heap u1 ! p)" using a Inr run by (auto simp: ShardDB_def)
    have "db_of w k (u_user_id u) = Some d" if "res = Some d" "\<not> ek_is_game k" for d k
      using that row unfolding res by (auto simp: shard_of_def db_of_def uid user_rows_cong [OF db] split: if_splits)
    moreover have "res \<noteq> None" if "home_ok e u"
      using home_ok_grows [OF g that] l by (auto simp: home_ok_def res account_loaded_def)
    ultimately show ?thesis using st w' by simp
  qed
qed

lemma entity_db_step:
  assumes r: "reqinv V w u" and run: "run_state (entity_db e k) (w, u) = (res, w', u')"
  shows "reqinv V w' u' \<and> grows w u w' u'
    \<and> (\<forall>d. res = Some d \<longrightarrow> db_of w k (u_user_id u) = Some d)
    \<and> (ek_is_game k \<or> home_ok e u \<longrightarrow> res \<noteq> None)"
proof (cases "ek_is_game k")
  case True
  then show ?thesis using r run by (auto simp: entity_db_def db_of_def)
next
  case False
  then show ?thesis using ShardDB_step [OF r] run by (auto simp: entity_db_def)
qed

lemma Account_store:
  "run_state (Account e) (w, u) = (r, w', u') \<Longrightarrow> f \<noteq> ek_name EntityAccount \<Longrightarrow> map_of (u_store u') f = map_of (u_store u) f"
  by (auto simp: Account_def LoadOne_from_def cache_get_def FindOne_def cache_set_def put_store_def update_conv'
    split: option.splits stored.splits cached.splits if_splits sum.splits)

lemma entity_db_store:
  "run_state (entity_db e k) (w, u) = (r, w', u') \<Longrightarrow> f \<noteq> ek_name EntityAccount \<Longrightarrow> map_of (u_store u') f = map_of (u_store u) f"
  by (auto simp: entity_db_def ShardDB_def dest: Account_store split: if_splits prod.splits sum.splits)

section \<open>Loading lists\<close>

text \<open>A miss: the rows of the database become the objects of the list, and go into the cache.\<close>

lemma list_from_database:
  assumes r: "reqinv V w u" and k: "(k, t) \<in> set entity_tables" "k \<noteq> EntityAccount"
    and new: "map_of (u_store u) (ek_name k) = None" and uid: "u_user_id u \<noteq> 0"
    and e: "run_state (entity_db e k) (w, u) = (Some d, w2, u2)"
    and f: "run_state (FindList e (Some d) t (u_user_id u)) (w2, u2) = (Inr ms, w3, u3)"
    and c: "run_state (cache_set e (u_user_id u) [(ek_name k, CMany ms)])
      (w3, u3\<lparr>u_heap := u_heap u3 @ ms, u_store := AList.update (ek_name k) (Many [length (u_heap u3)..<length (u_heap u3) + length ms]) (u_store u3)\<rparr>)
      = (z, w', u')"
  shows "reqinv V w' u' \<and> grows w u w' u' \<and> u_heap u' = u_heap u3 @ ms
    \<and> map_of (u_store u') (ek_name k) = Some (Many [length (u_heap u3)..<length (u_heap u3) + length ms])"
proof -
  note ed = entity_db_step [OF r e]
  then have w2: "w_db w2 = w_db w" and same: "u_user_id u2 = u_user_id u" by (simp_all add: grows_def)
  note fc = FindList_cases [OF f]
  then have w3: "w_db w3 = w_db w2" "u3 = u2" "ms = user_rows w2 d t (u_user_id u2)" by (simp_all add: same)
  have dk: "db_of w2 k (u_user_id u2) = Some d" using ed by (simp add: same db_of_cong [OF w2])
  have r3: "reqinv V w3 u2" "grows w u w3 u2" using tick_reqinv [of w3 w2 V u2] fc ed grows_trans by (auto; blast)+
  let ?u = "u2\<lparr>u_heap := u_heap u2 @ ms, u_store := AList.update (ek_name k) (Many [length (u_heap u2)..<length (u_heap u2) + length ms]) (u_store u2)\<rparr>"
  have "entry_ok w3 (u_user_id u) (ek_name k) (CMany ms)"
    unfolding entry_ok_cong [OF w3(1)] entry_ok_def using k dk w3(3) same
    by (intro exI [of _ k] exI [of _ t] exI [of _ d]) simp
  moreover have "coherent w3" using r3(1) by (simp add: reqinv_def)
  ultimately have w4: "w_db w' = w_db w3" "coherent w'" "u' = ?u" using cache_set_coherent [OF c] by (simp_all add: w3(2))
  have new2: "map_of (u_store u2) (ek_name k) = None"
    using entity_db_store [OF e] new entity_unique(1) [OF k(1) entity_members(1)] k(2) by metis
  have "reqinv V w' ?u \<and> grows w3 u2 w' ?u"
  proof (rule load_step [OF r3(1) k(1) new2])
    show "u_user_id u2 \<noteq> 0" using uid same by simp
    show "db_of w3 k (u_user_id u2) = Some d" using dk by (simp add: db_of_cong [OF w3(1)])
    show "same_rows ms (user_rows w3 d t (u_user_id u2))" by (simp add: user_rows_cong [OF w3(1)] w3(3))
  qed (use k w4 in simp_all)
  with w4(3) grows_trans [OF r3(2)] show ?thesis by (auto simp: update_conv' w3(2))
qed

lemma list_not_found:
  assumes r: "reqinv V w u" and e: "run_state (entity_db e k) (w, u) = (db, w2, u2)"
    and f: "run_state (FindList e db t uid) (w2, u2) = (Inl x, w3, u3)"
  shows "reqinv V w3 u3 \<and> grows w u w3 u3"
proof (cases db)
  case None
  with f entity_db_step [OF r e] show ?thesis by (simp add: FindList_def)
next
  case (Some d)
  note FindList_cases [OF f [unfolded Some]]
  with entity_db_step [OF r e] tick_reqinv [of w3 w2 V u2] grows_trans show ?thesis by fastforce
qed

lemma LoadList_step:
  assumes r: "reqinv V w u" and run: "run_state (LoadList e k t) (w, u) = (res, w', u')"
    and k: "(k, t) \<in> set entity_tables" "k \<noteq> EntityAccount"
  shows "reqinv V w' u' \<and> grows w u w' u'
    \<and> (\<forall>as. res = Inr as \<longrightarrow> map_of (u_store u') (ek_name k) = Some (Many as))"
proof (cases "map_of (u_store u) (ek_name k) \<noteq> None \<or> u_user_id u = 0")
  case True
  have "inv (u_ops u @ V) w u" using r by (simp add: reqinv_def)
  from stored_entity [OF this _ k(1)] k have "\<exists>as. st = Many as" if "map_of (u_store u) (ek_name k) = Some st" for st
    using that by (cases st) auto
  with True run r show ?thesis by (cases "map_of (u_store u) (ek_name k)") (auto simp: LoadList_def)
next
  case False
  then have new: "map_of (u_store u) (ek_name k) = None" and uid: "u_user_id u \<noteq> 0" by simp_all
  have co: "coherent w" using r by (simp add: reqinv_def)
  obtain c w1 u1 where g: "run_state (cache_get e (u_user_id u) (ek_name k)) (w, u) = (c, w1, u1)"
    by (metis prod_cases3)
  note c = cache_get_cases [OF g]
  then have u1: "u1 = u" and w1: "w_db w1 = w_db w" "w_cache w1 = w_cache w" by simp_all
  show ?thesis
  proof (cases "\<exists>ms. c = Some (CMany ms)")
    case True
    then obtain ms where ms: "c = Some (CMany ms)" by blast
    then obtain d where d: "db_of w k (u_user_id u) = Some d" "same_rows ms (user_rows w d t (u_user_id u))"
      using cached_entry [OF co _ k(1), of "u_user_id u" "CMany ms"] c by auto
    let ?as = "[length (u_heap u)..<length (u_heap u) + length ms]"
    let ?u = "u\<lparr>u_heap := u_heap u @ ms, u_store := AList.update (ek_name k) (Many ?as) (u_store u)\<rparr>"
    have co1: "coherent w1" using co w1 by (simp add: coherent_cong [of w1 w])
    have "res = Inr ?as \<and> w' = w1 \<and> u' = ?u"
      using run new uid g ms by (auto simp: LoadList_def put_store_def u1 run_new_objects)
    with load_step [OF r k(1) new uid d, of "Many ?as" w1 ?u] k w1 co1 show ?thesis by (simp add: update_conv')
  next
    case no: False
    have r1: "reqinv V w1 u" "grows w u w1 u" using tick_reqinv [OF w1 r] by simp_all
    obtain db w2 u2 where e: "run_state (entity_db e k) (w1, u) = (db, w2, u2)" by (metis prod_cases3)
    obtain q w3 u3 where f: "run_state (FindList e db t (u_user_id u)) (w2, u2) = (q, w3, u3)" by (metis prod_cases3)
    show ?thesis
    proof (cases q)
      case (Inl x)
      have "res = Inl x \<and> w' = w3 \<and> u' = u3"
        using run new uid g no e f Inl by (auto simp: LoadList_def u1 split: option.splits cached.splits)
      with list_not_found [OF r1(1) e f [unfolded Inl]] grows_trans [OF r1(2)] show ?thesis by blast
    next
      case (Inr ms)
      then obtain d where d: "db = Some d" using f by (cases db) (auto simp: FindList_def)
      let ?as = "[length (u_heap u3)..<length (u_heap u3) + length ms]"
      let ?u = "u3\<lparr>u_heap := u_heap u3 @ ms, u_store := AList.update (ek_name k) (Many ?as) (u_store u3)\<rparr>"
      obtain z w4 u4 where cs: "run_state (cache_set e (u_user_id u) [(ek_name k, CMany ms)]) (w3, ?u) = (z, w4, u4)"
        by (metis prod_cases3)
      have "res = Inr ?as \<and> w' = w4 \<and> u' = u4"
        using run new uid g no e f cs Inr
        by (auto simp: LoadList_def put_store_def u1 run_new_objects split: option.splits cached.splits)
      with list_from_database [OF r1(1) k new uid e [unfolded d] f [unfolded d Inr] cs] grows_trans [OF r1(2)]
      show ?thesis by auto
    qed
  qed
qed

end
