(* ===== verification/UowWrite.thy ===== *)
theory UowWrite
  imports UowLoad
begin

text \<open>
  Changing and creating objects and queuing their writes keep the invariant of the request.
\<close>

section \<open>Queued operations\<close>

lemma creates_append [simp]: "creates (xs @ ys) = creates xs @ creates ys"
  by (simp add: creates_def)

lemma creates_simps [simp]:
  "creates [] = []" "creates (CreateOp a # ops) = a # creates ops" "creates (UpdateOp a # ops) = creates ops"
  by (simp_all add: creates_def)

lemma ordered_append:
  "ordered_ops S (xs @ ys) \<longleftrightarrow> ordered_ops S xs \<and> ordered_ops (S \<union> set (creates xs)) ys"
  by (induction S xs rule: ordered_ops.induct) auto

lemma ops_on_append [simp]: "ops_on as (xs @ ys) = ops_on as xs @ ops_on as ys"
  by (simp add: ops_on_def)

lemma ops_on_single: "ops_on as [(d, f)] = (if op_addr f \<in> set as then [(d, f)] else [])"
  by (simp add: ops_on_def)

lemma entity_ok_other:
  assumes "entity_ok w u ops k t as" and "ops_on as V = []"
    and "\<forall>a \<in> set as. u_heap u' ! a = u_heap u ! a" and "length (u_heap u) \<le> length (u_heap u')"
    and "u_user_id u' = u_user_id u"
  shows "entity_ok w u' (ops @ V) k t as"
  using assms by (intro entity_ok_frame [OF assms(1)]) simp_all

lemma entityE:
  assumes "entity_ok w u ops k t as"
  obtains d old where "db_of w k (u_user_id u) = Some d" "\<forall>x \<in> set (ops_on as ops). fst x = Some d"
    "\<forall>a \<in> set as. a < length (u_heap u) \<and> TableName (u_heap u ! a) = t \<and> user_column (u_heap u ! a) = u_user_id u"
    "as = old @ creates (map snd (ops_on as ops))" "k = EntityAccount \<longrightarrow> creates (map snd (ops_on as ops)) = []"
    "list_all2 (link (u_heap u) (map snd (ops_on as ops))) old (user_rows w d t (u_user_id u))"
    "ordered_ops (set old) (map snd (ops_on as ops))"
  using assms unfolding entity_ok_def by blast

text \<open>An address belongs to one entity.\<close>

lemma distinct_concat_unique:
  "distinct (concat (map f xs)) \<Longrightarrow> x \<in> set xs \<Longrightarrow> y \<in> set xs \<Longrightarrow> a \<in> set (f x) \<Longrightarrow> a \<in> set (f y) \<Longrightarrow> x = y"
  by (induction xs) auto

lemma store_unique:
  assumes "distinct (store_addrs u)" and "(f, st) \<in> set (u_store u)" and "(f', st') \<in> set (u_store u)"
    and "a \<in> set (addrs st)" and "a \<in> set (addrs st')"
  shows "f' = f \<and> st' = st"
  using distinct_concat_unique [of "addrs \<circ> snd" "u_store u" "(f, st)" "(f', st')" a] assms
  by (auto simp: store_addrs_def)

text \<open>Every stored entity is in step with the database once the entity of \<open>a\<close> is, and the others are framed.\<close>

abbreviation entities_ok :: "world \<Rightarrow> 'b uow \<Rightarrow> (int option \<times> op) list \<Rightarrow> (string \<times> stored) list \<Rightarrow> bool" where
  "entities_ok w u ops xs \<equiv> \<forall>x \<in> set xs. \<exists>k t. (k, t) \<in> set entity_tables \<and> fst x = ek_name k
     \<and> stored_single (snd x) = (k = EntityAccount) \<and> entity_ok w u ops k t (addrs (snd x))"

lemma entities_at:
  assumes i: "inv ops w u" and k: "(k, t) \<in> set entity_tables" "(ek_name k, st) \<in> set (u_store u)"
      "stored_single st = (k = EntityAccount)" "a \<in> set (addrs st)"
    and new: "entity_ok w' u' ops' k t (addrs st)"
    and frame: "\<And>k' t' as. entity_ok w u ops k' t' as \<Longrightarrow> a \<notin> set as \<Longrightarrow> entity_ok w' u' ops' k' t' as"
  shows "entities_ok w' u' ops' (u_store u)"
proof
  fix x
  assume s: "x \<in> set (u_store u)"
  show "\<exists>k t. (k, t) \<in> set entity_tables \<and> fst x = ek_name k
     \<and> stored_single (snd x) = (k = EntityAccount) \<and> entity_ok w' u' ops' k t (addrs (snd x))"
  proof (cases "a \<in> set (addrs (snd x))")
    case True
    with store_unique [OF _ k(2) _ k(4), of "fst x" "snd x"] i s have "x = (ek_name k, st)"
      by (cases x) (simp add: inv_def)
    with new k show ?thesis by (intro exI [of _ k] exI [of _ t]) simp
  next
    case False
    with inv_entity [OF i s] frame show ?thesis by metis
  qed
qed

section \<open>Changing an object\<close>

lemma keys_columns:
  "keys m = keys m' \<Longrightarrow> TableName m = TableName m' \<and> user_column m = user_column m'"
  by (simp add: keys_def)

lemma keys_shard: "keys m = keys m' \<Longrightarrow> shard_of e m = shard_of e m'"
  by (cases m; cases m') (auto simp: keys_def shard_of_def)

lemma keys_update:
  "keys m = keys (h ! a) \<Longrightarrow> keys (h[a := m] ! b) = keys (h ! b)"
  by (cases "b = a"; cases "a < length h") (simp_all add: list_update_beyond)

lemma modify_entity:
  assumes "entity_ok w u ops k t as" and a: "a \<in> set as" and f: "keys m = keys (u_heap u ! a)"
    and u': "u' = u\<lparr>u_heap := (u_heap u)[a := m]\<rparr>"
  shows "entity_ok w u' (ops @ [(db_of w k (u_user_id u), UpdateOp a)]) k t as"
proof -
  let ?V = "[(db_of w k (u_user_id u), UpdateOp a)]"
  obtain d old where o': "db_of w k (u_user_id u) = Some d" "\<forall>x \<in> set (ops_on as ops). fst x = Some d"
    "\<forall>a \<in> set as. a < length (u_heap u) \<and> TableName (u_heap u ! a) = t \<and> user_column (u_heap u ! a) = u_user_id u"
    "as = old @ creates (map snd (ops_on as ops))" "k = EntityAccount \<longrightarrow> creates (map snd (ops_on as ops)) = []"
    "list_all2 (link (u_heap u) (map snd (ops_on as ops))) old (user_rows w d t (u_user_id u))"
    "ordered_ops (set old) (map snd (ops_on as ops))"
    using assms(1) by (rule entityE)
  have keys': "keys (u_heap u' ! b) = keys (u_heap u ! b)" for b
    using keys_update [OF f] by (simp add: u')
  have "list_all2 (link (u_heap u') (map snd (ops_on as (ops @ ?V)))) old (user_rows w d t (u_user_id u))"
    using o'(6)
  proof (rule list.rel_mono_strong)
    fix b r
    assume "link (u_heap u) (map snd (ops_on as ops)) b r"
    then show "link (u_heap u') (map snd (ops_on as (ops @ ?V))) b r"
      using keys' [of b] a by (cases "b = a") (auto simp: link_def ops_on_single u')
  qed
  moreover have "a \<in> set old \<union> set (creates (map snd (ops_on as ops)))"
    using a o'(4) by (metis set_append)
  ultimately show ?thesis
    unfolding entity_ok_def using o' a keys_columns [OF keys']
    by (intro exI [of _ d] exI [of _ old]) (auto simp: u' ops_on_single ordered_append)
qed

lemma home_ok_modify:
  assumes "home_ok e u" and "keys m = keys (u_heap u ! a)"
  shows "home_ok e (u\<lparr>u_heap := (u_heap u)[a := m]\<rparr>)"
proof -
  obtain p where p: "account_loaded u p" "p < length (u_heap u)" "shard_of e (u_heap u ! p) \<noteq> None"
    using assms(1) by (auto simp: home_ok_def)
  have "shard_of e ((u_heap u)[a := m] ! p) = shard_of e (u_heap u ! p)"
    by (rule keys_shard [OF keys_update [OF assms(2)]])
  with p show ?thesis by (auto simp: home_ok_def account_loaded_def)
qed

lemma modify_step:
  assumes r: "reqinv [] w u" and k: "(k, t) \<in> set entity_tables" and st: "map_of (u_store u) (ek_name k) = Some st"
    and a: "a \<in> set (addrs st)" and f: "keys (g (u_heap u ! a)) = keys (u_heap u ! a)"
    and u': "u' = u\<lparr>u_heap := (u_heap u)[a := g (u_heap u ! a)]\<rparr>"
  shows "reqinv [(db_of w k (u_user_id u), UpdateOp a)] w u' \<and> (home_ok e u \<longrightarrow> home_ok e u')"
proof -
  let ?V = "[(db_of w k (u_user_id u), UpdateOp a)]"
  have i: "inv (u_ops u) w u" and co: "coherent w" using r by (simp_all add: reqinv_def)
  have s: "(ek_name k, st) \<in> set (u_store u)" using st by (rule map_of_SomeD)
  note mine = stored_entity [OF i st k]
  have "entities_ok w u' (u_ops u @ ?V) (u_store u)"
  proof (rule entities_at [OF i k s _ a])
    show "entity_ok w u' (u_ops u @ ?V) k t (addrs st)" using mine a f u' by (intro modify_entity) auto
    fix k' t' as
    assume o: "entity_ok w u (u_ops u) k' t' as" "a \<notin> set as"
    have "\<forall>b \<in> set as. u_heap u' ! b = u_heap u ! b" using o(2) by (auto simp: u' intro!: nth_list_update_neq)
    with o show "entity_ok w u' (u_ops u @ ?V) k' t' as"
      by (intro entity_ok_other) (simp_all add: ops_on_single u')
  qed (use mine in simp)
  moreover have "a \<in> set (store_addrs u)" using s a by (force simp: store_addrs_def)
  ultimately have "inv (u_ops u @ ?V) w u'" using i by (simp add: inv_def u' store_addrs_def)
  with co f show ?thesis by (simp add: reqinv_def u' home_ok_modify)
qed

section \<open>A new object\<close>

lemma update_existing:
  "map_of al k = Some v \<Longrightarrow> \<exists>xs ys. al = xs @ (k, v) # ys \<and> AList.update k v' al = xs @ (k, v') # ys"
proof (induction al)
  case (Cons x al)
  show ?case
  proof (cases "fst x = k")
    case True
    with Cons have "x = (k, v)" by (cases x) simp
    then show ?thesis by (intro exI [of _ "[]"] exI [of _ al]) simp
  next
    case False
    with Cons obtain xs ys where "al = xs @ (k, v) # ys" "AList.update k v' al = xs @ (k, v') # ys" by fastforce
    with False show ?thesis by (intro exI [of _ "x # xs"] exI [of _ ys]) (cases x, simp)
  qed
qed simp

lemma create_entity:
  assumes i: "inv ops w u" and "entity_ok w u ops k t as" and "set as \<subseteq> set (store_addrs u)" and k: "k \<noteq> EntityAccount"
    and m: "TableName m = t" "user_column m = u_user_id u"
    and u': "u' = u\<lparr>u_heap := u_heap u @ [m], u_store := s'\<rparr>"
  shows "entity_ok w u' (ops @ [(db_of w k (u_user_id u), CreateOp (length (u_heap u)))]) k t (as @ [length (u_heap u)])"
proof -
  let ?a = "length (u_heap u)"
  let ?V = "[(db_of w k (u_user_id u), CreateOp ?a)]" and ?as = "as @ [length (u_heap u)]"
  obtain d old where o': "db_of w k (u_user_id u) = Some d" "\<forall>x \<in> set (ops_on as ops). fst x = Some d"
    "\<forall>a \<in> set as. a < length (u_heap u) \<and> TableName (u_heap u ! a) = t \<and> user_column (u_heap u ! a) = u_user_id u"
    "as = old @ creates (map snd (ops_on as ops))" "k = EntityAccount \<longrightarrow> creates (map snd (ops_on as ops)) = []"
    "list_all2 (link (u_heap u) (map snd (ops_on as ops))) old (user_rows w d t (u_user_id u))"
    "ordered_ops (set old) (map snd (ops_on as ops))"
    using assms(2) by (rule entityE)
  have fresh: "?a \<notin> set (store_addrs u)" using store_addr_bound [OF i] by blast
  have "ops_on [?a] ops = []" by (rule ops_on_fresh [OF i]) simp
  then have on: "ops_on ?as ops = ops_on as ops"
    unfolding ops_on_def by (auto simp: filter_empty_conv intro!: filter_cong)
  have heap': "u_heap u' ! b = u_heap u ! b" if "b < ?a" for b using that by (simp add: u' nth_append)
  have old: "set old \<subseteq> set as" using o'(4) by (metis set_append sup_ge1)
  have "list_all2 (link (u_heap u') (map snd (ops_on ?as (ops @ ?V)))) old (user_rows w d t (u_user_id u))"
    using o'(6) by (rule list.rel_mono_strong) (use old o'(3) heap' in \<open>auto simp: link_def on ops_on_single\<close>)
  moreover have "?a \<notin> set old \<union> set (creates (map snd (ops_on as ops)))"
    using o'(4) fresh assms(3) by (metis set_append subsetD)
  ultimately show ?thesis
    unfolding entity_ok_def using o' m k heap'
    by (intro exI [of _ d] exI [of _ old]) (auto simp: u' on ops_on_single ordered_append)
qed

lemma create_other:
  assumes i: "inv ops w u" and "entity_ok w u ops k t as" and sub: "set as \<subseteq> set (store_addrs u)"
    and u': "u' = u\<lparr>u_heap := u_heap u @ [m], u_store := s'\<rparr>"
  shows "entity_ok w u' (ops @ [(d, CreateOp (length (u_heap u)))]) k t as"
proof (rule entity_ok_other [OF assms(2)])
  have below: "\<forall>b \<in> set as. b < length (u_heap u)" using sub store_addr_bound [OF i] by blast
  then show "ops_on as [(d, CreateOp (length (u_heap u)))] = []" by (auto simp: ops_on_single)
  show "\<forall>b \<in> set as. u_heap u' ! b = u_heap u ! b" using below by (simp add: u' nth_append)
qed (simp_all add: u')

lemma home_ok_create:
  assumes "home_ok e u" and "f \<noteq> ek_name EntityAccount"
  shows "home_ok e (u\<lparr>u_heap := u_heap u @ [m], u_store := AList.update f st (u_store u)\<rparr>)"
  using assms by (fastforce simp: home_ok_def account_loaded_def update_conv' nth_append)

lemma create_step:
  assumes r: "reqinv [] w u" and k: "(k, t) \<in> set entity_tables" "k \<noteq> EntityAccount"
    and st: "map_of (u_store u) (ek_name k) = Some (Many as)"
    and m: "TableName m = t" "user_column m = u_user_id u"
    and u': "u' = u\<lparr>u_heap := u_heap u @ [m], u_store := AList.update (ek_name k) (Many (as @ [length (u_heap u)])) (u_store u)\<rparr>"
  shows "reqinv [(db_of w k (u_user_id u), CreateOp (length (u_heap u)))] w u' \<and> (home_ok e u \<longrightarrow> home_ok e u')"
proof -
  let ?a = "length (u_heap u)"
  let ?V = "[(db_of w k (u_user_id u), CreateOp ?a)]" and ?ops = "u_ops u" and ?as = "as @ [length (u_heap u)]"
  have i: "inv ?ops w u" and co: "coherent w" using r by (simp_all add: reqinv_def)
  obtain xs ys where s: "u_store u = xs @ (ek_name k, Many as) # ys"
    and up: "AList.update (ek_name k) (Many ?as) (u_store u) = xs @ (ek_name k, Many ?as) # ys"
    using update_existing [OF st, of "Many ?as"] by blast
  have s': "u_store u' = xs @ (ek_name k, Many ?as) # ys" by (simp add: u' up)
  have sub: "set (addrs (snd x)) \<subseteq> set (store_addrs u)" if "x \<in> set (u_store u)" for x
    using that by (auto simp: store_addrs_def)
  have "set as \<subseteq> set (store_addrs u)" using sub [of "(ek_name k, Many as)"] by (simp add: s)
  with stored_entity [OF i st k(1)] have new: "entity_ok w u' (?ops @ ?V) k t ?as"
    by (intro create_entity [OF i _ _ k(2) m u']) simp_all
  have all: "entities_ok w u' (?ops @ ?V) (u_store u')"
  proof
    fix x
    assume "x \<in> set (u_store u')"
    then consider "x = (ek_name k, Many ?as)" | "x \<in> set (u_store u)" by (auto simp: s s')
    then show "\<exists>k t. (k, t) \<in> set entity_tables \<and> fst x = ek_name k
      \<and> stored_single (snd x) = (k = EntityAccount) \<and> entity_ok w u' (?ops @ ?V) k t (addrs (snd x))"
    proof cases
      case 1
      with new k show ?thesis by (intro exI [of _ k] exI [of _ t]) simp
    next
      case 2
      from inv_entity [OF i 2] create_other [OF i _ sub [OF 2] u'] show ?thesis by metis
    qed
  qed
  have fresh: "?a \<notin> set (store_addrs u)" using store_addr_bound [OF i] by blast
  have "set (store_addrs u') = insert ?a (set (store_addrs u))" "distinct (store_addrs u')" "distinct (map fst (u_store u'))"
    using i fresh by (auto simp: inv_def store_addrs_def s s')
  with i all have "inv (?ops @ ?V) w u'" by (simp add: inv_def s u')
  moreover have "ek_name k \<noteq> ek_name EntityAccount"
    using entity_unique(1) [OF k(1) entity_members(1)] k(2) by blast
  then have "home_ok e u \<longrightarrow> home_ok e u'" unfolding u' by (blast intro: home_ok_create)
  ultimately show ?thesis using co by (simp add: reqinv_def u')
qed

section \<open>Queuing\<close>

lemma reqinv_dirty [simp]: "reqinv V w (u\<lparr>u_dirty := x\<rparr>) = reqinv V w u" "home_ok e (u\<lparr>u_dirty := x\<rparr>) = home_ok e u"
  by (simp_all add: reqinv_def inv_def entity_ok_def store_addrs_def home_ok_def account_loaded_def)

lemma reqinv_queue: "reqinv [(d, f)] w u \<Longrightarrow> reqinv [] w (u\<lparr>u_ops := u_ops u @ [(d, f)]\<rparr>)"
  by (simp add: reqinv_def inv_def entity_ok_def store_addrs_def)

lemma home_ok_queue [simp]: "home_ok e (u\<lparr>u_ops := x\<rparr>) = home_ok e u"
  by (simp add: home_ok_def account_loaded_def)

text \<open>Finding the database of the kind and queuing the write: in order when there is a database.\<close>

lemma queue_step:
  assumes r: "reqinv [(db_of w k (u_user_id u), f)] w u"
    and run: "run_state (do { db \<leftarrow> entity_db e k; queueOp db f }) (w, u) = (res, w', u')"
  shows "(reqinv [] w' u' \<or> \<not> ek_is_game k \<and> \<not> home_ok e u \<and> coherent w' \<and> db_inv w' \<and> u_ops u' = u_ops u @ [(None, f)])
    \<and> (home_ok e u \<longrightarrow> home_ok e u') \<and> w_db w' = w_db w"
proof -
  obtain db w1 u1 where d: "run_state (entity_db e k) (w, u) = (db, w1, u1)" by (metis prod_cases3)
  note s = entity_db_step [OF r d]
  have u': "w' = w1" "u' = u1\<lparr>u_ops := u_ops u1 @ [(db, f)]\<rparr>" using run d by (simp_all add: queueOp_def)
  have g: "w_db w1 = w_db w" "u_ops u1 = u_ops u" using s by (simp_all add: grows_def)
  have h: "home_ok e u \<longrightarrow> home_ok e u'" using s home_ok_grows by (auto simp: u')
  show ?thesis
  proof (cases db)
    case None
    with s h g show ?thesis by (auto simp: u' reqinv_def inv_def)
  next
    case (Some x)
    with s have "reqinv [(db, f)] w1 u1" by auto
    from reqinv_queue [OF this] h g show ?thesis by (simp add: u')
  qed
qed

lemma markDirty_run: "\<exists>x. run_state (markDirty a) (w, u) = ((), w, u\<lparr>u_dirty := x\<rparr>)"
proof (cases "entityNameOf (u_heap u ! a) = None \<or> a \<in> set (u_dirty u)")
  case True
  then show ?thesis by (intro exI [of _ "u_dirty u"]) (simp add: markDirty_def)
next
  case False
  then show ?thesis by (intro exI [of _ "u_dirty u @ [a]"]) (simp add: markDirty_def)
qed

lemma Update_step:
  assumes "reqinv [(db_of w k (u_user_id u), UpdateOp a)] w u" and "run_state (Update e k a) (w, u) = (res, w', u')"
  shows "(reqinv [] w' u' \<or> \<not> ek_is_game k \<and> \<not> home_ok e u \<and> coherent w' \<and> db_inv w' \<and> u_ops u' = u_ops u @ [(None, UpdateOp a)])
    \<and> (home_ok e u \<longrightarrow> home_ok e u') \<and> w_db w' = w_db w"
proof -
  obtain x where x: "run_state (markDirty a) (w, u) = ((), w, u\<lparr>u_dirty := x\<rparr>)" using markDirty_run by blast
  show ?thesis
    using queue_step [of w k "u\<lparr>u_dirty := x\<rparr>" "UpdateOp a" e res w' u'] assms x by (simp add: Update_def)
qed

lemma Update_result:
  assumes r: "reqinv [(db_of w k (u_user_id u), UpdateOp a)] w u" and run: "run_state (Update e k a) (w, u) = (res, w', u')"
  obtains db where "u_ops u' = u_ops u @ [(db, UpdateOp a)]" "prefix (u_heap u) (u_heap u')" "u_user_id u' = u_user_id u"
    "w_db w' = w_db w" "\<forall>f v. map_of (u_store u) f = Some v \<longrightarrow> map_of (u_store u') f = Some v"
    "db \<noteq> None \<longrightarrow> reqinv [] w' u'"
proof -
  obtain x where x: "run_state (markDirty a) (w, u) = ((), w, u\<lparr>u_dirty := x\<rparr>)" using markDirty_run by blast
  let ?u = "u\<lparr>u_dirty := x\<rparr>"
  obtain db w1 u1 where d: "run_state (entity_db e k) (w, ?u) = (db, w1, u1)" by (rule prod_cases3)
  have "reqinv [(db_of w k (u_user_id ?u), UpdateOp a)] w ?u" using r by simp
  note s = entity_db_step [OF this d]
  have u': "w' = w1" "u' = u1\<lparr>u_ops := u_ops u1 @ [(db, UpdateOp a)]\<rparr>" using run d x by (simp_all add: Update_def queueOp_def)
  have "reqinv [] w' u'" if "db \<noteq> None"
  proof -
    from that obtain y where y: "db = Some y" by blast
    with s have "db_of w k (u_user_id ?u) = db" by simp
    then show ?thesis using s reqinv_queue [of db "UpdateOp a" w1 u1] by (simp add: u')
  qed
  with s that [of db] show ?thesis by (simp add: u' grows_def)
qed

lemma Create_step:
  assumes r: "reqinv [] w u" and k: "(k, t) \<in> set entity_tables" "k \<noteq> EntityAccount"
    and st: "map_of (u_store u) (ek_name k) = Some (Many as)"
    and m: "TableName m = t" "user_column m = u_user_id u" and h: "home_ok e u"
    and run: "run_state (Create e k (length (u_heap u))) (w, u\<lparr>u_heap := u_heap u @ [m]\<rparr>) = (res, w', u')"
  shows "reqinv [] w' u' \<and> home_ok e u' \<and> w_db w' = w_db w"
proof -
  let ?a = "length (u_heap u)"
  let ?u = "u\<lparr>u_heap := u_heap u @ [m], u_store := AList.update (ek_name k) (Many (as @ [?a])) (u_store u)\<rparr>"
  have "\<not> IsSingleton m" using m(1) entity_game(2) [OF k(1)] k(2) by (cases m) auto
  then have store: "run_state (storeModel k ?a) (w, u\<lparr>u_heap := u_heap u @ [m]\<rparr>) = ((), w, ?u)"
    using st by (simp add: storeModel_def)
  obtain x where x: "run_state (markDirty ?a) (w, ?u) = ((), w, ?u\<lparr>u_dirty := x\<rparr>)" using markDirty_run by blast
  have c: "reqinv [(db_of w k (u_user_id u), CreateOp ?a)] w ?u" "home_ok e ?u"
    using create_step [OF r k st m refl] h by simp_all
  have "reqinv [(db_of w k (u_user_id (?u\<lparr>u_dirty := x\<rparr>)), CreateOp ?a)] w (?u\<lparr>u_dirty := x\<rparr>)"
    "home_ok e (?u\<lparr>u_dirty := x\<rparr>)" using c unfolding reqinv_dirty by simp_all
  from queue_step [OF this(1), of e res w' u'] this(2) show ?thesis
    using run store x by (simp add: Create_def)
qed

end
