(* ===== verification/UowCommit.thy ===== *)
theory UowCommit
  imports UowWrite
begin

text \<open>
  The queued writes of a request against its invariant: executing one brings its row to the state of
  its object, and changes no other user's rows.
\<close>

section \<open>What a write touches\<close>

text \<open>The rows of other users and of the tables outside \<open>T\<close> are as before, and so is each user's shard.\<close>

definition touches :: "uint64 \<Rightarrow> string set \<Rightarrow> world \<Rightarrow> world \<Rightarrow> bool" where
  "touches uid T w w' \<longleftrightarrow>
     db_inv w' \<and> w_cache w' = w_cache w
     \<and> (\<forall>d t v. v \<noteq> uid \<or> t \<notin> T \<longrightarrow> user_rows w' d t v = user_rows w d t v)
     \<and> (\<forall>k v. db_of w' k v = db_of w k v)"

lemma touches_refl: "db_inv w \<Longrightarrow> touches uid T w w"
  by (simp add: touches_def)

lemma touches_trans: "touches uid T w w1 \<Longrightarrow> touches uid T w1 w2 \<Longrightarrow> touches uid T w w2"
  by (simp add: touches_def)

lemma touches_mono: "touches uid T w w' \<Longrightarrow> T \<subseteq> T' \<Longrightarrow> touches uid T' w w'"
  unfolding touches_def by blast

definition store_tables :: "'b uow \<Rightarrow> string set" where
  "store_tables u = {t. \<exists>k. (k, t) \<in> set entity_tables \<and> ek_name k \<in> fst ` set (u_store u)}"

lemma entry_ok_touches:
  assumes "touches uid (store_tables u) w w'" and "entry_ok w v f c" and "v \<noteq> uid \<or> f \<notin> fst ` set (u_store u)"
  shows "entry_ok w' v f c"
proof -
  obtain k t d where e: "(k, t) \<in> set entity_tables" "f = ek_name k" "cached_single c = (k = EntityAccount)"
    "db_of w k v = Some d" "same_rows (cached_list c) (user_rows w d t v)"
    using assms(2) unfolding entry_ok_def by blast
  have "v \<noteq> uid \<or> t \<notin> store_tables u"
    using assms(3) e(1,2) entity_unique(2) unfolding store_tables_def by blast
  with assms(1) have "user_rows w' d t v = user_rows w d t v" "db_of w' k v = db_of w k v"
    by (auto simp: touches_def)
  with e show ?thesis unfolding entry_ok_def by metis
qed

section \<open>Rows\<close>

lemma rows_put: "w_db (put_rows d t tab w) = (\<lambda>d' t'. if d' = d \<and> t' = t then tab else w_db w d' t')"
  by (intro ext) (simp add: put_rows_def)

lemma user_rows_put:
  "user_rows (put_rows d t tab w) d' t' v =
     (if d' = d \<and> t' = t then filter (\<lambda>r. user_column r = v) (gt_rows tab) else user_rows w d' t' v)"
  by (simp add: user_rows_def rows_put)

lemma insert_row_ok:
  assumes "table_ok t tab" and "TableName m = t" and "insert_row m tab = Some (i, tab')"
  shows "table_ok t tab' \<and> (of_nat i :: uint64) \<noteq> 0 \<and> (\<forall>r \<in> set (gt_rows tab). primary_key r \<noteq> of_nat i)"
proof -
  have i: "i = gt_next tab" "i < 2 ^ 64" and tab': "gt_next tab' = Suc i"
    "gt_rows tab' = gt_rows tab @ [map_times timestamp_column (SetPrimaryKey (of_nat i) m)]"
    using assms(3) by (auto simp: insert_row_def split: if_splits)
  have u: "unat (of_nat i :: uint64) = i" using i(2) by (simp add: unat_of_nat)
  have less: "unat (primary_key r) < i" if "r \<in> set (gt_rows tab)" for r
    using assms(1) that i(1) by (simp add: table_ok_def)
  then have new: "primary_key r \<noteq> of_nat i" if "r \<in> set (gt_rows tab)" for r
    using that u by force
  have "0 < i" using assms(1) i(1) by (simp add: table_ok_def)
  then have "(of_nat i :: uint64) \<noteq> 0" using u by force
  moreover have "of_nat i \<notin> primary_key ` set (gt_rows tab)" using new by force
  moreover have "TableName r = t \<and> unat (primary_key r) < Suc i" if "r \<in> set (gt_rows tab')" for r
    using that assms(1,2) less u by (auto simp: tab' table_ok_def less_Suc_eq)
  ultimately show ?thesis
    using assms(1) new by (simp add: table_ok_def tab')
qed

lemma update_row_ok:
  assumes "table_ok t tab" and "TableName m = t" and "r \<in> set (gt_rows tab)" and "keys r = keys m"
  shows "table_ok t (update_row m tab)"
proof -
  have "map primary_key (gt_rows (update_row m tab)) = map primary_key (gt_rows tab)"
    by (simp add: update_row_def)
  moreover have "gt_next (update_row m tab) = gt_next tab" by (simp add: update_row_def)
  moreover have "TableName r' = t \<and> unat (primary_key r') < gt_next tab" if "r' \<in> set (gt_rows (update_row m tab))" for r'
    using that assms by (auto simp: update_row_def table_ok_def)
  ultimately show ?thesis using assms(1) by (simp add: table_ok_def)
qed

section \<open>One queued write\<close>

text \<open>The entity of a queued write.\<close>

lemma op_entity:
  assumes "inv ((d, f) # ops) w u"
  obtains k t st where "(k, t) \<in> set entity_tables" "(ek_name k, st) \<in> set (u_store u)"
    "stored_single st = (k = EntityAccount)" "op_addr f \<in> set (addrs st)"
    "entity_ok w u ((d, f) # ops) k t (addrs st)"
proof -
  have "op_addr f \<in> set (store_addrs u)" using assms by (simp add: inv_def)
  then obtain x where x: "x \<in> set (u_store u)" "op_addr f \<in> set (addrs (snd x))" by (auto simp: store_addrs_def)
  from inv_entity [OF assms x(1)] obtain k t where "(k, t) \<in> set entity_tables" "fst x = ek_name k"
    "stored_single (snd x) = (k = EntityAccount)" "entity_ok w u ((d, f) # ops) k t (addrs (snd x))" by blast
  moreover from this x have "(ek_name k, snd x) \<in> set (u_store u)" by (metis prod.collapse)
  ultimately show ?thesis using x that [of k t "snd x"] by blast
qed

text \<open>Once the write has run: the rest of the invariant, from the entity of the write.\<close>

lemma inv_executed:
  assumes i: "inv ((d, f) # ops) w u" and k: "(k, t) \<in> set entity_tables" "(ek_name k, st) \<in> set (u_store u)"
      "stored_single st = (k = EntityAccount)"
    and a: "op_addr f \<in> set (addrs st)" and new: "entity_ok w' u' ops k t (addrs st)"
    and u': "u' = u\<lparr>u_heap := (u_heap u)[op_addr f := m]\<rparr>"
    and touch: "touches (u_user_id u) {t} w w'"
  shows "inv ops w' u' \<and> touches (u_user_id u) (store_tables u) w w'"
proof
  have "t \<in> store_tables u" using k(1,2) by (force simp: store_tables_def)
  then show "touches (u_user_id u) (store_tables u) w w'" by (intro touches_mono [OF touch]) simp
  have "entity_ok w' u' ops k' t' (addrs (snd x))"
    if x: "x \<in> set (u_store u)" "(k', t') \<in> set entity_tables" "fst x = ek_name k'" "x \<noteq> (ek_name k, st)"
      "entity_ok w u ((d, f) # ops) k' t' (addrs (snd x))" for x k' t'
  proof (rule entity_ok_frame [OF x(5)])
    have no: "op_addr f \<notin> set (addrs (snd x))"
      using store_unique [OF _ k(2) _ a, of "fst x" "snd x"] x(1,4) i by (cases x) (auto simp: inv_def)
    then show "ops_on (addrs (snd x)) ops = ops_on (addrs (snd x)) ((d, f) # ops)" by (simp add: ops_on_def)
    show "\<forall>b \<in> set (addrs (snd x)). u_heap u' ! b = u_heap u ! b"
      using no by (metis (no_types, lifting) nth_list_update_neq u' uow.select_convs(6) uow.surjective uow.update_convs(6))
    have "distinct (map fst (u_store u))" using i by (simp add: inv_def)
    then have "k' \<noteq> k" using x(1,3,4) k(2) by (metis eq_key_imp_eq_value prod.collapse)
    then have "t' \<noteq> t" using entity_unique(2) x(2) k(1) by blast
    with touch show "\<forall>d. user_rows w' d t' (u_user_id u) = user_rows w d t' (u_user_id u)"
      by (simp add: touches_def)
  qed (use touch in \<open>simp_all add: u' touches_def\<close>)
  then have "\<forall>x \<in> set (u_store u'). \<exists>k t. (k, t) \<in> set entity_tables \<and> fst x = ek_name k
      \<and> stored_single (snd x) = (k = EntityAccount) \<and> entity_ok w' u' ops k t (addrs (snd x))"
    using inv_entity [OF i] new k unfolding u' by (metis (no_types, lifting) fst_conv snd_conv uow.select_convs(3) uow.surjective uow.update_convs(6))
  then show "inv ops w' u'"
    using i touch by (simp add: inv_def u' touches_def store_addrs_def)
qed

lemma db_of_shards:
  "db_of w k v = (if ek_is_game k then Some GameDBShardID
     else case map shard_column (user_rows w GameDBShardID ''TB_ACCOUNT'' v) of [s] \<Rightarrow> Some s | _ \<Rightarrow> None)"
  by (auto simp: db_of_def split: list.splits)

lemma distinct_concat_part: "distinct (concat (map f xs)) \<Longrightarrow> x \<in> set xs \<Longrightarrow> distinct (f x)"
  by (induction xs) auto

lemma touches_account:
  assumes "db_inv w'" and "w_cache w' = w_cache w"
    and "\<forall>d' t' v. v \<noteq> uid \<or> t' \<noteq> t \<longrightarrow> user_rows w' d' t' v = user_rows w d' t' v"
    and "t = ''TB_ACCOUNT'' \<longrightarrow> map shard_column (user_rows w' GameDBShardID t uid) = map shard_column (user_rows w GameDBShardID t uid)"
  shows "touches uid {t} w w'"
proof -
  have "map shard_column (user_rows w' GameDBShardID ''TB_ACCOUNT'' v) = map shard_column (user_rows w GameDBShardID ''TB_ACCOUNT'' v)" for v
    using assms(3,4) by (cases "v = uid \<and> t = ''TB_ACCOUNT''") auto
  then have "db_of w' k v = db_of w k v" for k v by (simp only: db_of_shards)
  with assms show ?thesis by (auto simp: touches_def)
qed

text \<open>An insert: the row is appended to its user's, and nothing else is touched.\<close>

lemma insert_touches:
  assumes w: "db_inv w" and m: "TableName m = t" "user_column m = uid" "t \<noteq> ''TB_ACCOUNT''"
    and row: "insert_row m (w_db w d t) = Some (n, tab')"
    and w': "w' = put_rows d t tab' (w\<lparr>w_tick := z\<rparr>)"
  shows "user_rows w' d t uid = user_rows w d t uid @ [map_times timestamp_column (SetPrimaryKey (of_nat n) m)]"
    and "touches uid {t} w w'"
proof -
  let ?r = "map_times timestamp_column (SetPrimaryKey (of_nat n) m)"
  have tab': "gt_rows tab' = gt_rows (w_db w d t) @ [?r]" using row by (auto simp: insert_row_def split: if_splits)
  show "user_rows w' d t uid = user_rows w d t uid @ [?r]"
    using m by (simp add: w' user_rows_put tab') (auto simp: user_rows_def)
  have "table_ok t tab'" using insert_row_ok row m(1) w by (metis db_inv_def)
  then have "db_inv w'" using w by (simp add: db_inv_def w' rows_put)
  moreover have "user_rows w' d' t' v = user_rows w d' t' v" if "v \<noteq> uid \<or> t' \<noteq> t" for d' t' v
    using that m by (auto simp: w' user_rows_put tab') (auto simp: user_rows_def)
  ultimately show "touches uid {t} w w'"
    using m(3) by (intro touches_account) (auto simp: w' put_rows_def)
qed

lemma ops_on_head: "op_addr f \<in> set as \<Longrightarrow> ops_on as ((d, f) # ops) = (d, f) # ops_on as ops"
  by (simp add: ops_on_def)

lemma store_distinct:
  "inv ops w u \<Longrightarrow> (f, st) \<in> set (u_store u) \<Longrightarrow> distinct (addrs st)"
  using distinct_concat_part [of "addrs \<circ> snd" "u_store u" "(f, st)"] by (simp add: inv_def store_addrs_def)

text \<open>The entity of a create once it has run: its last row is the object with its new key.\<close>

lemma entity_created:
  assumes ok: "entity_ok w u ((Some d, CreateOp a) # ops) k t as" and a: "a \<in> set as" and as: "distinct as"
    and notacc: "t \<noteq> ''TB_ACCOUNT''" and u': "u' = u\<lparr>u_heap := (u_heap u)[a := SetPrimaryKey pk (u_heap u ! a)]\<rparr>"
    and touch: "touches (u_user_id u) {t} w w'"
    and rows: "user_rows w' d t (u_user_id u) = user_rows w d t (u_user_id u) @ [map_times timestamp_column (SetPrimaryKey pk (u_heap u ! a))]"
  shows "entity_ok w' u' ops k t as"
proof -
  let ?on = "map snd (ops_on as ops)"
  have on: "ops_on as ((Some d, CreateOp a) # ops) = (Some d, CreateOp a) # ops_on as ops"
    using a by (simp add: ops_on_head)
  obtain old where e: "db_of w k (u_user_id u) = Some d" "\<forall>x \<in> set (ops_on as ops). fst x = Some d"
    "\<forall>b \<in> set as. b < length (u_heap u) \<and> TableName (u_heap u ! b) = t \<and> user_column (u_heap u ! b) = u_user_id u"
    "as = old @ a # creates ?on" "k \<noteq> EntityAccount"
    "list_all2 (link (u_heap u) (CreateOp a # ?on)) old (user_rows w d t (u_user_id u))"
    "ordered_ops (set (old @ [a])) ?on"
    using ok by (elim entityE) (auto simp: on)
  have new: "a \<notin> set old" using as e(4) by (metis distinct.simps(2) distinct_append UnCI not_distinct_conv_prefix)
  have split: "as = (old @ [a]) @ creates ?on" using e(4) by simp
  have m: "a < length (u_heap u)" "TableName (u_heap u ! a) \<noteq> ''TB_ACCOUNT''" using e(3) a notacc by auto
  have "u_heap u' ! b = u_heap u ! b" if "b \<in> set old" for b using that new by (cases "b = a") (simp_all add: u')
  then have "list_all2 (link (u_heap u') ?on) old (user_rows w d t (u_user_id u))"
    using e(6) by (elim list.rel_mono_strong) (auto simp: link_def)
  moreover have "link (u_heap u') ?on a (map_times timestamp_column (SetPrimaryKey pk (u_heap u ! a)))"
    using m by (simp add: link_def u')
  ultimately have "list_all2 (link (u_heap u') ?on) (old @ [a]) (user_rows w' d t (u_user_id u'))"
    by (simp add: rows u' list_all2_appendI)
  moreover have "db_of w' k (u_user_id u') = Some d" using touch e(1) by (simp add: touches_def u')
  moreover have "\<forall>b \<in> set as. b < length (u_heap u') \<and> TableName (u_heap u' ! b) = t \<and> user_column (u_heap u' ! b) = u_user_id u'"
    using e(3) a m by (simp add: u' nth_list_update)
  ultimately show ?thesis
    unfolding entity_ok_def using e(2,5,7) split by blast
qed

lemma executed_create:
  assumes i: "inv ((Some d, CreateOp a) # ops) w u" and row: "insert_row (u_heap u ! a) (w_db w d (TableName (u_heap u ! a))) = Some (n, tab')"
    and w': "w' = put_rows d (TableName (u_heap u ! a)) tab' (w\<lparr>w_tick := z\<rparr>)"
    and u': "u' = u\<lparr>u_heap := (u_heap u)[a := SetPrimaryKey (of_nat n) (u_heap u ! a)]\<rparr>"
  shows "inv ops w' u' \<and> touches (u_user_id u) (store_tables u) w w'"
proof -
  obtain k t st where k: "(k, t) \<in> set entity_tables" "(ek_name k, st) \<in> set (u_store u)" "stored_single st = (k = EntityAccount)"
    and a: "a \<in> set (addrs st)" and ok: "entity_ok w u ((Some d, CreateOp a) # ops) k t (addrs st)"
    using op_entity [OF i] by auto
  have m: "TableName (u_heap u ! a) = t" "user_column (u_heap u ! a) = u_user_id u" and "k \<noteq> EntityAccount"
    using ok a by (auto elim!: entityE simp: ops_on_head)
  then have notacc: "t \<noteq> ''TB_ACCOUNT''" using entity_game(2) [OF k(1)] by simp
  have "db_inv w" using i by (simp add: inv_def)
  note done_row = insert_touches [OF this m notacc row [unfolded m] w' [unfolded m]]
  have "entity_ok w' u' ops k t (addrs st)"
    by (rule entity_created [OF ok a store_distinct [OF i k(2)] notacc u' done_row(2) done_row(1)])
  then show ?thesis using inv_executed [OF i k, of w' u'] a done_row(2) u' by simp
qed

lemma filter_map_kept:
  "(\<And>x. x \<in> set xs \<Longrightarrow> P (g x) = P x) \<Longrightarrow> filter P (map g xs) = map g (filter P xs)"
  by (induction xs) auto

lemma distinct_map_filter: "distinct (map f xs) \<Longrightarrow> distinct (map f (filter P xs))"
  by (induction xs) auto

text \<open>What an \<open>UPDATE ... WHERE id = ?\<close> does to one row.\<close>

abbreviation updated_row :: "gmodel \<Rightarrow> gmodel \<Rightarrow> gmodel" where
  "updated_row m \<equiv> \<lambda>r. if primary_key r = primary_key m then map_times timestamp_column m else r"

lemma update_touches:
  assumes w: "db_inv w" and m: "TableName m = t" "user_column m = uid"
    and r: "r \<in> set (user_rows w d t uid)" "keys m = keys r" and d: "t = ''TB_ACCOUNT'' \<longrightarrow> d = GameDBShardID"
    and w': "w' = put_rows d t (update_row m (w_db w d t)) (w\<lparr>w_tick := z\<rparr>)"
  shows "user_rows w' d t uid = map (updated_row m) (user_rows w d t uid)" and "touches uid {t} w w'"
proof -
  let ?rows = "gt_rows (w_db w d t)"
  have tab: "table_ok t (w_db w d t)" using w by (simp add: db_inv_def)
  have mine: "r \<in> set ?rows" "user_column r = uid" using r(1) by (auto simp: user_rows_def)
  have one: "x = r" if "x \<in> set ?rows" "primary_key x = primary_key m" for x
    using that mine(1) r(2) tab by (auto simp: table_ok_def keys_def dest: inj_onD simp: distinct_map)
  have "user_column (updated_row m x) = user_column x" if "x \<in> set ?rows" for x
    using one [OF that] mine(2) m by auto
  then have rows: "user_rows w' d t v = map (updated_row m) (user_rows w d t v)" for v
    by (simp add: w' user_rows_put update_row_def) (simp add: user_rows_def filter_map_kept)
  then show "user_rows w' d t uid = map (updated_row m) (user_rows w d t uid)" by blast
  have "map (updated_row m) (user_rows w d t v) = user_rows w d t v" if "v \<noteq> uid" for v
    using one mine(2) that by (auto simp: user_rows_def intro!: map_idI)
  moreover have "user_rows w' d' t' v = user_rows w d' t' v" if "\<not> (d' = d \<and> t' = t)" for d' t' v
    using that by (auto simp: w' user_rows_put) (auto simp: user_rows_def)
  ultimately have "user_rows w' d' t' v = user_rows w d' t' v" if "v \<noteq> uid \<or> t' \<noteq> t" for d' t' v
    using that rows [of v] by (cases "d' = d \<and> t' = t") auto
  moreover have "db_inv w'"
    using w update_row_ok [OF tab m(1) mine(1)] r(2) by (simp add: db_inv_def w' rows_put)
  moreover have "shard_column (updated_row m x) = shard_column x" if "x \<in> set (user_rows w d t uid)" for x
    using one [of x] r(2) that by (auto simp: user_rows_def keys_def)
  then have "map shard_column (user_rows w' d t uid) = map shard_column (user_rows w d t uid)" by (simp add: rows)
  ultimately show "touches uid {t} w w'" using d by (intro touches_account) (auto simp: w' put_rows_def)
qed

text \<open>The entity of an update once it has run: only the row of the object changes, and becomes its state.\<close>

lemma link_updated:
  assumes "link h (UpdateOp a # ops) b r" and "primary_key r = primary_key (h ! a) \<Longrightarrow> b = a"
  shows "link h ops b (updated_row (h ! a) r)"
  using assms by (cases "primary_key r = primary_key (h ! a)") (auto simp: link_def keys_def)

lemma linked_update:
  assumes "list_all2 (link h (UpdateOp a # ops)) old R" and "a \<in> set old" and "distinct (map primary_key R)"
  shows "\<exists>r \<in> set R. keys (h ! a) = keys r" and "list_all2 (link h ops) old (map (updated_row (h ! a)) R)"
proof -
  obtain j where j: "j < length old" "old ! j = a" using assms(2) by (auto simp: in_set_conv_nth)
  then have len: "length R = length old" and rj: "keys (h ! a) = keys (R ! j)"
    using assms(1) by (auto simp: list_all2_conv_all_nth link_def)
  then show "\<exists>r \<in> set R. keys (h ! a) = keys r" using j by (metis nth_mem)
  have "link h ops (old ! n) (updated_row (h ! a) (R ! n))" if n: "n < length old" for n
  proof (rule link_updated)
    show "link h (UpdateOp a # ops) (old ! n) (R ! n)" using assms(1) n by (simp add: list_all2_conv_all_nth)
    assume "primary_key (R ! n) = primary_key (h ! a)"
    then have "n = j" using assms(3) rj n j len by (auto simp: keys_def distinct_conv_nth)
    then show "old ! n = a" using j by simp
  qed
  then show "list_all2 (link h ops) old (map (updated_row (h ! a)) R)"
    by (simp add: list_all2_conv_all_nth len)
qed

lemma executed_update:
  assumes i: "inv ((Some d, UpdateOp a) # ops) w u"
    and w': "w' = put_rows d (TableName (u_heap u ! a)) (update_row (u_heap u ! a) (w_db w d (TableName (u_heap u ! a)))) (w\<lparr>w_tick := z\<rparr>)"
  shows "inv ops w' u \<and> touches (u_user_id u) (store_tables u) w w'"
proof -
  let ?uid = "u_user_id u" and ?m = "u_heap u ! a"
  obtain k t st where k: "(k, t) \<in> set entity_tables" "(ek_name k, st) \<in> set (u_store u)" "stored_single st = (k = EntityAccount)"
    and a: "a \<in> set (addrs st)" and ok: "entity_ok w u ((Some d, UpdateOp a) # ops) k t (addrs st)"
    using op_entity [OF i] by auto
  let ?on = "map snd (ops_on (addrs st) ops)"
  obtain old where e: "db_of w k ?uid = Some d" "\<forall>x \<in> set (ops_on (addrs st) ops). fst x = Some d"
    "\<forall>b \<in> set (addrs st). b < length (u_heap u) \<and> TableName (u_heap u ! b) = t \<and> user_column (u_heap u ! b) = ?uid"
    "addrs st = old @ creates ?on" "k = EntityAccount \<longrightarrow> creates ?on = []"
    "list_all2 (link (u_heap u) (UpdateOp a # ?on)) old (user_rows w d t ?uid)"
    "a \<in> set old" "ordered_ops (set old) ?on"
    using ok a by (elim entityE) (auto simp: ops_on_head)
  have m: "TableName ?m = t" "user_column ?m = ?uid" using e(3) a by simp_all
  have w: "db_inv w" using i by (simp add: inv_def)
  then have "distinct (map primary_key (user_rows w d t ?uid))"
    by (simp add: db_inv_def user_rows_def table_ok_def distinct_map_filter)
  note linked = linked_update [OF e(6,7) this]
  obtain r where r: "r \<in> set (user_rows w d t ?uid)" "keys ?m = keys r" using linked(1) by blast
  have "t = ''TB_ACCOUNT'' \<longrightarrow> d = GameDBShardID" using entity_game(2) [OF k(1)] e(1) by auto
  note done_row = update_touches [OF w m r this w' [unfolded m]]
  have "list_all2 (link (u_heap u) ?on) old (user_rows w' d t ?uid)" using linked(2) by (simp add: done_row(1))
  moreover have "db_of w' k ?uid = Some d" using done_row(2) e(1) by (simp add: touches_def)
  ultimately have "entity_ok w' u ops k t (addrs st)" unfolding entity_ok_def using e(2-5,8) by blast
  then show ?thesis using inv_executed [OF i k, of w' u ?m] a done_row(2) by simp
qed

end
