(* ===== verification/UowCoherence.thy ===== *)
theory UowCoherence
  imports UowCommit
begin

text \<open>
  Running the queued writes group by group, the transactions with their rollbacks, and the cache after
  \<^verbatim>\<open>CommitOrRollback\<close>.
\<close>

section \<open>Runs of writes\<close>

text \<open>What any run of writes in database \<open>d\<close> leaves alone, however it ends.\<close>

definition writes_in :: "int \<Rightarrow> world \<Rightarrow> world \<Rightarrow> bool" where
  "writes_in d w w' \<longleftrightarrow> w_cache w' = w_cache w \<and> w_session w' = w_session w
     \<and> (\<forall>d' t. (d' \<noteq> d \<longrightarrow> w_db w' d' t = w_db w d' t) \<and> gt_next (w_db w d' t) \<le> gt_next (w_db w' d' t))"

lemma writes_in_refl [simp]: "writes_in d w w"
  by (simp add: writes_in_def)

lemma writes_in_trans: "writes_in d w w1 \<Longrightarrow> writes_in d w1 w2 \<Longrightarrow> writes_in d w w2"
  by (simp add: writes_in_def) (meson order_trans)

lemma writes_in_put: "gt_next (w_db w d t) \<le> gt_next tab \<Longrightarrow> writes_in d w (put_rows d t tab (w\<lparr>w_tick := z\<rparr>))"
  by (auto simp: writes_in_def put_rows_def)

lemma writes_in_tick [simp]: "writes_in d w (w\<lparr>w_tick := z\<rparr>)"
  by (simp add: writes_in_def)

lemma exec_op_writes: "run_state (exec_op e d f) (w, u) = (r, w', u') \<Longrightarrow>
  writes_in d w w' \<and> u_store u' = u_store u \<and> u_user_id u' = u_user_id u \<and> u_ops u' = u_ops u"
  by (cases f) (auto simp: db_create_def SaveTx_def insert_row_def update_row_def
    split: option.splits if_splits prod.splits intro!: writes_in_put)

lemma exec_ops_writes: "run_state (exec_ops e d fns) (w, u) = (r, w', u') \<Longrightarrow>
  writes_in d w w' \<and> u_store u' = u_store u \<and> u_user_id u' = u_user_id u \<and> u_ops u' = u_ops u"
proof (induction fns arbitrary: w u)
  case (Cons f fns)
  obtain q w1 u1 where f: "run_state (exec_op e d f) (w, u) = (q, w1, u1)" by (metis prod_cases3)
  note f' = exec_op_writes [OF f]
  show ?case
  proof (cases q)
    case (Inl x)
    with Cons.prems f f' show ?thesis by auto
  next
    case (Inr y)
    with Cons.prems f have "run_state (exec_ops e d fns) (w1, u1) = (r, w', u')" by simp
    from Cons.IH [OF this] f' show ?thesis by (auto intro: writes_in_trans)
  qed
qed simp

lemma exec_op_panic: "run_state (exec_op e d f) (w, u) = (r, w', u') \<Longrightarrow> r \<noteq> Inl Panic"
  by (cases f) (auto simp: db_create_def SaveTx_def split: option.splits prod.splits)

lemma exec_ops_panic: "run_state (exec_ops e d fns) (w, u) = (r, w', u') \<Longrightarrow> r \<noteq> Inl Panic"
  by (induction fns arbitrary: w u) (auto dest: exec_op_panic split: prod.splits sum.splits)

lemma store_tables_cong: "u_store u' = u_store u \<Longrightarrow> store_tables u' = store_tables u"
  by (simp add: store_tables_def)

lemma exec_op_step:
  assumes i: "inv ((Some d, f) # ops) w u" and run: "run_state (exec_op e d f) (w, u) = (Inr y, w', u')"
  shows "inv ops w' u' \<and> touches (u_user_id u) (store_tables u) w w'"
proof (cases f)
  case (CreateOp a)
  let ?m = "u_heap u ! a" and ?w = "w\<lparr>w_tick := Suc (w_tick w)\<rparr>"
  from run obtain n tab' where row: "insert_row ?m (w_db w d (TableName ?m)) = Some (n, tab')"
    and w': "w' = put_rows d (TableName ?m) tab' ?w"
    and u': "u' = u\<lparr>u_heap := (u_heap u)[a := SetPrimaryKey (of_nat n) ?m]\<rparr>"
    by (auto simp: CreateOp db_create_def split: option.splits)
  show ?thesis by (rule executed_create [OF i [unfolded CreateOp] row w' u'])
next
  case (UpdateOp a)
  let ?m = "u_heap u ! a" and ?w = "w\<lparr>w_tick := Suc (w_tick w)\<rparr>"
  from run have u': "u' = u" and w': "w' = put_rows d (TableName ?m) (update_row ?m (w_db w d (TableName ?m))) ?w"
    by (auto simp: UpdateOp SaveTx_def split: option.splits)
  show ?thesis using executed_update [OF i [unfolded UpdateOp] w'] u' by simp
qed

lemma exec_ops_step:
  "inv (map (Pair (Some d)) fns @ ops) w u \<Longrightarrow> run_state (exec_ops e d fns) (w, u) = (Inr y, w', u') \<Longrightarrow>
    inv ops w' u' \<and> touches (u_user_id u) (store_tables u) w w'"
proof (induction fns arbitrary: w u)
  case Nil
  then show ?case by (auto simp: inv_def intro: touches_refl)
next
  case (Cons f fns)
  obtain q w1 u1 where f: "run_state (exec_op e d f) (w, u) = (q, w1, u1)" by (metis prod_cases3)
  then obtain z where q: "q = Inr z" using Cons.prems(2) by (cases q) auto
  from exec_op_step [OF _ f [unfolded q]] Cons.prems(1)
  have 1: "inv (map (Pair (Some d)) fns @ ops) w1 u1" "touches (u_user_id u) (store_tables u) w w1" by simp_all
  have same: "u_store u1 = u_store u" "u_user_id u1 = u_user_id u" using exec_op_writes [OF f] by simp_all
  have "run_state (exec_ops e d fns) (w1, u1) = (Inr y, w', u')" using Cons.prems(2) f q by simp
  from Cons.IH [OF 1(1) this] show ?case
    using 1(2) touches_trans by (auto simp: same store_tables_cong [OF same(1)])
qed

section \<open>Transactions\<close>

text \<open>Going back to the rows at the beginning.\<close>

lemma restored:
  assumes "db_inv w" and "writes_in d w w'"
  shows "touches uid T w (restore_rows d (w_db w d) w')"
proof -
  let ?w = "restore_rows d (w_db w d) w'"
  have rows: "gt_rows (w_db ?w d' t) = gt_rows (w_db w d' t)" "gt_next (w_db w d' t) \<le> gt_next (w_db ?w d' t)" for d' t
    using assms(2) by (auto simp: restore_rows_def writes_in_def)
  then have same: "user_rows ?w = user_rows w" by (intro ext) (simp add: user_rows_def)
  have "table_ok t (w_db ?w d' t)" for d' t
  proof -
    have "table_ok t (w_db w d' t)" using assms(1) by (simp add: db_inv_def)
    with rows [of d' t] show ?thesis by (auto simp: table_ok_def intro: less_le_trans)
  qed
  moreover have "db_of ?w = db_of w" by (intro ext) (simp add: db_of_def same)
  moreover have "w_cache ?w = w_cache w" using assms(2) by (simp add: restore_rows_def writes_in_def)
  ultimately show ?thesis by (simp add: touches_def db_inv_def same)
qed

lemma touches_tick: "touches uid T w w' \<Longrightarrow> touches uid T w (w'\<lparr>w_tick := z\<rparr>)"
  using user_rows_cong [of "w'\<lparr>w_tick := z\<rparr>" w'] db_of_cong [of "w'\<lparr>w_tick := z\<rparr>" w']
    db_inv_cong [of "w'\<lparr>w_tick := z\<rparr>" w'] by (simp add: touches_def)

lemma inv_tick: "inv ops w u \<Longrightarrow> inv ops (w\<lparr>w_tick := z\<rparr>) u"
  using user_rows_cong [of "w\<lparr>w_tick := z\<rparr>" w] db_of_cong [of "w\<lparr>w_tick := z\<rparr>" w]
    db_inv_cong [of "w\<lparr>w_tick := z\<rparr>" w] by (simp add: inv_def entity_ok_def)

lemma Transaction_step:
  assumes i: "inv (map (Pair (Some d)) fns @ ops) w u"
    and run: "run_state (Transaction e (Some d) fns) (w, u) = (r, w', u')"
  shows "touches (u_user_id u) (store_tables u) w w' \<and> u_store u' = u_store u \<and> u_user_id u' = u_user_id u
    \<and> r \<noteq> Inl Panic \<and> (\<forall>y. r = Inr y \<longrightarrow> inv ops w' u')"
proof (cases "en_fault e (w_tick w)")
  case (Some x)
  with run i show ?thesis by (auto simp: Transaction_def inv_def intro!: touches_tick touches_refl)
next
  case None
  let ?w = "w\<lparr>w_tick := Suc (w_tick w)\<rparr>"
  have i': "inv (map (Pair (Some d)) fns @ ops) ?w u" by (rule inv_tick [OF i])
  have db: "db_inv w" using i by (simp add: inv_def)
  have t0: "touches (u_user_id u) (store_tables u) w ?w" using touches_tick [OF touches_refl [OF db]] .
  obtain q w1 u1 where x: "run_state (exec_ops e d fns) (?w, u) = (q, w1, u1)" by (metis prod_cases3)
  note wr = exec_ops_writes [OF x]
  have undo: "touches (u_user_id u) (store_tables u) w (restore_rows d (w_db w d) (w2\<lparr>w_tick := z\<rparr>))"
    if "writes_in d ?w w2" for w2 z
    by (rule restored [OF db]) (use that in \<open>simp add: writes_in_def\<close>)
  show ?thesis
  proof (cases q)
    case (Inl y)
    then show ?thesis using run None x wr undo [of w1 "w_tick w1"] exec_ops_panic [OF x] by (auto simp: Transaction_def)
  next
    case (Inr y)
    from exec_ops_step [OF i' x [unfolded Inr]]
    have fin: "inv ops w1 u1" "touches (u_user_id u) (store_tables u) w w1" using t0 touches_trans by auto
    show ?thesis
      using run None x Inr wr fin inv_tick [OF fin(1)] touches_tick [OF fin(2)] undo [of w1]
      by (auto simp: Transaction_def split: option.splits if_splits)
  qed
qed

section \<open>Groups\<close>

definition flat :: "(int option \<times> op list) list \<Rightarrow> (int option \<times> op) list" where
  "flat gs = concat (map (\<lambda>(d, fns). map (Pair d) fns) gs)"

lemma flat_simps [simp]: "flat [] = []" "flat ((d, fns) # gs) = map (Pair d) fns @ flat gs"
  by (simp_all add: flat_def)

lemma flat_fst: "x \<in> set (flat gs) \<Longrightarrow> fst x \<in> fst ` set gs"
  by (force simp: flat_def)

lemma add_to_group_set: "set (flat (add_to_group x gs)) = insert x (set (flat gs))"
  by (induction x gs rule: add_to_group.induct) auto

lemma add_to_group_fst: "fst ` set (add_to_group x gs) = insert (fst x) (fst ` set gs)"
  by (induction x gs rule: add_to_group.induct) auto

lemma add_to_group_ok:
  "distinct (map fst gs) \<Longrightarrow> distinct (map fst (add_to_group x gs))"
  "\<forall>g \<in> set gs. snd g \<noteq> [] \<Longrightarrow> \<forall>g \<in> set (add_to_group x gs). snd g \<noteq> []"
proof (induction x gs rule: add_to_group.induct)
  case (2 d f d' fns gs)
  { case 1
    with 2 add_to_group_fst [of "(d, f)" gs] show ?case by (auto simp: image_iff split: if_splits)
  next
    case 2
    with "2.IH" show ?case by auto }
qed simp_all

text \<open>Grouping keeps the order of the operations that share a database.\<close>

lemma add_to_group_filter:
  assumes "distinct (map fst gs)" and "\<forall>y \<in> insert x (set (flat gs)). P y \<longrightarrow> fst y = c"
  shows "filter P (flat (add_to_group x gs)) = filter P (flat gs @ [x])"
  using assms
proof (induction x gs rule: add_to_group.induct)
  case (2 d f d' fns gs)
  show ?case
  proof (cases "d = d'")
    case True
    have "filter P (flat gs) = []" if "P (d, f)"
      unfolding filter_empty_conv
    proof
      fix y
      assume y: "y \<in> set (flat gs)"
      then have "fst y \<noteq> d" using flat_fst [OF y] 2(2) True by auto
      moreover have "c = d" using 2(3) that by simp
      ultimately show "\<not> P y" using 2(3) y by auto
    qed
    with True show ?thesis by auto
  next
    case False
    with 2 show ?thesis by simp
  qed
qed simp

lemma group_ops_from:
  assumes "distinct (map fst gs)" and "\<forall>y \<in> set ops \<union> set (flat gs). P y \<longrightarrow> fst y = c"
  shows "filter P (flat (fold add_to_group ops gs)) = filter P (flat gs @ ops)"
  using assms
proof (induction ops arbitrary: gs)
  case (Cons x ops)
  have "filter P (flat (fold add_to_group ops (add_to_group x gs))) = filter P (flat (add_to_group x gs) @ ops)"
    using Cons.prems add_to_group_ok(1) by (intro Cons.IH) (auto simp: add_to_group_set)
  also have "\<dots> = filter P (flat gs @ x # ops)"
    using add_to_group_filter [of gs x P c] Cons.prems by simp
  finally show ?case by simp
qed simp

lemma group_ops_set: "set (flat (fold add_to_group ops gs)) = set ops \<union> set (flat gs)"
  by (induction ops arbitrary: gs) (auto simp: add_to_group_set)

lemma group_ops_nonempty: "\<forall>g \<in> set gs. snd g \<noteq> [] \<Longrightarrow> \<forall>g \<in> set (fold add_to_group ops gs). snd g \<noteq> []"
proof (induction ops arbitrary: gs)
  case (Cons x ops)
  from Cons.IH [OF add_to_group_ok(2) [OF Cons.prems]] show ?case by simp
qed simp

lemma inv_grouped:
  assumes i: "inv ops w u"
  shows "inv (flat (group_ops ops)) w u"
proof -
  have ok: "entity_ok w u (flat (group_ops ops)) k t as" if e: "entity_ok w u ops k t as" for k t as
  proof (rule entity_ok_frame [OF e])
    obtain d where "\<forall>x \<in> set (ops_on as ops). fst x = Some d" using e unfolding entity_ok_def by blast
    then have "\<forall>y \<in> set ops \<union> set (flat []). (case y of (d, f) \<Rightarrow> op_addr f \<in> set as) \<longrightarrow> fst y = Some d"
      by (auto simp: ops_on_def)
    from group_ops_from [OF _ this] show "ops_on as (flat (group_ops ops)) = ops_on as ops"
      by (simp add: group_ops_def ops_on_def)
  qed simp_all
  have all: "\<forall>x \<in> set (u_store u). \<exists>k t. (k, t) \<in> set entity_tables \<and> fst x = ek_name k
      \<and> stored_single (snd x) = (k = EntityAccount) \<and> entity_ok w u (flat (group_ops ops)) k t (addrs (snd x))"
    using inv_entity [OF i] ok by meson
  have "set (flat (group_ops ops)) = set ops" using group_ops_set [of ops "[]"] by (simp add: group_ops_def)
  with i show ?thesis
    unfolding inv_def by (elim conjE, intro conjI) (assumption | rule all | simp)+
qed

lemma inv_op_some:
  assumes "inv ops w u" and "(d, f) \<in> set ops"
  shows "d \<noteq> None"
proof -
  have "op_addr f \<in> set (store_addrs u)" using assms by (fastforce simp: inv_def)
  then obtain x where x: "x \<in> set (u_store u)" "op_addr f \<in> set (addrs (snd x))" by (auto simp: store_addrs_def)
  from inv_entity [OF assms(1) x(1)] obtain k t where "entity_ok w u ops k t (addrs (snd x))" by blast
  moreover have "(d, f) \<in> set (ops_on (addrs (snd x)) ops)" using assms(2) x(2) by (simp add: ops_on_def)
  ultimately show ?thesis unfolding entity_ok_def by fastforce
qed

lemma run_groups_step:
  "inv (flat gs) w u \<Longrightarrow> \<forall>g \<in> set gs. snd g \<noteq> [] \<Longrightarrow> run_state (run_groups e gs) (w, u) = (r, w', u') \<Longrightarrow>
    touches (u_user_id u) (store_tables u) w w' \<and> u_store u' = u_store u \<and> u_user_id u' = u_user_id u
    \<and> r \<noteq> Inl Panic \<and> (\<forall>y. r = Inr y \<longrightarrow> inv [] w' u')"
proof (induction gs arbitrary: w u)
  case Nil
  then show ?case by (auto simp: inv_def intro: touches_refl)
next
  case (Cons g gs)
  obtain db fns where g: "g = (db, fns)" by (cases g)
  obtain d where db: "db = Some d"
    using inv_op_some [OF Cons.prems(1), of db "hd fns"] Cons.prems(2) g by (cases fns) auto
  obtain q w1 u1 where t: "run_state (Transaction e db fns) (w, u) = (q, w1, u1)" by (metis prod_cases3)
  from Transaction_step [OF _ t [unfolded db]] Cons.prems(1)
  have t': "touches (u_user_id u) (store_tables u) w w1" "u_store u1 = u_store u" "u_user_id u1 = u_user_id u"
    "q \<noteq> Inl Panic" "\<forall>y. q = Inr y \<longrightarrow> inv (flat gs) w1 u1" by (auto simp: g db)
  show ?case
  proof (cases q)
    case (Inl x)
    then have "r = Inl (commit_error x) \<and> w' = w1 \<and> u' = u1" using Cons.prems(3) t g by simp
    with Inl t' show ?thesis by (simp add: commit_error_def)
  next
    case (Inr y)
    then have "run_state (run_groups e gs) (w1, u1) = (r, w', u')" using Cons.prems(3) t g by simp
    from Cons.IH [OF _ _ this] Inr t' Cons.prems(2) touches_trans [OF t'(1)] show ?thesis
      by (auto simp: store_tables_cong [OF t'(2)])
  qed
qed

section \<open>The cache after the commit\<close>

lemma store_value_ok:
  assumes i: "inv [] w u" and x: "(f, v) \<in> set (store_values u)"
  shows "entry_ok w (u_user_id u) f v"
proof -
  obtain st where st: "(f, st) \<in> set (u_store u)" "v = stored_value (u_heap u) st"
    using x by (auto simp: store_values_def)
  from inv_entity [OF i st(1)] obtain k t where k: "(k, t) \<in> set entity_tables" "f = ek_name k"
    "stored_single st = (k = EntityAccount)" and ok: "entity_ok w u [] k t (addrs st)" by auto
  from entityE [OF ok] obtain d where d: "db_of w k (u_user_id u) = Some d"
    and l: "list_all2 (link (u_heap u) []) (addrs st) (user_rows w d t (u_user_id u))"
    by (metis append_Nil2 creates_simps(1) filter.simps(1) list.simps(8) ops_on_def)
  have "cached_list v = map ((!) (u_heap u)) (addrs st)" "cached_single v = stored_single st"
    by (cases st; simp add: st(2))+
  moreover have "same_rows (map ((!) (u_heap u)) (addrs st)) (user_rows w d t (u_user_id u))"
    using l by (simp add: same_rows_def list_all2_conv_all_nth link_def list_eq_iff_nth_eq)
  ultimately show ?thesis unfolding entry_ok_def using k d by metis
qed

lemma store_values_fst: "fst ` set (store_values u) = fst ` set (u_store u)"
  by (force simp: store_values_def)

lemma commit_coherent:
  assumes co: "coherent w" and t: "touches (u_user_id u1) (store_tables u1) w w1" and i: "inv [] w1 u1"
  shows "coherent (put_fields (u_user_id u1) (store_values u1) w1)"
proof -
  let ?uid = "u_user_id u1" and ?w = "put_fields (u_user_id u1) (store_values u1) w1"
  have same: "entry_ok ?w = entry_ok w1" by (rule entry_ok_cong) (simp add: put_fields_def)
  have cache: "w_cache w1 = w_cache w" using t by (simp add: touches_def)
  have "entry_ok w1 v f c" if c: "w_cache ?w v f = Some c" for v f c
  proof (cases "v = ?uid \<and> map_of (store_values u1) f \<noteq> None")
    case True
    with c have "(f, c) \<in> set (store_values u1)" by (auto simp: put_fields_def map_add_def dest: map_of_SomeD)
    with store_value_ok [OF i] True show ?thesis by blast
  next
    case False
    then have old: "w_cache w v f = Some c" using c cache by (auto simp: put_fields_def map_add_def split: if_splits)
    have "v \<noteq> ?uid \<or> f \<notin> fst ` set (u_store u1)"
      using False store_values_fst [of u1] by (auto simp: map_of_eq_None_iff)
    with co old entry_ok_touches [OF t] show ?thesis by (simp add: coherent_def)
  qed
  then show ?thesis by (simp add: coherent_def same)
qed

text \<open>When only entries that no write concerns are left.\<close>

lemma untouched_coherent:
  assumes co: "coherent w" and t: "touches (u_user_id u) (store_tables u) w w1" and w2: "w_db w2 = w_db w1"
    and left: "\<And>v f c. w_cache w2 v f = Some c \<Longrightarrow> w_cache w1 v f = Some c \<and> (v \<noteq> u_user_id u \<or> u_store u = [])"
  shows "coherent w2 \<and> db_inv w2"
proof
  have cache: "w_cache w1 = w_cache w" using t by (simp add: touches_def)
  have "entry_ok w1 v f c" if "w_cache w2 v f = Some c" for v f c
  proof -
    from left [OF that] have v: "v \<noteq> u_user_id u \<or> f \<notin> fst ` set (u_store u)" and "w_cache w v f = Some c"
      by (auto simp: cache)
    with co entry_ok_touches [OF t _ v] show ?thesis by (simp add: coherent_def)
  qed
  then show "coherent w2" by (simp add: coherent_def entry_ok_cong [OF w2])
  show "db_inv w2" using t by (simp add: touches_def db_inv_cong [OF w2])
qed

text \<open>A failed commit: the user's entries are deleted.\<close>

lemma rolled_back:
  assumes run: "run_state (CommitOrRollback e) (w0, u0) = (res, w', u')" and c: "run_state (Commit e) (w0, u0) = (Inl x, w1, u1)"
    and x: "x \<noteq> Panic" and del: "\<forall>n. en_delete_fault e n = None"
  shows "w_db w' = w_db w1 \<and> res \<noteq> Inl Panic
    \<and> w_cache w' = (if u_user_id u1 = 0 then w_cache w1 else (w_cache w1)(u_user_id u1 := Map.empty))"
  using run c x del by (cases x) (auto simp: CommitOrRollback_def cache_delete_all_def)

lemma no_ops [simp]: "inv ops w (u\<lparr>u_ops := x\<rparr>) = inv ops w u" "store_values (u\<lparr>u_ops := x\<rparr>) = store_values u"
  by (simp_all add: inv_def entity_ok_def store_addrs_def store_values_def)

text \<open>The cache step of a commit: it fails without a write, or it leaves every entry in step.\<close>

lemma update_caches_failed:
  assumes "run_state (update_caches e) (w, u) = (Inl x, w', u')"
  shows "w_db w' = w_db w \<and> w_cache w' = w_cache w \<and> x \<noteq> Panic \<and> u_user_id u' = u_user_id u"
  using assms by (auto simp: update_caches_def cache_set_def split: if_splits option.splits)

lemma update_caches_coherent:
  assumes co: "coherent w" and t: "touches (u_user_id u) (store_tables u) w w1" and i: "inv [] w1 u"
    and run: "run_state (update_caches e) (w1, u\<lparr>u_ops := []\<rparr>) = (Inr y, w2, u2)"
  shows "coherent w2 \<and> db_inv w2"
proof (cases "u_user_id u \<noteq> 0 \<and> u_store u \<noteq> []")
  case True
  let ?w = "w1\<lparr>w_tick := Suc (w_tick w1)\<rparr>"
  have w2: "w2 = put_fields (u_user_id u) (store_values u) ?w"
    using run True by (auto simp: update_caches_def cache_set_def split: option.splits)
  from commit_coherent [OF co touches_tick [OF t] inv_tick [OF i]] have "coherent w2" by (simp add: w2)
  moreover have "db_inv w2" using t by (simp add: w2 put_fields_def db_inv_def touches_def)
  ultimately show ?thesis ..
next
  case False
  then have "u_store u = []" using i by (auto simp: inv_def)
  moreover have "w2 = w1" using run False by (auto simp: update_caches_def)
  ultimately show ?thesis using untouched_coherent [OF co t, of w2] by simp
qed

lemma failed_commit:
  assumes r: "reqinv [] w u" and del: "\<forall>n. en_delete_fault e n = None"
    and run: "run_state (CommitOrRollback e) (w, u) = (res, w', u')" and c: "run_state (Commit e) (w, u) = (Inl x, w1, u1)"
    and x: "x \<noteq> Panic" and t: "touches (u_user_id u) (store_tables u) w w2"
    and w1: "w_db w1 = w_db w2" "w_cache w1 = w_cache w2" "u_user_id u1 = u_user_id u"
  shows "coherent w' \<and> db_inv w' \<and> res \<noteq> Inl Panic"
proof -
  have co: "coherent w" and uid: "u_store u = [] \<or> u_user_id u \<noteq> 0" using r by (simp_all add: reqinv_def inv_def)
  note rb = rolled_back [OF run c x del]
  have "coherent w' \<and> db_inv w'"
    by (rule untouched_coherent [OF co t]) (use rb w1 uid in \<open>auto split: if_splits\<close>)
  with rb show ?thesis by simp
qed

text \<open>
  After the commit the cache agrees with the database: either it has been written with what the
  request holds, or it has been emptied for the user.
\<close>

lemma CommitOrRollback_step:
  assumes r: "reqinv [] w u" and del: "\<forall>n. en_delete_fault e n = None"
    and run: "run_state (CommitOrRollback e) (w, u) = (res, w', u')"
  shows "coherent w' \<and> db_inv w' \<and> res \<noteq> Inl Panic"
proof -
  have co: "coherent w" and i0: "inv (u_ops u) w u" using r by (simp_all add: reqinv_def)
  note i = inv_grouped [OF i0]
  have ne: "\<forall>g \<in> set (group_ops (u_ops u)). snd g \<noteq> []" using group_ops_nonempty [of "[]"] by (simp add: group_ops_def)
  obtain q w1 u1 where g: "run_state (run_groups e (group_ops (u_ops u))) (w, u) = (q, w1, u1)" by (metis prod_cases3)
  note st = run_groups_step [OF i ne g]
  have same: "u_user_id u1 = u_user_id u" "store_tables u1 = store_tables u" using st store_tables_cong by auto
  have t: "touches (u_user_id u) (store_tables u) w w1" using st by simp
  show ?thesis
  proof (cases q)
    case (Inl x)
    then have c: "run_state (Commit e) (w, u) = (Inl x, w1, u1)" using g by (simp add: Commit_def)
    show ?thesis by (rule failed_commit [OF r del run c _ t]) (use st Inl in simp_all)
  next
    case (Inr y)
    then have i1: "inv [] w1 u1" using st by simp
    obtain z w2 u2 where z: "run_state (update_caches e) (w1, u1\<lparr>u_ops := []\<rparr>) = (z, w2, u2)" by (metis prod_cases3)
    have c: "run_state (Commit e) (w, u) = (z, w2, u2)" using g Inr z by (simp add: Commit_def)
    show ?thesis
    proof (cases z)
      case (Inl x)
      note no = update_caches_failed [OF z [unfolded Inl]]
      show ?thesis by (rule failed_commit [OF r del run c [unfolded Inl] _ t]) (use no same in simp_all)
    next
      case (Inr v)
      then have "w' = w2" "res = Inr ()" using run c by (simp_all add: CommitOrRollback_def)
      with update_caches_coherent [OF co _ i1 z [unfolded Inr]] t same show ?thesis by simp
    qed
  qed
qed

text \<open>A write queued for a database that is nil ends the request in a panic before anything is
  written.\<close>

lemma CommitOrRollback_nil:
  assumes "u_ops u = [(None, f)]" and "run_state (CommitOrRollback e) (w, u) = (res, w', u')"
  shows "w' = w"
  using assms by (auto simp: CommitOrRollback_def Commit_def group_ops_def Transaction_def commit_error_def)

end
