(* ===== verification/GameServices.thy ===== *)
theory GameServices
  imports Uow
begin

text \<open>
  The services of \<^verbatim>\<open>internal/service\<close> and the action handlers of \<^verbatim>\<open>internal/handler\<close>:
  accounts, assets, items, cards, the shop list and the login.  A handler gets the decoded request
  message and gives the response message; messages are the protobuf messages as values.
\<close>

section \<open>Objects\<close>

fun on_asset :: "(asset \<Rightarrow> asset) \<Rightarrow> gmodel \<Rightarrow> gmodel" where
  "on_asset f (MAsset x) = MAsset (f x)"
| "on_asset f m = m"

fun on_item :: "(item \<Rightarrow> item) \<Rightarrow> gmodel \<Rightarrow> gmodel" where
  "on_item f (MItem x) = MItem (f x)"
| "on_item f m = m"

fun on_card :: "(card \<Rightarrow> card) \<Rightarrow> gmodel \<Rightarrow> gmodel" where
  "on_card f (MCard x) = MCard (f x)"
| "on_card f m = m"

fun on_account :: "(account \<Rightarrow> account) \<Rightarrow> gmodel \<Rightarrow> gmodel" where
  "on_account f (MAccount x) = MAccount (f x)"
| "on_account f m = m"

definition modify_object :: "nat \<Rightarrow> (gmodel \<Rightarrow> gmodel) \<Rightarrow> ('b, unit) game" where
  "modify_object a f = modify_uow (\<lambda>u. u\<lparr>u_heap := (u_heap u)[a := f (u_heap u ! a)]\<rparr>)"

section \<open>Assets\<close>

fun is_asset :: "uint32 \<Rightarrow> gmodel \<Rightarrow> bool" where
  "is_asset i (MAsset x) \<longleftrightarrow> as_asset_id x = i"
| "is_asset i _ \<longleftrightarrow> False"

fun asset_quantity :: "gmodel \<Rightarrow> int64" where
  "asset_quantity (MAsset x) = as_quantity x"
| "asset_quantity _ = 0"

definition GetAsset :: "env \<Rightarrow> uint32 \<Rightarrow> ('b, go_error + nat option) game" where
  "GetAsset e i = do {
     r \<leftarrow> Assets e;
     case r of
       Inl x \<Rightarrow> State_Monad.return (Inl x)
     | Inr as \<Rightarrow> gets (\<lambda>w u. Inr (find (\<lambda>a. is_asset i (u_heap u ! a)) as)) }"

definition AddAsset :: "env \<Rightarrow> uint32 \<Rightarrow> int64 \<Rightarrow> ('b, go_error + unit) game" where
  "AddAsset e i q = do {
     r \<leftarrow> GetAsset e i;
     case r of
       Inl x \<Rightarrow> State_Monad.return (Inl x)
     | Inr p \<Rightarrow> do {
         now \<leftarrow> clock_now e;
         case p of
           None \<Rightarrow> do {
             uid \<leftarrow> gets (\<lambda>w u. u_user_id u);
             a \<leftarrow> new_object (MAsset \<lparr>as_idx = 0, as_user_id = uid, as_asset_id = i, as_quantity = q,
                    as_last_recharge_time = 0, as_insert_time = now, as_update_time = now\<rparr>);
             Create e EntityAssets a;
             State_Monad.return (Inr ()) }
         | Some a \<Rightarrow> do {
             modify_object a (on_asset (\<lambda>x. x\<lparr>as_quantity := as_quantity x + q, as_update_time := now\<rparr>));
             Update e EntityAssets a;
             State_Monad.return (Inr ()) } } }"

definition ConsumeAsset :: "env \<Rightarrow> uint32 \<Rightarrow> int64 \<Rightarrow> ('b, go_error + unit) game" where
  "ConsumeAsset e i q = do {
     r \<leftarrow> GetAsset e i;
     case r of
       Inl x \<Rightarrow> State_Monad.return (Inl x)
     | Inr None \<Rightarrow> State_Monad.return (Inl (Coded 3001 (''asset not found: asset_id='' @ dec (unat i))))
     | Inr (Some a) \<Rightarrow> do {
         have' \<leftarrow> gets (\<lambda>w u. asset_quantity (u_heap u ! a));
         if sint have' < sint q then
           State_Monad.return (Inl (Coded 3002
             (''insufficient asset: have '' @ dec_int (sint have') @ '', need '' @ dec_int (sint q))))
         else do {
           now \<leftarrow> clock_now e;
           modify_object a (on_asset (\<lambda>x. x\<lparr>as_quantity := as_quantity x - q, as_update_time := now\<rparr>));
           Update e EntityAssets a;
           State_Monad.return (Inr ()) } } }"

section \<open>Items\<close>

fun is_item :: "uint32 \<Rightarrow> gmodel \<Rightarrow> bool" where
  "is_item i (MItem x) \<longleftrightarrow> it_item_id x = i"
| "is_item i _ \<longleftrightarrow> False"

fun item_amount :: "gmodel \<Rightarrow> uint64" where
  "item_amount (MItem x) = it_amount x"
| "item_amount _ = 0"

definition GetItem :: "env \<Rightarrow> uint32 \<Rightarrow> ('b, go_error + nat option) game" where
  "GetItem e i = do {
     r \<leftarrow> Items e;
     case r of
       Inl x \<Rightarrow> State_Monad.return (Inl x)
     | Inr as \<Rightarrow> gets (\<lambda>w u. Inr (find (\<lambda>a. is_item i (u_heap u ! a)) as)) }"

definition AddItem :: "env \<Rightarrow> uint32 \<Rightarrow> uint64 \<Rightarrow> ('b, go_error + unit) game" where
  "AddItem e i n = do {
     r \<leftarrow> GetItem e i;
     case r of
       Inl x \<Rightarrow> State_Monad.return (Inl x)
     | Inr p \<Rightarrow> do {
         now \<leftarrow> clock_now e;
         case p of
           Some a \<Rightarrow> do {
             modify_object a (on_item (\<lambda>x. x\<lparr>it_amount := it_amount x + n, it_update_time := now\<rparr>));
             Update e EntityItems a;
             State_Monad.return (Inr ()) }
         | None \<Rightarrow> do {
             d \<leftarrow> gets (\<lambda>w u. design_Find (ct_item (u_catalog u)) (sint i));
             case d of
               None \<Rightarrow> State_Monad.return (Inl (Coded 4002 (''not found design item. item_id('' @ dec (unat i) @ '')'')))
             | Some di \<Rightarrow> do {
                 uid \<leftarrow> gets (\<lambda>w u. u_user_id u);
                 a \<leftarrow> new_object (MItem \<lparr>it_idx = 0, it_user_id = uid, it_item_type = of_int (id_item_type di),
                        it_item_id = i, it_amount = n, it_insert_time = now, it_update_time = now\<rparr>);
                 Create e EntityItems a;
                 State_Monad.return (Inr ()) } } } }"

definition ConsumeItem :: "env \<Rightarrow> uint32 \<Rightarrow> uint64 \<Rightarrow> ('b, go_error + unit) game" where
  "ConsumeItem e i n = do {
     r \<leftarrow> GetItem e i;
     case r of
       Inl x \<Rightarrow> State_Monad.return (Inl x)
     | Inr None \<Rightarrow> State_Monad.return (Inl (Coded 3101 (''not found item. item_id('' @ dec (unat i) @ '')'')))
     | Inr (Some a) \<Rightarrow> do {
         have' \<leftarrow> gets (\<lambda>w u. item_amount (u_heap u ! a));
         if have' < n then
           State_Monad.return (Inl (Coded 3102
             (''not enough item. item_id('' @ dec (unat i) @ ''), amount('' @ dec (unat n) @ '')'')))
         else do {
           now \<leftarrow> clock_now e;
           modify_object a (on_item (\<lambda>x. x\<lparr>it_amount := it_amount x - n, it_update_time := now\<rparr>));
           Update e EntityItems a;
           State_Monad.return (Inr ()) } } }"

section \<open>Cards\<close>

fun is_card :: "uint64 \<Rightarrow> gmodel \<Rightarrow> bool" where
  "is_card i (MCard x) \<longleftrightarrow> cr_idx x = i"
| "is_card i _ \<longleftrightarrow> False"

definition GetCard :: "env \<Rightarrow> uint64 \<Rightarrow> ('b, go_error + nat option) game" where
  "GetCard e i = do {
     r \<leftarrow> Cards e;
     case r of
       Inl x \<Rightarrow> State_Monad.return (Inl x)
     | Inr as \<Rightarrow> gets (\<lambda>w u. Inr (find (\<lambda>a. is_card i (u_heap u ! a)) as)) }"

section \<open>Accounts\<close>

fun is_channel :: "uint64 \<Rightarrow> gmodel \<Rightarrow> bool" where
  "is_channel c (MAccount x) \<longleftrightarrow> ac_channel_uid x = c \<and> 0 < ac_is_active x"
| "is_channel c _ \<longleftrightarrow> False"

definition FindUserIdByChannelUID :: "env \<Rightarrow> uint64 \<Rightarrow> ('b, go_error + uint64 option) game" where
  "FindUserIdByChannelUID e c = do {
     k \<leftarrow> outside;
     rows \<leftarrow> gets (\<lambda>w u. gt_rows (w_db w GameDBShardID ''TB_ACCOUNT''));
     State_Monad.return
       (case en_fault e k of
          Some x \<Rightarrow> Inl (Other x)
        | None \<Rightarrow> Inr (map_option user_column (find (is_channel c) rows))) }"

definition account_PickShard :: "env \<Rightarrow> ('b, go_error + int) game" where
  "account_PickShard e = do {
     k \<leftarrow> outside;
     State_Monad.return
       (case PickShard (en_rand e k mod rg_total (en_shards e)) (en_shards e) of
          None \<Rightarrow> Inl (Other ''database: no shard available for user assignment'')
        | Some i \<Rightarrow> Inr i) }"

definition account_Login :: "env \<Rightarrow> uint64 \<Rightarrow> string \<Rightarrow> ('b, go_error + nat \<times> bool) game" where
  "account_Login e c device = do {
     r \<leftarrow> FindUserIdByChannelUID e c;
     case r of
       Inl x \<Rightarrow> State_Monad.return (Inl x)
     | Inr found \<Rightarrow> do {
         now \<leftarrow> clock_now e;
         case found of
           None \<Rightarrow> do {
             p \<leftarrow> account_PickShard e;
             case p of
               Inl x \<Rightarrow> State_Monad.return (Inl x)
             | Inr sid \<Rightarrow> do {
                 a \<leftarrow> new_object (MAccount \<lparr>ac_user_id = 0, ac_channel_uid = c, ac_device_id = device,
                        ac_is_active = 1, ac_db_shard_id = sid, ac_insert_time = now, ac_update_time = now\<rparr>);
                 n \<leftarrow> CreateNow e EntityAccount a;
                 State_Monad.return (case n of Inl x \<Rightarrow> Inl x | Inr _ \<Rightarrow> Inr (a, True)) } }
         | Some uid \<Rightarrow> do {
             SetUserID uid;
             q \<leftarrow> Account e;
             case q of
               Inl x \<Rightarrow> State_Monad.return (Inl x)
             | Inr a \<Rightarrow> do {
                 modify_object a (on_account (\<lambda>x. x\<lparr>ac_device_id := device, ac_update_time := now\<rparr>));
                 Update e EntityAccount a;
                 State_Monad.return (Inr (a, False)) } } } }"

section \<open>Sessions\<close>

text \<open>\<^verbatim>\<open>Set\<close> issues a token and replaces the session; \<^verbatim>\<open>VerifyAndRefresh\<close> compares.  A
  session whose time is over is absent.\<close>

definition session_Set :: "env \<Rightarrow> uint64 \<Rightarrow> ('b, go_error + string) game" where
  "session_Set e uid = do {
     k \<leftarrow> outside;
     case en_fault e k of
       Some x \<Rightarrow> State_Monad.return (Inl (Other (''user session set: '' @ x)))
     | None \<Rightarrow> do {
         modify_world (\<lambda>w. w\<lparr>w_session := (w_session w)(uid \<mapsto> en_token e k)\<rparr>);
         State_Monad.return (Inr (en_token e k)) } }"

definition VerifyAndRefresh :: "env \<Rightarrow> uint64 \<Rightarrow> string \<Rightarrow> ('b, go_error + bool) game" where
  "VerifyAndRefresh e uid token =
     (if token = [] then State_Monad.return (Inr False)
      else do {
        k \<leftarrow> outside;
        s \<leftarrow> gets (\<lambda>w u. w_session w uid);
        State_Monad.return (case en_fault e k of Some x \<Rightarrow> Inl (Other x) | None \<Rightarrow> Inr (s = Some token)) })"

section \<open>Responses\<close>

record asset_data =
  asd_idx :: uint64
  asd_asset_id :: uint32
  asd_amount :: int64
  asd_last_recharge_time :: int64

record item_data =
  itd_idx :: uint64
  itd_item_type :: uint32
  itd_item_id :: uint32
  itd_amount :: uint64

record card_data =
  cad_idx :: uint64
  cad_user_id :: uint64
  cad_card_id :: uint32
  cad_two_way_idx :: uint64
  cad_level_break_step :: uint32
  cad_level_break_cur_material :: uint32
  cad_limit_break_level :: uint32
  cad_limit_break_exp :: uint32
  cad_level :: uint32
  cad_exp :: uint32
  cad_exp_exceed :: uint32
  cad_theme_id :: uint32
  cad_extra_theme_id :: uint32
  cad_is_lock :: uint32
  cad_skill :: "skill_data list"
  cad_potential_list :: "(uint32 \<times> uint32) list"
  cad_enhance_card_idx :: uint64

record shop_data =
  shd_idx :: uint32
  shd_shop_id :: uint32
  shd_type :: uint32
  shd_open_time :: int
  shd_close_time :: int
  shd_asset_id :: uint32
  shd_show_flag :: uint32
  shd_price :: uint32
  shd_shop_type :: uint32
  shd_ticker :: uint32

fun toAssetData :: "gmodel \<Rightarrow> asset_data list" where
  "toAssetData (MAsset a) = [\<lparr>asd_idx = as_idx a, asd_asset_id = as_asset_id a, asd_amount = as_quantity a,
     asd_last_recharge_time = as_last_recharge_time a\<rparr>]"
| "toAssetData _ = []"

fun toItemData :: "gmodel \<Rightarrow> item_data list" where
  "toItemData (MItem i) = [\<lparr>itd_idx = it_idx i, itd_item_type = ucast (it_item_type i),
     itd_item_id = it_item_id i, itd_amount = it_amount i\<rparr>]"
| "toItemData _ = []"

definition toPbSkills :: "skill_data option list \<Rightarrow> skill_data list" where
  "toPbSkills src = List.map_filter id src"

fun toCardData :: "gmodel \<Rightarrow> card_data list" where
  "toCardData (MCard c) = [\<lparr>cad_idx = cr_idx c, cad_user_id = cr_user_id c, cad_card_id = cr_card_id c,
     cad_two_way_idx = cr_two_way_idx c, cad_level_break_step = ucast (cr_level_break_step c),
     cad_level_break_cur_material = ucast (cr_level_break_cur_material c),
     cad_limit_break_level = ucast (cr_limit_break_level c), cad_limit_break_exp = cr_limit_break_exp c,
     cad_level = ucast (cr_level c), cad_exp = cr_exp c, cad_exp_exceed = cr_exp_exceed c,
     cad_theme_id = ucast (cr_theme_id c), cad_extra_theme_id = ucast (cr_extra_theme_id c),
     cad_is_lock = ucast (cr_is_lock c), cad_skill = toPbSkills (cr_skill c),
     cad_potential_list = cr_potential_list c, cad_enhance_card_idx = cr_enhance_card_idx c\<rparr>]"
| "toCardData _ = []"

definition toShopData :: "shop_design \<Rightarrow> shop_data" where
  "toShopData s = \<lparr>shd_idx = of_int (sd_idx s), shd_shop_id = of_int (sd_shop_id s), shd_type = of_int (sd_type s),
     shd_open_time = sd_open_time s, shd_close_time = sd_close_time s, shd_asset_id = of_int (sd_currency_id s),
     shd_show_flag = of_int (sd_show_flag s), shd_price = of_int (sd_price s),
     shd_shop_type = of_int (sd_shop_type s), shd_ticker = of_int (sd_ticker s)\<rparr>"

datatype message =
    LoginResponse uint64 uint64 bool string
  | GetAssetsResponse "asset_data list"
  | GetItemsResponse "item_data list"
  | GetCardsResponse "card_data list"
  | UpgradeCardLevelResponse "card_data list"
  | GetShopListResponse "shop_data list"

section \<open>Handlers\<close>

definition handle_assets :: "env \<Rightarrow> ('b, go_error + message) game" where
  "handle_assets e = do {
     r \<leftarrow> Assets e;
     case r of
       Inl x \<Rightarrow> State_Monad.return (Inl x)
     | Inr as \<Rightarrow> gets (\<lambda>w u. Inr (GetAssetsResponse (concat (map (\<lambda>a. toAssetData (u_heap u ! a)) as)))) }"

definition handle_items :: "env \<Rightarrow> ('b, go_error + message) game" where
  "handle_items e = do {
     r \<leftarrow> Items e;
     case r of
       Inl x \<Rightarrow> State_Monad.return (Inl x)
     | Inr as \<Rightarrow> gets (\<lambda>w u. Inr (GetItemsResponse (concat (map (\<lambda>a. toItemData (u_heap u ! a)) as)))) }"

definition handle_cards :: "env \<Rightarrow> ('b, go_error + message) game" where
  "handle_cards e = do {
     r \<leftarrow> Cards e;
     case r of
       Inl x \<Rightarrow> State_Monad.return (Inl x)
     | Inr as \<Rightarrow> gets (\<lambda>w u. Inr (GetCardsResponse (concat (map (\<lambda>a. toCardData (u_heap u ! a)) as)))) }"

definition UpgradeCardLevel :: "env \<Rightarrow> uint64 option \<Rightarrow> ('b, go_error + message) game" where
  "UpgradeCardLevel e req =
     (case req of
        None \<Rightarrow> State_Monad.return (Inl (Coded 400 ''invalid request''))
      | Some i \<Rightarrow> do {
          r \<leftarrow> GetCard e i;
          case r of
            Inl x \<Rightarrow> State_Monad.return (Inl x)
          | Inr None \<Rightarrow> State_Monad.return (Inl (Coded 2001 (''not found card. idx('' @ dec (unat i) @ '')'')))
          | Inr (Some a) \<Rightarrow> do {
              modify_object a (on_card (\<lambda>x. x\<lparr>cr_level := cr_level x + 1\<rparr>));
              Update e EntityCards a;
              gets (\<lambda>w u. Inr (UpgradeCardLevelResponse (toCardData (u_heap u ! a)))) } })"

text \<open>The shops are listed in the order of Go's map, which is arbitrary.\<close>

definition GetShopList :: "env \<Rightarrow> ('b, go_error + message) game" where
  "GetShopList e = do {
     now \<leftarrow> clock_now e;
     gets (\<lambda>w u. Inr (GetShopListResponse (map toShopData
       (filter (\<lambda>v. sd_use_flag v \<noteq> 0 \<and> sd_open_time v \<le> now div 1000000000 \<and> now div 1000000000 < sd_close_time v)
         (map snd (ct_shop (u_catalog u))))))) }"

text \<open>What the login handler gives a new account.  A panic in \<^verbatim>\<open>ConsumeItem\<close> passes on; its errors are
  dropped.  The batter is only logged.\<close>

definition new_account_grants :: "env \<Rightarrow> ('b, go_error + unit) game" where
  "new_account_grants e = do {
     r1 \<leftarrow> AddAsset e 10000 100;
     case r1 of
       Inl x \<Rightarrow> State_Monad.return (Inl x)
     | Inr _ \<Rightarrow> do {
         r2 \<leftarrow> AddItem e 25000 5;
         case r2 of
           Inl x \<Rightarrow> State_Monad.return (Inl x)
         | Inr _ \<Rightarrow> do {
             r3 \<leftarrow> ConsumeItem e 25000 3;
             State_Monad.return (if r3 = Inl Panic then Inl Panic else Inr ()) } } }"

definition handle_Login :: "env \<Rightarrow> (uint64 \<times> string) option \<Rightarrow> ('b, go_error + message) game" where
  "handle_Login e req =
     (case req of
        None \<Rightarrow> State_Monad.return (Inl (Coded 400 ''invalid request''))
      | Some (c, device) \<Rightarrow>
          if c = 0 \<or> device = [] then
            State_Monad.return (Inl (Coded 400 ''channel_uid and device_id are required''))
          else do {
            l \<leftarrow> account_Login e c device;
            case l of
              Inl x \<Rightarrow> State_Monad.return (Inl x)
            | Inr (a, is_new) \<Rightarrow> do {
                g \<leftarrow> (if is_new then new_account_grants e else State_Monad.return (Inr ()));
                case g of
                  Inl x \<Rightarrow> State_Monad.return (Inl x)
                | Inr _ \<Rightarrow> do {
                    m \<leftarrow> gets (\<lambda>w u. u_heap u ! a);
                    t \<leftarrow> session_Set e (user_column m);
                    State_Monad.return
                      (case t of
                         Inl x \<Rightarrow> Inl (Coded 500 (''session set: '' @ error_text x))
                       | Inr token \<Rightarrow> Inr (LoginResponse (user_column m)
                           (case m of MAccount x \<Rightarrow> ac_channel_uid x | _ \<Rightarrow> 0) is_new token)) } } })"

end
