(* ===== verification/GameApi.thy ===== *)
theory GameApi
  imports GameServices
begin

text \<open>
  The single entry point of the game API, \<^verbatim>\<open>internal/handler/dispatch.go\<close>: routing by action and
  client version, the session check, the user lock, the handler, the commit and the changes sent
  back; with the lock of \<^verbatim>\<open>internal/cache/user_lock.go\<close> as one request meets it.  The decoded
  envelope is the input; decoding a request body is a parameter.  Logging is left out.
\<close>

section \<open>Actions\<close>

datatype action = ActLogin | ActGetCards | ActUpgradeCardLevel | ActGetItems | ActGetAssets | ActGetShopList

definition action_ids :: "(uint32 \<times> action) list" where
  "action_ids = [(1001, ActLogin), (2001, ActGetCards), (2002, ActUpgradeCardLevel), (3001, ActGetItems),
     (4001, ActGetAssets), (5001, ActGetShopList)]"

text \<open>Only the login is registered without authentication.\<close>

definition no_auth :: "action \<Rightarrow> bool" where
  "no_auth a \<longleftrightarrow> a = ActLogin"

record game_request =
  gr_action :: uint32
  gr_user_id :: uint64
  gr_client_version :: string
  gr_session_token :: string
  gr_body :: string

record decoders =
  dc_login :: "string \<Rightarrow> (uint64 \<times> string) option"
  dc_upgrade :: "string \<Rightarrow> uint64 option"

definition run_action :: "env \<Rightarrow> decoders \<Rightarrow> action \<Rightarrow> string \<Rightarrow> ('b, go_error + message) game" where
  "run_action e dc a body =
     (case a of
        ActLogin \<Rightarrow> handle_Login e (dc_login dc body)
      | ActGetCards \<Rightarrow> handle_cards e
      | ActUpgradeCardLevel \<Rightarrow> UpgradeCardLevel e (dc_upgrade dc body)
      | ActGetItems \<Rightarrow> handle_items e
      | ActGetAssets \<Rightarrow> handle_assets e
      | ActGetShopList \<Rightarrow> GetShopList e)"

section \<open>The user lock\<close>

definition userLockMaxRetries :: nat where
  "userLockMaxRetries = 60"

text \<open>One attempt is \<^verbatim>\<open>SET NX\<close>; between attempts the holder may let the lock go or the time to live
  may end.  The first fault of a wait is the request being canceled.\<close>

fun acquire_loop :: "env \<Rightarrow> uint64 \<Rightarrow> string \<Rightarrow> nat \<Rightarrow> ('b, string option) game" where
  "acquire_loop e uid token 0 = State_Monad.return None"
| "acquire_loop e uid token (Suc n) = do {
     k \<leftarrow> outside;
     l \<leftarrow> gets (\<lambda>w u. w_lock w uid);
     if en_fault e k \<noteq> None then State_Monad.return None
     else if l = None \<or> en_freed e k then do {
       modify_world (\<lambda>w. w\<lparr>w_lock := (w_lock w)(uid \<mapsto> token)\<rparr>);
       State_Monad.return (Some token) }
     else do {
       k' \<leftarrow> outside;
       if en_fault e k' \<noteq> None then State_Monad.return None else acquire_loop e uid token n } }"

definition lock_Acquire :: "env \<Rightarrow> uint64 \<Rightarrow> ('b, string option) game" where
  "lock_Acquire e uid = do {
     k \<leftarrow> outside;
     acquire_loop e uid (en_token e k) userLockMaxRetries }"

text \<open>The script deletes the key only if it still holds the token.\<close>

definition lock_Release :: "env \<Rightarrow> uint64 \<Rightarrow> string \<Rightarrow> ('b, unit) game" where
  "lock_Release e uid token = do {
     k \<leftarrow> outside;
     if en_fault e k = None
     then modify_world (\<lambda>w. if w_lock w uid = Some token then w\<lparr>w_lock := (w_lock w)(uid := None)\<rparr> else w)
     else State_Monad.return () }"

section \<open>Replies\<close>

record sync_data =
  sy_items :: "item_data list"
  sy_assets :: "asset_data list"

text \<open>The changed objects in the order they were marked; Go's order is that of a map.\<close>

definition BuildSyncData :: "'b uow \<Rightarrow> sync_data option" where
  "BuildSyncData u =
     (if u_dirty u = [] then None
      else Some \<lparr>sy_items = concat (map (\<lambda>a. toItemData (u_heap u ! a)) (u_dirty u)),
                 sy_assets = concat (map (\<lambda>a. toAssetData (u_heap u ! a)) (u_dirty u))\<rparr>)"

text \<open>A game reply carries a code and a message or an error text; a panic ends in the recover
  middleware, outside the protocol.\<close>

datatype game_reply =
    GameOK message "sync_data option"
  | GameError int string
  | HttpPanic

section \<open>Dispatch\<close>

text \<open>The part after the lock: a new unit of work, the handler, the commit.\<close>

definition serve_action :: "env \<Rightarrow> decoders \<Rightarrow> action \<Rightarrow> string \<Rightarrow> ('b, game_reply) game" where
  "serve_action e dc a body = do {
     r \<leftarrow> run_action e dc a body;
     case r of
       Inl (Coded c m) \<Rightarrow> State_Monad.return (GameError c m)
     | Inl Panic \<Rightarrow> State_Monad.return HttpPanic
     | Inl _ \<Rightarrow> State_Monad.return (GameError 500 ''handler error'')
     | Inr msg \<Rightarrow> do {
         x \<leftarrow> CommitOrRollback e;
         case x of
           Inl Panic \<Rightarrow> State_Monad.return HttpPanic
         | Inl _ \<Rightarrow> State_Monad.return (GameError 500 ''commit failed'')
         | Inr _ \<Rightarrow> gets (\<lambda>w u. GameOK msg (BuildSyncData u)) } }"

definition with_lock :: "env \<Rightarrow> uint64 \<Rightarrow> ('b, game_reply) game \<Rightarrow> ('b, game_reply) game" where
  "with_lock e uid act =
     (if uid \<noteq> 0 then do {
        l \<leftarrow> lock_Acquire e uid;
        case l of
          None \<Rightarrow> State_Monad.return (GameError 429 ''busy, retry later'')
        | Some token \<Rightarrow> do {
            r \<leftarrow> act;
            lock_Release e uid token;
            State_Monad.return r } }
      else act)"

text \<open>The result of the session check: None lets the request through.\<close>

definition check_session :: "env \<Rightarrow> action \<Rightarrow> game_request \<Rightarrow> ('b, game_reply option) game" where
  "check_session e a req =
     (if no_auth a then State_Monad.return None
      else if gr_user_id req = 0 \<or> gr_session_token req = [] then
        State_Monad.return (Some (GameError 401 ''missing session''))
      else do {
        v \<leftarrow> VerifyAndRefresh e (gr_user_id req) (gr_session_token req);
        State_Monad.return (case v of
            Inl _ \<Rightarrow> Some (GameError 500 ''session check failed'')
          | Inr ok \<Rightarrow> if ok then None else Some (GameError 401 ''invalid or expired session'')) })"

text \<open>None is a body that is not an envelope.\<close>

definition dispatch ::
  "env \<Rightarrow> decoders \<Rightarrow> 'b design_store \<Rightarrow> game_request option \<Rightarrow> world \<Rightarrow> game_reply \<times> world" where
  "dispatch e dc ds envelope w =
     (case envelope of
        None \<Rightarrow> (GameError 400 ''invalid envelope'', w)
      | Some req \<Rightarrow>
          (case map_of action_ids (gr_action req) of
             None \<Rightarrow> (GameError 400 ''unknown action'', w)
           | Some a \<Rightarrow>
               (case GetByClientVersion ds (gr_client_version req) of
                  None \<Rightarrow> (GameError 4001 ''unsupported client_version'', w)
                | Some c \<Rightarrow>
                    (case run_state
                        (do {
                           refusal \<leftarrow> check_session e a req;
                           case refusal of
                             Some r \<Rightarrow> State_Monad.return r
                           | None \<Rightarrow> with_lock e (gr_user_id req) (serve_action e dc a (gr_body req)) })
                        (w, New (gr_user_id req) c) of
                       (r, (w', u')) \<Rightarrow> (r, w')))))"

end
