(* ===== verification/GameCoherence.thy ===== *)
theory GameCoherence
  imports GameApi UowCoherence
begin

text \<open>
  The services, the handlers and the dispatcher over the invariant of the request: after every request,
  whatever fails, the user cache holds only what the databases hold.
\<close>

section \<open>Services\<close>

lemma pick_loop_in: "pick_loop r ws = Some i \<Longrightarrow> i \<in> ws_id ` set ws"
  by (induction r ws rule: pick_loop.induct) (auto split: if_splits)

lemma pool_registered: "s \<in> set (rg_pool (register_all cfg)) \<Longrightarrow> GetShard (ws_id s) (register_all cfg) \<noteq> None"
proof (induction cfg arbitrary: s rule: rev_induct)
  case Nil
  then show ?case by (simp add: register_all_def new_registry_def)
next
  case (snoc x cfg)
  obtain i d w where x: "x = (i, d, w)" by (cases x)
  have r: "register_all (cfg @ [x]) = RegisterShard i d w (register_all cfg)" by (simp add: register_all_def x)
  have "GetShard j (register_all cfg) \<noteq> None \<Longrightarrow> GetShard j (register_all (cfg @ [x])) \<noteq> None" for j
    by (auto simp: r RegisterShard_def GetShard_def update_conv' Let_def)
  moreover have "GetShard i (register_all (cfg @ [x])) \<noteq> None"
    by (auto simp: r RegisterShard_def GetShard_def update_conv' Let_def)
  moreover have "s \<in> set (rg_pool (register_all cfg)) \<or> ws_id s = i"
    using snoc.prems by (auto simp: r RegisterShard_def Let_def split: if_splits)
  ultimately show ?case using snoc.IH [of s] by auto
qed

lemma pick_registered:
  assumes "PickShard r (register_all cfg) = Some i"
  shows "GetShard i (register_all cfg) \<noteq> None"
proof -
  let ?rg = "register_all cfg"
  have "rg_total ?rg \<noteq> 0" using assms by (auto simp: PickShard_def split: if_splits)
  then have "rg_pool ?rg \<noteq> []" using register_pool [of cfg] by (cases "weights cfg") auto
  then have "i \<in> ws_id ` set (rg_pool ?rg)"
    using assms pick_loop_in by (fastforce simp: PickShard_def split: if_splits option.splits)
  with pool_registered [of _ cfg] show ?thesis by auto
qed

lemma keys_on [simp]:
  "(\<And>x. as_idx (f x) = as_idx x \<and> as_user_id (f x) = as_user_id x) \<Longrightarrow> keys (on_asset f m) = keys m"
  "(\<And>x. it_idx (g x) = it_idx x \<and> it_user_id (g x) = it_user_id x) \<Longrightarrow> keys (on_item g m) = keys m"
  "(\<And>x. cr_idx (h x) = cr_idx x \<and> cr_user_id (h x) = cr_user_id x) \<Longrightarrow> keys (on_card h m) = keys m"
  "(\<And>x. ac_user_id (j x) = ac_user_id x \<and> ac_db_shard_id (j x) = ac_db_shard_id x) \<Longrightarrow> keys (on_account j m) = keys m"
  by (cases m; simp add: keys_def)+

lemma run_modify_object [simp]:
  "run_state (modify_object a f) (w, u) = ((), w, u\<lparr>u_heap := (u_heap u)[a := f (u_heap u ! a)]\<rparr>)"
  by (simp add: modify_object_def)

text \<open>Changing a stored object and queuing its update.\<close>

lemma change_step:
  assumes r: "reqinv [] w u" and k: "(k, t) \<in> set entity_tables" and st: "map_of (u_store u) (ek_name k) = Some st"
    and a: "a \<in> set (addrs st)" and f: "keys (f (u_heap u ! a)) = keys (u_heap u ! a)"
    and run: "run_state (Update e k a) (w, u\<lparr>u_heap := (u_heap u)[a := f (u_heap u ! a)]\<rparr>) = (res, w', u')"
  shows "(reqinv [] w' u' \<or> \<not> ek_is_game k \<and> \<not> home_ok e u \<and> coherent w' \<and> db_inv w' \<and> u_ops u' = u_ops u @ [(None, UpdateOp a)])
    \<and> (home_ok e u \<longrightarrow> home_ok e u')"
proof -
  let ?u = "u\<lparr>u_heap := (u_heap u)[a := f (u_heap u ! a)]\<rparr>"
  have m: "reqinv [(db_of w k (u_user_id ?u), UpdateOp a)] w ?u" "home_ok e u \<longrightarrow> home_ok e ?u"
    using modify_step [where e = e and g = f, OF r k st a f refl] by simp_all
  from Update_step [OF m(1) run] m(2) show ?thesis by auto
qed

lemma loaded_many:
  assumes "reqinv V w u" and "run_state (LoadList e k t) (w, u) = (Inr as, w', u')"
    and "(k, t) \<in> set entity_tables" and "k \<noteq> EntityAccount"
  shows "reqinv V w' u' \<and> grows w u w' u' \<and> map_of (u_store u') (ek_name k) = Some (Many as)"
  using LoadList_step [OF assms(1,2) assms(3,4)] by simp

text \<open>
  The services on a list of entities share one contract: they load the list, pick one object by its id,
  and may change it.  What they rely on is that loading is \<open>LoadList\<close> of a kind that is not the account.
\<close>

locale entity_list =
  fixes kind :: entity_kind
    and table :: string
    and select :: "'i \<Rightarrow> gmodel \<Rightarrow> bool"
    and get :: "env \<Rightarrow> 'i \<Rightarrow> ('b, go_error + nat option) game"
  assumes kind: "(kind, table) \<in> set entity_tables" "kind \<noteq> EntityAccount"
    and get: "get e i = do {
      r \<leftarrow> LoadList e kind table;
      case r of
        Inl x \<Rightarrow> State_Monad.return (Inl x)
      | Inr as \<Rightarrow> gets (\<lambda>w u. Inr (find (\<lambda>a. select i (u_heap u ! a)) as)) }"
begin

lemma get_step:
  assumes "reqinv V w u" and "run_state (get e i) (w, u) = (res, w', u')"
  shows "reqinv V w' u' \<and> grows w u w' u'
    \<and> (\<forall>p. res = Inr p \<longrightarrow> (\<exists>as. map_of (u_store u') (ek_name kind) = Some (Many as) \<and> (\<forall>a. p = Some a \<longrightarrow> a \<in> set as)))"
  using assms(2) LoadList_step [OF assms(1) _ kind, of e]
  by (auto simp: get find_Some_iff split: prod.splits sum.splits)

lemma get_selects:
  assumes "run_state (get e i) (w, u) = (Inr (Some a), w', u')"
  shows "select i (u_heap u' ! a)"
  using assms by (auto simp: get find_Some_iff split: prod.splits sum.splits)

text \<open>Changing the object that was found and queuing its update.\<close>

lemma change_found:
  assumes r: "reqinv [] w u" and g: "run_state (get e i) (w, u) = (Inr (Some a), w1, u1)"
    and f: "keys (f (u_heap u1 ! a)) = keys (u_heap u1 ! a)"
    and up: "run_state (Update e kind a) (w1\<lparr>w_tick := n\<rparr>, u1\<lparr>u_heap := (u_heap u1)[a := f (u_heap u1 ! a)]\<rparr>) = (z, w', u')"
  shows "reqinv [] w' u' \<or> \<not> home_ok e u \<and> coherent w' \<and> db_inv w' \<and> u_ops u' = u_ops u @ [(None, UpdateOp a)]"
    and "home_ok e u \<Longrightarrow> reqinv [] w' u' \<and> home_ok e u'"
    and "a < length (u_heap u1)" "select i (u_heap u1 ! a)" "u_heap u' ! a = f (u_heap u1 ! a)"
    and "\<forall>b < length (u_heap u1). b \<noteq> a \<longrightarrow> u_heap u' ! b = u_heap u1 ! b"
    and "w_db w' = w_db w" "u_user_id u' = u_user_id u"
proof -
  note st = get_step [OF r g]
  then obtain as where as: "map_of (u_store u1) (ek_name kind) = Some (Many as)" "a \<in> set as" by blast
  let ?w = "w1\<lparr>w_tick := n\<rparr>" and ?u = "u1\<lparr>u_heap := (u_heap u1)[a := f (u_heap u1 ! a)]\<rparr>"
  have r1: "reqinv [] ?w u1" using st tick_reqinv [of ?w w1 "[]" u1] by simp
  have s1: "u_ops u1 = u_ops u" "w_db w1 = w_db w" "u_user_id u1 = u_user_id u" using st by (simp_all add: grows_def)
  have h1: "home_ok e u \<Longrightarrow> home_ok e u1" using st home_ok_grows by blast
  have "inv (u_ops u1) ?w u1" using r1 by (simp add: reqinv_def)
  from stored_entity [OF this as(1) kind(1)] have "entity_ok ?w u1 (u_ops u1) kind table as" by simp
  with as(2) show a: "a < length (u_heap u1)" unfolding entity_ok_def by blast
  show "select i (u_heap u1 ! a)" by (rule get_selects [OF g])
  have mem: "a \<in> set (addrs (Many as))" using as(2) by simp
  have game: "\<not> ek_is_game kind" using entity_game(1) [OF kind(1)] kind(2) by simp
  from change_step [where f = f, OF r1 kind(1) as(1) mem f up] game s1 h1
  show "reqinv [] w' u' \<or> \<not> home_ok e u \<and> coherent w' \<and> db_inv w' \<and> u_ops u' = u_ops u @ [(None, UpdateOp a)]"
    and "home_ok e u \<Longrightarrow> reqinv [] w' u' \<and> home_ok e u'" by auto
  have m: "reqinv [(db_of ?w kind (u_user_id ?u), UpdateOp a)] ?w ?u"
    using modify_step [where g = f, OF r1 kind(1) as(1) mem f refl] by simp
  obtain db where d: "u_ops u' = u_ops ?u @ [(db, UpdateOp a)]" "prefix (u_heap ?u) (u_heap u')" "u_user_id u' = u_user_id ?u"
    "w_db w' = w_db ?w" "\<forall>f v. map_of (u_store ?u) f = Some v \<longrightarrow> map_of (u_store u') f = Some v"
    "db \<noteq> None \<longrightarrow> reqinv [] w' u'" by (rule Update_result [OF m up])
  show "u_heap u' ! a = f (u_heap u1 ! a)" "\<forall>b < length (u_heap u1). b \<noteq> a \<longrightarrow> u_heap u' ! b = u_heap u1 ! b"
    using d(2) a by (auto simp: prefix_def nth_append)
  show "w_db w' = w_db w" "u_user_id u' = u_user_id u" using d(3,4) s1 by simp_all
qed

end

interpretation assets: entity_list EntityAssets "''TB_ASSET''" is_asset GetAsset
  by unfold_locales (simp_all add: GetAsset_def Assets_def)

interpretation items: entity_list EntityItems "''TB_ITEM''" is_item GetItem
  by unfold_locales (simp_all add: GetItem_def Items_def)

interpretation cards: entity_list EntityCards "''TB_CARD''" is_card GetCard
  by unfold_locales (simp_all add: GetCard_def Cards_def)

text \<open>Whatever a service meets, it leaves the request in order, when the account's shard is known.\<close>

lemma AddAsset_step:
  assumes r: "reqinv [] w u" and h: "home_ok e u" and run: "run_state (AddAsset e i q) (w, u) = (res, w', u')"
  shows "reqinv [] w' u' \<and> home_ok e u'"
proof -
  obtain g w1 u1 where g: "run_state (GetAsset e i) (w, u) = (g, w1, u1)" by (rule prod_cases3)
  note st = assets.get_step [OF r g]
  have h1: "home_ok e u1" using st home_ok_grows h by blast
  show ?thesis
  proof (cases g)
    case (Inl x)
    then show ?thesis using run g st h1 by (simp add: AddAsset_def)
  next
    case (Inr p)
    let ?w = "w1\<lparr>w_tick := Suc (w_tick w1)\<rparr>"
    have r1: "reqinv [] ?w u1" using tick_reqinv [of ?w w1 "[]" u1] st by simp
    from st Inr obtain as where as: "map_of (u_store u1) (ek_name EntityAssets) = Some (Many as)"
      "\<forall>a. p = Some a \<longrightarrow> a \<in> set as" by blast
    show ?thesis
    proof (cases p)
      case None
      let ?m = "MAsset \<lparr>as_idx = 0, as_user_id = u_user_id u1, as_asset_id = i, as_quantity = q,
        as_last_recharge_time = 0, as_insert_time = en_now e (w_tick w1), as_update_time = en_now e (w_tick w1)\<rparr>"
      obtain z w2 u2 where c: "run_state (Create e EntityAssets (length (u_heap u1))) (?w, u1\<lparr>u_heap := u_heap u1 @ [?m]\<rparr>) = (z, w2, u2)"
        by (rule prod_cases3)
      have "w' = w2 \<and> u' = u2" using run g Inr None c by (simp add: AddAsset_def)
      with Create_step [OF r1 _ _ as(1) _ _ h1 c, of "''TB_ASSET''"] show ?thesis by simp
    next
      case (Some a)
      let ?f = "on_asset (\<lambda>x. x\<lparr>as_quantity := as_quantity x + q, as_update_time := en_now e (w_tick w1)\<rparr>)"
      obtain z w2 u2 where c: "run_state (Update e EntityAssets a) (?w, u1\<lparr>u_heap := (u_heap u1)[a := ?f (u_heap u1 ! a)]\<rparr>) = (z, w2, u2)"
        by (rule prod_cases3)
      have "w' = w2 \<and> u' = u2" using run g Inr Some c by (simp add: AddAsset_def)
      then show ?thesis using assets.change_found(2) [where f = ?f, OF r g [unfolded Inr Some] _ c h] by simp
    qed
  qed
qed

lemma AddItem_step:
  assumes r: "reqinv [] w u" and h: "home_ok e u" and run: "run_state (AddItem e i n) (w, u) = (res, w', u')"
  shows "reqinv [] w' u' \<and> home_ok e u'"
proof -
  obtain g w1 u1 where g: "run_state (GetItem e i) (w, u) = (g, w1, u1)" by (rule prod_cases3)
  note st = items.get_step [OF r g]
  have h1: "home_ok e u1" using st home_ok_grows h by blast
  show ?thesis
  proof (cases g)
    case (Inl x)
    then show ?thesis using run g st h1 by (simp add: AddItem_def)
  next
    case (Inr p)
    let ?w = "w1\<lparr>w_tick := Suc (w_tick w1)\<rparr>"
    have r1: "reqinv [] ?w u1" using tick_reqinv [of ?w w1 "[]" u1] st by simp
    from st Inr obtain as where as: "map_of (u_store u1) (ek_name EntityItems) = Some (Many as)"
      "\<forall>a. p = Some a \<longrightarrow> a \<in> set as" by blast
    show ?thesis
    proof (cases p)
      case None
      show ?thesis
      proof (cases "design_Find (ct_item (u_catalog u1)) (sint i)")
        case no: None
        then have "w' = ?w \<and> u' = u1" using run g Inr None by (simp add: AddItem_def)
        with r1 h1 show ?thesis by simp
      next
        case (Some d)
        let ?m = "MItem \<lparr>it_idx = 0, it_user_id = u_user_id u1, it_item_type = of_int (id_item_type d), it_item_id = i,
          it_amount = n, it_insert_time = en_now e (w_tick w1), it_update_time = en_now e (w_tick w1)\<rparr>"
        obtain z w2 u2 where c: "run_state (Create e EntityItems (length (u_heap u1))) (?w, u1\<lparr>u_heap := u_heap u1 @ [?m]\<rparr>) = (z, w2, u2)"
          by (rule prod_cases3)
        have "w' = w2 \<and> u' = u2" using run g Inr None Some c by (simp add: AddItem_def)
        with Create_step [OF r1 _ _ as(1) _ _ h1 c, of "''TB_ITEM''"] show ?thesis by simp
      qed
    next
      case (Some a)
      let ?f = "on_item (\<lambda>x. x\<lparr>it_amount := it_amount x + n, it_update_time := en_now e (w_tick w1)\<rparr>)"
      obtain z w2 u2 where c: "run_state (Update e EntityItems a) (?w, u1\<lparr>u_heap := (u_heap u1)[a := ?f (u_heap u1 ! a)]\<rparr>) = (z, w2, u2)"
        by (rule prod_cases3)
      have "w' = w2 \<and> u' = u2" using run g Inr Some c by (simp add: AddItem_def)
      then show ?thesis using items.change_found(2) [where f = ?f, OF r g [unfolded Inr Some] _ c h] by simp
    qed
  qed
qed

lemma ConsumeItem_step:
  assumes r: "reqinv [] w u" and h: "home_ok e u" and run: "run_state (ConsumeItem e i n) (w, u) = (res, w', u')"
  shows "reqinv [] w' u' \<and> home_ok e u'"
proof -
  obtain g w1 u1 where g: "run_state (GetItem e i) (w, u) = (g, w1, u1)" by (rule prod_cases3)
  note st = items.get_step [OF r g]
  have h1: "home_ok e u1" using st home_ok_grows h by blast
  let ?w = "w1\<lparr>w_tick := Suc (w_tick w1)\<rparr>"
  show ?thesis
  proof (cases "\<exists>a. g = Inr (Some a) \<and> n \<le> item_amount (u_heap u1 ! a)")
    case False
    then have "w' = w1 \<and> u' = u1" using run g by (auto simp: ConsumeItem_def not_le split: sum.splits option.splits)
    with st h1 show ?thesis by simp
  next
    case True
    then obtain a where a: "g = Inr (Some a)" "\<not> item_amount (u_heap u1 ! a) < n" by auto
    let ?f = "on_item (\<lambda>x. x\<lparr>it_amount := it_amount x - n, it_update_time := en_now e (w_tick w1)\<rparr>)"
    obtain z w2 u2 where c: "run_state (Update e EntityItems a) (?w, u1\<lparr>u_heap := (u_heap u1)[a := ?f (u_heap u1 ! a)]\<rparr>) = (z, w2, u2)"
      by (rule prod_cases3)
    have "w' = w2 \<and> u' = u2" using run g a c by (simp add: ConsumeItem_def)
    then show ?thesis using items.change_found(2) [where f = ?f, OF r g [unfolded a(1)] _ c h] by simp
  qed
qed

section \<open>Accounts\<close>

definition good :: "world \<Rightarrow> bool" where
  "good w \<longleftrightarrow> coherent w \<and> db_inv w"

lemma reqinv_good: "reqinv V w u \<Longrightarrow> good w"
  by (simp add: good_def reqinv_def inv_def)

lemma good_cong: "w_db w' = w_db w \<Longrightarrow> w_cache w' = w_cache w \<Longrightarrow> good w' = good w"
  by (simp add: good_def coherent_cong [of w' w] db_inv_cong [of w' w])

lemma good_same: "good w \<Longrightarrow> w_db w' = w_db w \<Longrightarrow> w_cache w' = w_cache w \<Longrightarrow> good w'"
  by (simp add: good_cong [of w' w])

lemma good_tick: "good w \<Longrightarrow> good (w\<lparr>w_tick := n\<rparr>)"
  by (rule good_same) simp_all

lemma reqinv_empty: "good w \<Longrightarrow> u_store u = [] \<Longrightarrow> u_ops u = [] \<Longrightarrow> reqinv [] w u"
  by (simp add: good_def reqinv_def inv_def store_addrs_def)

text \<open>A new account: its row is the only one of the new user, and nothing is cached under its key yet.\<close>

text \<open>The cached entries are of users the database knows, so a user with a new identifier has none.\<close>

lemma entry_of_known_user:
  assumes e: "entry_ok w v f c" and none: "user_rows w GameDBShardID ''TB_ACCOUNT'' uid = []"
  shows "v \<noteq> uid"
proof
  assume v: "v = uid"
  obtain k t d where k: "(k, t) \<in> set entity_tables" "cached_single c = (k = EntityAccount)"
    "db_of w k v = Some d" "same_rows (cached_list c) (user_rows w d t v)"
    using e unfolding entry_ok_def by blast
  show False
  proof (cases "k = EntityAccount")
    case True
    then have "t = ''TB_ACCOUNT''" "d = GameDBShardID" using k(1,3) entity_game(2) by auto
    with k(2,4) True v none show False by (cases c) (simp_all add: same_rows_def)
  next
    case False
    with k(1,3) v none entity_game(1) show False by (auto simp: db_of_def)
  qed
qed

lemma coherent_new_user:
  assumes co: "coherent w" and none: "user_rows w GameDBShardID ''TB_ACCOUNT'' uid = []" and cache: "w_cache w' = w_cache w"
    and same: "\<And>d t v. v \<noteq> uid \<Longrightarrow> user_rows w' d t v = user_rows w d t v"
  shows "coherent w'"
  unfolding coherent_def
proof (intro allI impI)
  fix v f c
  assume "w_cache w' v f = Some c"
  then have e: "entry_ok w v f c" using co by (simp add: cache coherent_def)
  have v: "v \<noteq> uid" by (rule entry_of_known_user [OF e none])
  then have "db_of w' k v = db_of w k v" for k using same by (simp add: db_of_def)
  with e same [OF v] show "entry_ok w' v f c" by (simp add: entry_ok_def)
qed

text \<open>Inserting an account row: a user of its own, and no entry of the cache is about it.\<close>

lemma insert_account:
  assumes g: "good w" and row: "insert_row (MAccount acc) (w_db w GameDBShardID ''TB_ACCOUNT'') = Some (n, tab')"
    and w': "w' = put_rows GameDBShardID ''TB_ACCOUNT'' tab' (w\<lparr>w_tick := z\<rparr>)"
  shows "good w'" and "(of_nat n :: uint64) \<noteq> 0"
    and "user_rows w' GameDBShardID ''TB_ACCOUNT'' (of_nat n) = [map_times timestamp_column (MAccount (acc\<lparr>ac_user_id := of_nat n\<rparr>))]"
proof -
  let ?tab = "w_db w GameDBShardID ''TB_ACCOUNT''" and ?id = "of_nat n :: uint64"
  let ?r = "map_times timestamp_column (MAccount (acc\<lparr>ac_user_id := ?id\<rparr>))"
  have db: "db_inv w" and co: "coherent w" using g by (simp_all add: good_def)
  have tab: "table_ok ''TB_ACCOUNT'' ?tab" using db by (simp add: db_inv_def)
  note new = insert_row_ok [OF tab _ row]
  then show "?id \<noteq> 0" by simp
  have tab': "gt_rows tab' = gt_rows ?tab @ [?r]" using row by (auto simp: insert_row_def split: if_splits)
  have acc_id: "user_column r = primary_key r" if "r \<in> set (gt_rows ?tab)" for r
    using tab that by (cases r) (auto simp: table_ok_def)
  have none: "user_rows w GameDBShardID ''TB_ACCOUNT'' ?id = []"
    using new acc_id by (auto simp: user_rows_def filter_empty_conv)
  then show "user_rows w' GameDBShardID ''TB_ACCOUNT'' ?id = [?r]"
    by (simp add: user_rows_def w' rows_put tab')
  have "user_rows w' d t v = user_rows w d t v" if "v \<noteq> ?id" for d t v
    using that by (auto simp: w' user_rows_put tab' user_rows_def put_rows_def)
  from coherent_new_user [OF co none _ this] have "coherent w'" by (simp add: w' put_rows_def)
  moreover have "db_inv w'" using db new by (simp add: db_inv_def w' rows_put)
  ultimately show "good w'" by (simp add: good_def)
qed

lemma new_account:
  assumes g: "good w" and row: "insert_row (MAccount acc) (w_db w GameDBShardID ''TB_ACCOUNT'') = Some (n, tab')"
    and w': "w' = put_rows GameDBShardID ''TB_ACCOUNT'' tab' (w\<lparr>w_tick := z\<rparr>)"
    and u: "u_ops u = []" "u_store u = [(ek_name EntityAccount, One a)]" "u_user_id u = of_nat n"
      "a < length (u_heap u)" "u_heap u ! a = MAccount (acc\<lparr>ac_user_id := of_nat n\<rparr>)"
    and sh: "GetShard (ac_db_shard_id acc) (en_shards e) \<noteq> None"
  shows "reqinv [] w' u \<and> home_ok e u"
proof
  note ins = insert_account [OF g row w']
  have "entity_ok w' u [] EntityAccount ''TB_ACCOUNT'' [a]"
    unfolding entity_ok_def using u
    by (intro exI [of _ GameDBShardID] exI [of _ "[a]"]) (simp add: ins(3) ops_on_def link_def keys_def untimed_def)
  then have "\<exists>t. (EntityAccount, t) \<in> set entity_tables \<and> entity_ok w' u [] EntityAccount t [a]"
    using entity_members(1) by blast
  then have "inv [] w' u" using ins u by (simp add: inv_def store_addrs_def good_def)
  with ins(1) u show "reqinv [] w' u" by (simp add: reqinv_def good_def)
  show "home_ok e u" using u sh by (auto simp: home_ok_def account_loaded_def shard_of_def)
qed

lemma CreateNow_step:
  assumes g: "good w" and u: "u_ops u = []" "u_store u = []" "a < length (u_heap u)" "u_heap u ! a = MAccount acc"
    and sh: "GetShard (ac_db_shard_id acc) (en_shards e) \<noteq> None"
    and run: "run_state (CreateNow e EntityAccount a) (w, u) = (res, w', u')"
  shows "good w' \<and> (res \<noteq> Inl Panic \<and> (\<forall>y. res = Inr y \<longrightarrow> reqinv [] w' u' \<and> home_ok e u'))"
proof (cases "\<exists>x. en_fault e (w_tick w) = Some x \<or> insert_row (MAccount acc) (w_db w GameDBShardID ''TB_ACCOUNT'') = None")
  case True
  then have "w_db w' = w_db w \<and> w_cache w' = w_cache w \<and> (\<exists>x. res = Inl x \<and> x \<noteq> Panic)"
    using run u by (auto simp: CreateNow_def entity_db_def db_create_def split: option.splits)
  with g good_cong [of w' w] show ?thesis by auto
next
  case False
  then obtain n tab' where row: "insert_row (MAccount acc) (w_db w GameDBShardID ''TB_ACCOUNT'') = Some (n, tab')"
    and ok: "en_fault e (w_tick w) = None" by auto
  let ?w = "put_rows GameDBShardID ''TB_ACCOUNT'' tab' (w\<lparr>w_tick := Suc (w_tick w)\<rparr>)"
  let ?m = "MAccount (acc\<lparr>ac_user_id := of_nat n\<rparr>)"
  let ?u1 = "u\<lparr>u_heap := (u_heap u)[a := ?m], u_store := [(ek_name EntityAccount, One a)]\<rparr>"
  obtain x where x: "run_state (markDirty a) (?w, ?u1) = ((), ?w, ?u1\<lparr>u_dirty := x\<rparr>)" using markDirty_run by blast
  let ?u = "?u1\<lparr>u_dirty := x, u_user_id := of_nat n\<rparr>"
  have "res = Inr () \<and> w' = ?w \<and> u' = ?u"
    using run row ok u x by (simp add: CreateNow_def entity_db_def db_create_def storeModel_def SetUserID_def)
  moreover have "reqinv [] ?w ?u \<and> home_ok e ?u" using new_account [OF g row refl, of ?u a e] u sh by simp
  ultimately show ?thesis using reqinv_good by blast
qed

text \<open>A sign-in of a channel user without an account, and of one with an account.\<close>

lemma Login_new_step:
  assumes g: "good w" and u: "u_ops u = []" "u_store u = []" and sh: "en_shards e = register_all cfg"
    and q: "run_state (FindUserIdByChannelUID e c) (w, u) = (Inr None, w1, u1)"
    and run: "run_state (account_Login e c device) (w, u) = (res, w', u')"
  shows "good w' \<and> (\<forall>a new. res = Inr (a, new) \<longrightarrow> reqinv [] w' u' \<and> (new \<longrightarrow> home_ok e u'))"
proof -
  let ?w3 = "w\<lparr>w_tick := Suc (Suc (Suc (w_tick w)))\<rparr>"
  have w1: "w1 = w\<lparr>w_tick := Suc (w_tick w)\<rparr>" "u1 = u" using q by (auto simp: FindUserIdByChannelUID_def)
  have g3: "good ?w3" by (rule good_tick [OF g])
  show ?thesis
  proof (cases "PickShard (en_rand e (Suc (Suc (w_tick w))) mod rg_total (en_shards e)) (en_shards e)")
    case None
    then have "w' = ?w3 \<and> (\<exists>x. res = Inl x)" using run q w1 by (auto simp: account_Login_def account_PickShard_def)
    with g3 show ?thesis by auto
  next
    case (Some sid)
    let ?acc = "\<lparr>ac_user_id = 0, ac_channel_uid = c, ac_device_id = device, ac_is_active = 1, ac_db_shard_id = sid,
      ac_insert_time = en_now e (Suc (w_tick w)), ac_update_time = en_now e (Suc (w_tick w))\<rparr>"
    let ?u = "u\<lparr>u_heap := u_heap u @ [MAccount ?acc]\<rparr>" and ?a = "length (u_heap u)"
    obtain z w4 u4 where n: "run_state (CreateNow e EntityAccount ?a) (?w3, ?u) = (z, w4, u4)" by (rule prod_cases3)
    have "w' = w4 \<and> u' = u4 \<and> res = (case z of Inl x \<Rightarrow> Inl x | Inr _ \<Rightarrow> Inr (?a, True))"
      using run q Some w1 n by (simp add: account_Login_def account_PickShard_def)
    moreover have "GetShard sid (en_shards e) \<noteq> None" using pick_registered Some by (simp add: sh)
    then have "good w4 \<and> (\<forall>y. z = Inr y \<longrightarrow> reqinv [] w4 u4 \<and> home_ok e u4)"
      using CreateNow_step [OF g3 _ _ _ _ _ n, of ?acc] u by simp
    ultimately show ?thesis by (auto split: sum.splits)
  qed
qed

lemma Login_known_step:
  assumes g: "good w" and u: "u_ops u = []" "u_store u = []"
    and q: "run_state (FindUserIdByChannelUID e c) (w, u) = (Inr (Some uid), w1, u1)"
    and run: "run_state (account_Login e c device) (w, u) = (res, w', u')"
  shows "good w' \<and> (\<forall>a new. res = Inr (a, new) \<longrightarrow> reqinv [] w' u' \<and> \<not> new)"
proof -
  let ?w = "w\<lparr>w_tick := Suc (Suc (w_tick w))\<rparr>" and ?u = "u\<lparr>u_user_id := uid\<rparr>"
  have w1: "w1 = w\<lparr>w_tick := Suc (w_tick w)\<rparr>" "u1 = u" using q by (auto simp: FindUserIdByChannelUID_def)
  have r: "reqinv [] ?w ?u" by (rule reqinv_empty [OF good_tick [OF g]]) (simp_all add: u)
  obtain p w3 u3 where p: "run_state (Account e) (?w, ?u) = (p, w3, u3)" by (rule prod_cases3)
  note st = Account_step [OF r p]
  show ?thesis
  proof (cases p)
    case (Inl x)
    then have "w' = w3 \<and> res = Inl x" using run q w1 p by (simp add: account_Login_def SetUserID_def)
    with st reqinv_good show ?thesis by auto
  next
    case inr: (Inr a)
    let ?f = "on_account (\<lambda>x. x\<lparr>ac_device_id := device, ac_update_time := en_now e (Suc (w_tick w))\<rparr>)"
    obtain z w4 u4 where n: "run_state (Update e EntityAccount a) (w3, u3\<lparr>u_heap := (u_heap u3)[a := ?f (u_heap u3 ! a)]\<rparr>) = (z, w4, u4)"
      by (rule prod_cases3)
    have w': "w' = w4 \<and> u' = u4 \<and> res = Inr (a, False)"
      using run q w1 p inr n by (simp add: account_Login_def SetUserID_def)
    have r3: "reqinv [] w3 u3" and st3: "map_of (u_store u3) (ek_name EntityAccount) = Some (One a)"
      using st inr by (simp_all add: account_loaded_def)
    have k: "keys (?f (u_heap u3 ! a)) = keys (u_heap u3 ! a)" "a \<in> set (addrs (One a))" by simp_all
    have "reqinv [] w4 u4"
      using change_step [where f = ?f, OF r3 entity_members(1) st3 k(2,1) n] by simp
    with w' reqinv_good show ?thesis by blast
  qed
qed

lemma account_Login_step:
  assumes g: "good w" and u: "u_ops u = []" "u_store u = []" and sh: "en_shards e = register_all cfg"
    and run: "run_state (account_Login e c device) (w, u) = (res, w', u')"
  shows "good w' \<and> (\<forall>a new. res = Inr (a, new) \<longrightarrow> reqinv [] w' u' \<and> (new \<longrightarrow> home_ok e u'))"
proof -
  obtain q w1 u1 where q: "run_state (FindUserIdByChannelUID e c) (w, u) = (q, w1, u1)" by (rule prod_cases3)
  consider x where "q = Inl x" | "q = Inr None" | uid where "q = Inr (Some uid)" by (metis option.exhaust sum.exhaust)
  then show ?thesis
  proof cases
    case 1
    moreover have "w1 = w\<lparr>w_tick := Suc (w_tick w)\<rparr>" using q by (auto simp: FindUserIdByChannelUID_def)
    ultimately show ?thesis using run q good_tick [OF g] by (auto simp: account_Login_def)
  next
    case 2
    show ?thesis by (rule Login_new_step [OF g u sh q [unfolded 2] run])
  next
    case 3
    from Login_known_step [OF g u q [unfolded 3] run] show ?thesis by blast
  qed
qed


section \<open>Handlers\<close>

text \<open>
  What a handler leaves to the commit: a request in order, or the single operation on a database that
  could not be resolved, with which the commit panics before it touches anything.
\<close>

definition settled :: "world \<Rightarrow> 'b uow \<Rightarrow> bool" where
  "settled w u \<longleftrightarrow> reqinv [] w u \<or> good w \<and> (\<exists>f. u_ops u = [(None, f)])"

lemma settled_good: "settled w u \<Longrightarrow> good w"
  by (auto simp: settled_def reqinv_good)

lemma LoadList_settled:
  assumes "reqinv [] w u" and "run_state (LoadList e k t) (w, u) = (res, w', u')"
    and "(k, t) \<in> set entity_tables" and "k \<noteq> EntityAccount"
  shows "settled w' u'"
  using LoadList_step [OF assms] by (simp add: settled_def)

lemma list_handlers_step:
  assumes "reqinv [] w u"
  shows "run_state (handle_assets e) (w, u) = (res, w', u') \<Longrightarrow> settled w' u'"
    and "run_state (handle_items e) (w, u) = (res, w', u') \<Longrightarrow> settled w' u'"
    and "run_state (handle_cards e) (w, u) = (res, w', u') \<Longrightarrow> settled w' u'"
  using LoadList_settled [OF assms _ entity_members(2)] LoadList_settled [OF assms _ entity_members(3)]
    LoadList_settled [OF assms _ entity_members(4)]
  by (auto simp: handle_assets_def handle_items_def handle_cards_def Assets_def Items_def Cards_def split: prod.splits sum.splits)

lemma UpgradeCardLevel_step:
  assumes r: "reqinv [] w u" and no: "u_ops u = []" and run: "run_state (UpgradeCardLevel e req) (w, u) = (res, w', u')"
  shows "settled w' u'"
proof (cases req)
  case None
  then show ?thesis using run r by (simp add: UpgradeCardLevel_def settled_def)
next
  case (Some i)
  obtain g w1 u1 where g: "run_state (GetCard e i) (w, u) = (g, w1, u1)" by (rule prod_cases3)
  note st = cards.get_step [OF r g]
  then have r1: "reqinv [] w1 u1" by simp
  show ?thesis
  proof (cases "\<exists>a. g = Inr (Some a)")
    case False
    then have "w' = w1 \<and> u' = u1" using run Some g by (auto simp: UpgradeCardLevel_def split: sum.splits option.splits)
    with r1 show ?thesis by (simp add: settled_def)
  next
    case True
    then obtain a where a: "g = Inr (Some a)" by blast
    let ?f = "on_card (\<lambda>x. x\<lparr>cr_level := cr_level x + 1\<rparr>)"
    obtain z w2 u2 where c: "run_state (Update e EntityCards a) (w1\<lparr>w_tick := w_tick w1\<rparr>, u1\<lparr>u_heap := (u_heap u1)[a := ?f (u_heap u1 ! a)]\<rparr>) = (z, w2, u2)"
      by (rule prod_cases3)
    have e: "w' = w2 \<and> u' = u2" using run Some g a c by (simp add: UpgradeCardLevel_def)
    have "keys (?f (u_heap u1 ! a)) = keys (u_heap u1 ! a)" by simp
    from cards.change_found(1) [where f = ?f, OF r g [unfolded a] this c] show ?thesis
      unfolding settled_def good_def using e no by auto
  qed
qed

lemma session_Set_step:
  assumes "reqinv [] w u" and "run_state (session_Set e uid) (w, u) = (res, w', u')"
  shows "reqinv [] w' u'"
proof -
  have "w_db w' = w_db w" "w_cache w' = w_cache w" "u' = u" using assms(2) by (auto simp: session_Set_def split: option.splits)
  then show ?thesis using tick_reqinv [of w' w "[]" u] assms(1) by simp
qed


lemma new_account_grants_step:
  assumes r: "reqinv [] w u" and h: "home_ok e u" and run: "run_state (new_account_grants e) (w, u) = (res, w', u')"
  shows "reqinv [] w' u'"
proof -
  obtain r1 w1 u1 where 1: "run_state (AddAsset e 10000 100) (w, u) = (r1, w1, u1)" by (rule prod_cases3)
  from AddAsset_step [OF r h 1] have h1: "reqinv [] w1 u1" "home_ok e u1" by simp_all
  show ?thesis
  proof (cases r1)
    case (Inl x)
    then show ?thesis using run 1 h1 by (simp add: new_account_grants_def)
  next
    case r1: (Inr y)
    obtain r2 w2 u2 where 2: "run_state (AddItem e 25000 5) (w1, u1) = (r2, w2, u2)" by (rule prod_cases3)
    from AddItem_step [OF h1 2] have h2: "reqinv [] w2 u2" "home_ok e u2" by simp_all
    show ?thesis
    proof (cases r2)
      case (Inl x)
      then show ?thesis using run 1 2 r1 h2 by (simp add: new_account_grants_def)
    next
      case r2: (Inr z)
      obtain r3 w3 u3 where 3: "run_state (ConsumeItem e 25000 3) (w2, u2) = (r3, w3, u3)" by (rule prod_cases3)
      then have "w' = w3 \<and> u' = u3" using run 1 2 r1 r2 by (simp add: new_account_grants_def)
      with ConsumeItem_step [OF h2 3] show ?thesis by simp
    qed
  qed
qed

lemma handle_Login_step:
  assumes g: "good w" and u: "u_ops u = []" "u_store u = []" and sh: "en_shards e = register_all cfg"
    and run: "run_state (handle_Login e req) (w, u) = (res, w', u')"
  shows "good w' \<and> (\<forall>m. res = Inr m \<longrightarrow> reqinv [] w' u')"
proof (cases "\<exists>c device. req = Some (c, device) \<and> c \<noteq> 0 \<and> device \<noteq> []")
  case False
  then have "w' = w \<and> (\<exists>x. res = Inl x)" using run by (auto simp: handle_Login_def split: option.splits)
  with g show ?thesis by auto
next
  case True
  then obtain c device where req: "req = Some (c, device)" "c \<noteq> 0" "device \<noteq> []" by blast
  obtain l w1 u1 where l: "run_state (account_Login e c device) (w, u) = (l, w1, u1)" by (rule prod_cases3)
  note st = account_Login_step [OF g u sh l]
  show ?thesis
  proof (cases l)
    case (Inl x)
    then have "w' = w1 \<and> res = Inl x" using run req l by (simp add: handle_Login_def)
    with st show ?thesis by simp
  next
    case (Inr p)
    then obtain a new where p: "l = Inr (a, new)" by (cases p) simp
    from st p have r1: "reqinv [] w1 u1" "new \<longrightarrow> home_ok e u1" by auto
    let ?grants = "if new then new_account_grants e else State_Monad.return (Inr ())"
    obtain q w2 u2 where q: "run_state ?grants (w1, u1) = (q, w2, u2)" by (rule prod_cases3)
    have r2: "reqinv [] w2 u2" using new_account_grants_step [OF r1(1)] r1 q by (auto split: if_splits)
    show ?thesis
    proof (cases q)
      case (Inl x)
      then have "w' = w2 \<and> res = Inl x" using run req l p q by (simp add: handle_Login_def)
      with r2 show ?thesis by (simp add: reqinv_good)
    next
      case (Inr y)
      obtain t w3 u3 where t: "run_state (session_Set e (user_column (u_heap u2 ! a))) (w2, u2) = (t, w3, u3)"
        by (rule prod_cases3)
      then have "w' = w3 \<and> u' = u3" using run req l p q Inr by (simp add: handle_Login_def)
      with session_Set_step [OF r2 t] show ?thesis by (simp add: reqinv_good)
    qed
  qed
qed

section \<open>The dispatcher\<close>

lemma run_action_step:
  assumes g: "good w" and sh: "en_shards e = register_all cfg"
    and run: "run_state (run_action e dc a body) (w, New uid c) = (res, w', u')"
  shows "good w' \<and> (\<forall>m. res = Inr m \<longrightarrow> settled w' u')"
proof -
  have u: "u_ops (New uid c) = []" "u_store (New uid c) = []" by (simp_all add: New_def)
  have r: "reqinv [] w (New uid c)" by (rule reqinv_empty [OF g u(2,1)])
  have "settled (w\<lparr>w_tick := n\<rparr>) (New uid c)" for n
    unfolding settled_def using reqinv_empty [OF good_tick [OF g] u(2,1)] by blast
  then have "settled w' u'" if "a \<noteq> ActLogin"
    using that run list_handlers_step [OF r] UpgradeCardLevel_step [OF r u(1)]
    by (cases a) (auto simp: run_action_def GetShopList_def)
  moreover have ?thesis if "a = ActLogin"
    using that run handle_Login_step [OF g u sh] by (auto simp: run_action_def settled_def)
  ultimately show ?thesis using settled_good by blast
qed

lemma commit_settled:
  assumes s: "settled w u" and del: "\<forall>n. en_delete_fault e n = None"
    and run: "run_state (CommitOrRollback e) (w, u) = (res, w', u')"
  shows "good w'"
  using s CommitOrRollback_step [OF _ del run] CommitOrRollback_nil [OF _ run] unfolding settled_def good_def by blast

lemma serve_action_step:
  assumes g: "good w" and sh: "en_shards e = register_all cfg" and del: "\<forall>n. en_delete_fault e n = None"
    and run: "run_state (serve_action e dc a body) (w, New uid c) = (res, w', u')"
  shows "good w'"
proof -
  obtain h w1 u1 where h: "run_state (run_action e dc a body) (w, New uid c) = (h, w1, u1)" by (rule prod_cases3)
  note st = run_action_step [OF g sh h]
  show ?thesis
  proof (cases h)
    case (Inl x)
    then have "w' = w1" using run h by (cases x) (auto simp: serve_action_def)
    with st show ?thesis by simp
  next
    case (Inr m)
    obtain x w2 u2 where x: "run_state (CommitOrRollback e) (w1, u1) = (x, w2, u2)" by (rule prod_cases3)
    have "w' = w2" using run h Inr x by (auto simp: serve_action_def split: sum.splits go_error.splits)
    with commit_settled [OF _ del x] st Inr show ?thesis by simp
  qed
qed


text \<open>The session check and the lock leave the databases and the user cache alone.\<close>

definition same_data :: "world \<Rightarrow> world \<Rightarrow> bool" where
  "same_data w w' \<longleftrightarrow> w_db w' = w_db w \<and> w_cache w' = w_cache w"

lemma same_data_good: "same_data w w' \<Longrightarrow> good w \<Longrightarrow> good w'"
  unfolding same_data_def using good_same by blast

lemma check_session_same: "run_state (check_session e a req) (w, u) = (res, w', u') \<Longrightarrow> same_data w w' \<and> u' = u"
  by (auto simp: check_session_def VerifyAndRefresh_def same_data_def split: if_splits)

lemma acquire_loop_same: "run_state (acquire_loop e uid token n) (w, u) = (res, w', u') \<Longrightarrow> same_data w w' \<and> u' = u"
proof (induction n arbitrary: w u)
  case (Suc n)
  have "same_data w w' \<and> u' = u"
    if "run_state (acquire_loop e uid token n) (w\<lparr>w_tick := Suc (Suc (w_tick w))\<rparr>, u) = (res, w', u')"
    using Suc.IH [OF that] by (simp add: same_data_def)
  with Suc.prems show ?case by (auto simp: same_data_def split: if_splits)
qed (auto simp: same_data_def)

lemma lock_same:
  "run_state (lock_Acquire e uid) (w, u) = (res, w', u') \<Longrightarrow> same_data w w' \<and> u' = u"
  "run_state (lock_Release e uid token) (w, u) = (r, w', u') \<Longrightarrow> same_data w w' \<and> u' = u"
proof -
  show "run_state (lock_Acquire e uid) (w, u) = (res, w', u') \<Longrightarrow> same_data w w' \<and> u' = u"
    using acquire_loop_same by (fastforce simp: lock_Acquire_def same_data_def)
  show "run_state (lock_Release e uid token) (w, u) = (r, w', u') \<Longrightarrow> same_data w w' \<and> u' = u"
    by (auto simp: lock_Release_def same_data_def split: if_splits)
qed

lemma with_lock_same:
  assumes act: "\<And>w r w' u'. run_state act (w, u) = (r, w', u') \<Longrightarrow> good w \<Longrightarrow> good w'"
    and g: "good w" and run: "run_state (with_lock e uid act) (w, u) = (r, w', u')"
  shows "good w'"
proof (cases "uid = 0")
  case True
  then show ?thesis using run act g by (simp add: with_lock_def)
next
  case False
  obtain l w1 u1 where l: "run_state (lock_Acquire e uid) (w, u) = (l, w1, u1)" by (rule prod_cases3)
  then have 1: "good w1" "u1 = u" using lock_same(1) same_data_good [OF _ g] by blast+
  show ?thesis
  proof (cases l)
    case None
    then show ?thesis using run False l 1 by (simp add: with_lock_def)
  next
    case (Some token)
    obtain q w2 u2 where q: "run_state act (w1, u) = (q, w2, u2)" by (rule prod_cases3)
    obtain z w3 u3 where z: "run_state (lock_Release e uid token) (w2, u2) = (z, w3, u3)" by (rule prod_cases3)
    have "good w3" using lock_same(2) [OF z] act [OF q 1(1)] same_data_good by blast
    moreover have "w' = w3" using run False l Some q z 1 by (simp add: with_lock_def)
    ultimately show ?thesis by simp
  qed
qed

lemma dispatch_good:
  assumes g: "good w" and sh: "en_shards e = register_all cfg" and del: "\<forall>n. en_delete_fault e n = None"
  shows "good (snd (dispatch e dc ds envelope w))"
proof (cases "\<exists>req a c. envelope = Some req \<and> map_of action_ids (gr_action req) = Some a \<and> GetByClientVersion ds (gr_client_version req) = Some c")
  case False
  then show ?thesis using g by (auto simp: dispatch_def split: option.splits)
next
  case True
  then obtain req a c where req: "envelope = Some req" "map_of action_ids (gr_action req) = Some a"
    "GetByClientVersion ds (gr_client_version req) = Some c" by blast
  let ?u = "New (gr_user_id req) c"
  obtain x w1 u1 where x: "run_state (check_session e a req) (w, ?u) = (x, w1, u1)" by (rule prod_cases3)
  then have 1: "good w1" "u1 = ?u" using check_session_same same_data_good [OF _ g] by blast+
  show ?thesis
  proof (cases x)
    case (Some r)
    then show ?thesis using req x 1 by (simp add: dispatch_def)
  next
    case None
    obtain r w2 u2 where r: "run_state (with_lock e (gr_user_id req) (serve_action e dc a (gr_body req))) (w1, ?u) = (r, w2, u2)"
      by (rule prod_cases3)
    have "good w2" by (rule with_lock_same [OF _ 1(1) r]) (rule serve_action_step [OF _ sh del])
    then show ?thesis using req x 1 None r by (simp add: dispatch_def)
  qed
qed

end
