(* ===== verification/GameSpec.thy ===== *)
theory GameSpec
  imports GameCoherence
begin

text \<open>
  What the game server promises to a client, towards the properties: the answers show what the
  databases hold, an upgrade persists, and a request changes only the rows of the user whose session
  it carries.  The parts of a request that reaches its handler are in \<open>served_parts\<close>.
\<close>

section \<open>What the commit does to the rows\<close>

lemma cache_calls_db:
  "run_state (cache_set e uid kvs) (w, u) = (r, w', u') \<Longrightarrow> w_db w' = w_db w \<and> w_session w' = w_session w \<and> u' = u"
  "run_state (cache_delete_all e uid) (w, u) = (r', w', u') \<Longrightarrow> w_db w' = w_db w \<and> w_session w' = w_session w \<and> u' = u"
  by (auto simp: cache_set_def cache_delete_all_def put_fields_def split: option.splits if_splits)

lemma update_caches_db: "run_state (update_caches e) (w, u) = (r, w', u') \<Longrightarrow> w_db w' = w_db w \<and> w_session w' = w_session w \<and> u' = u"
  by (auto simp: update_caches_def dest: cache_calls_db split: if_splits prod.splits)

lemma commit_rows:
  assumes run: "run_state (CommitOrRollback e) (w, u) = (res, w', u')"
    and g: "run_state (run_groups e (group_ops (u_ops u))) (w, u) = (q, w1, u1)"
  shows "w_db w' = w_db w1 \<and> w_session w' = w_session w1 \<and> (\<forall>y. res = Inr y \<longrightarrow> (\<exists>z. q = Inr z))"
proof (cases q)
  case (Inl x)
  then have "run_state (Commit e) (w, u) = (Inl x, w1, u1)" using g by (simp add: Commit_def)
  with run Inl show ?thesis
    by (cases x) (auto simp: CommitOrRollback_def dest: cache_calls_db split: if_splits prod.splits)
next
  case (Inr y)
  obtain z w2 u2 where z: "run_state (update_caches e) (w1, u1\<lparr>u_ops := []\<rparr>) = (z, w2, u2)" by (rule prod_cases3)
  have c: "run_state (Commit e) (w, u) = (z, w2, u2)" using g Inr z by (simp add: Commit_def)
  have "w_db w' = w_db w2 \<and> w_session w' = w_session w2"
  proof (cases z)
    case (Inl x)
    then show ?thesis using run c
      by (cases x) (auto simp: CommitOrRollback_def dest: cache_calls_db split: if_splits prod.splits)
  qed (use run c in \<open>simp add: CommitOrRollback_def\<close>)
  with update_caches_db [OF z] Inr show ?thesis by simp
qed

lemma groups_touch:
  assumes r: "reqinv [] w u" and g: "run_state (run_groups e (group_ops (u_ops u))) (w, u) = (q, w1, u1)"
  shows "touches (u_user_id u) (store_tables u) w w1 \<and> u_store u1 = u_store u \<and> u_user_id u1 = u_user_id u
    \<and> (\<forall>y. q = Inr y \<longrightarrow> inv [] w1 u1)"
proof -
  have i0: "inv (u_ops u) w u" using r by (simp add: reqinv_def)
  have "\<forall>g \<in> set (group_ops (u_ops u)). snd g \<noteq> []" using group_ops_nonempty [of "[]"] by (simp add: group_ops_def)
  from run_groups_step [OF inv_grouped [OF i0] this g] show ?thesis by simp
qed


section \<open>Requests\<close>

text \<open>The parts of a request that reaches its handler.\<close>

lemma served_parts:
  assumes run: "dispatch e dc ds (Some req) w = (r, w')" and w': "(\<forall>c m. r \<noteq> GameError c m) \<or> w_db w' \<noteq> w_db w"
  obtains a c w1 l w2 w3 u3 where
    "map_of action_ids (gr_action req) = Some a" "GetByClientVersion ds (gr_client_version req) = Some c"
    "run_state (check_session e a req) (w, New (gr_user_id req) c) = (None, w1, New (gr_user_id req) c)"
    "run_state (if gr_user_id req \<noteq> 0 then lock_Acquire e (gr_user_id req) else State_Monad.return (Some [])) (w1, New (gr_user_id req) c)
      = (Some l, w2, New (gr_user_id req) c)"
    "run_state (serve_action e dc a (gr_body req)) (w2, New (gr_user_id req) c) = (r, w3, u3)"
    "w_db w' = w_db w3" "same_data w w2" "w_session w' = w_session w3"
proof -
  obtain a where a: "map_of action_ids (gr_action req) = Some a" using run w' by (auto simp: dispatch_def split: option.splits)
  obtain c where c: "GetByClientVersion ds (gr_client_version req) = Some c"
    using run w' a by (auto simp: dispatch_def split: option.splits)
  let ?u = "New (gr_user_id req) c" and ?uid = "gr_user_id req"
  obtain x w1 u1 where x: "run_state (check_session e a req) (w, ?u) = (x, w1, u1)" by (rule prod_cases3)
  then have s1: "same_data w w1" "u1 = ?u" using check_session_same by blast+
  have "x = None"
  proof (rule ccontr)
    assume "x \<noteq> None"
    then obtain y where y: "x = Some y" by blast
    then have "r = y" "w' = w1" using run x a c by (simp_all add: dispatch_def)
    moreover have "\<exists>n m. y = GameError n m"
      using x y by (auto simp: check_session_def VerifyAndRefresh_def split: if_splits option.splits sum.splits)
    ultimately show False using w' s1 by (auto simp: same_data_def)
  qed
  let ?lock = "if ?uid \<noteq> 0 then lock_Acquire e ?uid else State_Monad.return (Some [])"
  obtain y w2 u2 where y: "run_state ?lock (w1, ?u) = (y, w2, u2)" by (rule prod_cases3)
  then have s2: "same_data w1 w2" "u2 = ?u" by (auto simp: same_data_def dest!: lock_same(1) split: if_splits)
  have d: "dispatch e dc ds (Some req) w =
      (case run_state (with_lock e ?uid (serve_action e dc a (gr_body req))) (w1, ?u) of (r, (w', u')) \<Rightarrow> (r, w'))"
    using a c x s1 \<open>x = None\<close> by (simp add: dispatch_def)
  have s: "same_data w w2" using s1 s2 by (simp add: same_data_def)
  have "y \<noteq> None"
  proof
    assume "y = None"
    then have "w' = w2" "\<exists>n m. r = GameError n m" using run d y by (auto simp: with_lock_def split: if_splits)
    with w' s show False by (auto simp: same_data_def)
  qed
  then obtain l where l: "y = Some l" by blast
  obtain q w3 u3 where q: "run_state (serve_action e dc a (gr_body req)) (w2, ?u) = (q, w3, u3)" by (rule prod_cases3)
  obtain z w4 u4 where z: "run_state (lock_Release e ?uid l) (w3, u3) = (z, w4, u4)" by (rule prod_cases3)
  have "w_session w4 = w_session w3" using z by (auto simp: lock_Release_def split: if_splits)
  then have "q = r \<and> w_db w' = w_db w3 \<and> w_session w' = w_session w3"
    using run d y s2 l q z lock_same(2) [OF z] by (auto simp: with_lock_def same_data_def split: if_splits)
  then show ?thesis using that [OF a c, of w1 l w2 w3 u3] x y s1 s2 l q \<open>x = None\<close> s by simp
qed

section \<open>Answers\<close>

text \<open>The rows of a user of one kind, from the databases alone.\<close>

definition rows_of :: "world \<Rightarrow> entity_kind \<Rightarrow> string \<Rightarrow> uint64 \<Rightarrow> gmodel list" where
  "rows_of w k t uid = (case db_of w k uid of None \<Rightarrow> [] | Some d \<Rightarrow> user_rows w d t uid)"

definition database_answer :: "world \<Rightarrow> uint64 \<Rightarrow> action \<Rightarrow> message option" where
  "database_answer w uid a =
     (case a of
        ActGetAssets \<Rightarrow> Some (GetAssetsResponse (concat (map toAssetData (rows_of w EntityAssets ''TB_ASSET'' uid))))
      | ActGetItems \<Rightarrow> Some (GetItemsResponse (concat (map toItemData (rows_of w EntityItems ''TB_ITEM'' uid))))
      | ActGetCards \<Rightarrow> Some (GetCardsResponse (concat (map toCardData (rows_of w EntityCards ''TB_CARD'' uid))))
      | _ \<Rightarrow> None)"

lemma untimed_data [simp]:
  "toAssetData (untimed m) = toAssetData m" "toItemData (untimed m) = toItemData m" "toCardData (untimed m) = toCardData m"
  by (cases m; simp add: untimed_def)+

lemma same_rows_map:
  assumes "same_rows xs ys" and "\<And>m. f (untimed m) = f m"
  shows "map f xs = map f ys"
  using arg_cong [OF assms(1) [unfolded same_rows_def], of "map f"] assms(2) by (simp add: comp_def)

text \<open>Objects of an entity without queued operations are its rows.\<close>

lemma entity_rows:
  assumes "entity_ok w u [] k t as"
  shows "same_rows (map ((!) (u_heap u)) as) (rows_of w k t (u_user_id u))"
proof -
  obtain d where d: "db_of w k (u_user_id u) = Some d" "list_all2 (link (u_heap u) []) as (user_rows w d t (u_user_id u))"
    using assms by (auto simp: entity_ok_def ops_on_def creates_def)
  then have "list_all2 (\<lambda>a r. untimed (u_heap u ! a) = untimed r) as (user_rows w d t (u_user_id u))"
    by (auto simp: link_def elim: list_all2_mono)
  then have "map untimed (map ((!) (u_heap u)) as) = map untimed (user_rows w d t (u_user_id u))"
    by (auto simp: list_all2_conv_all_nth intro: nth_equalityI)
  with d show ?thesis by (simp add: same_rows_def rows_of_def)
qed

lemma loaded_rows:
  assumes g: "good w" and run: "run_state (LoadList e k t) (w, New uid c) = (Inr as, w', u')"
    and k: "(k, t) \<in> set entity_tables" "k \<noteq> EntityAccount"
  shows "same_rows (map ((!) (u_heap u')) as) (rows_of w k t uid)"
proof -
  have r: "reqinv [] w (New uid c)" by (rule reqinv_empty [OF g]) (simp_all add: New_def)
  note st = LoadList_step [OF r run k]
  have u': "u_user_id u' = uid" "u_ops u' = []" "w_db w' = w_db w" using st by (simp_all add: grows_def New_def)
  have "inv [] w' u'" "map_of (u_store u') (ek_name k) = Some (Many as)" using st u' by (simp_all add: reqinv_def)
  from stored_entity [OF this k(1)] have "entity_ok w' u' [] k t as" by simp
  note entity_rows [OF this]
  moreover have "rows_of w' k t uid = rows_of w k t uid" 
    unfolding rows_of_def db_of_cong [OF u'(3)] user_rows_cong [OF u'(3)] by (rule refl)
  ultimately show ?thesis by (simp add: u')
qed


lemma list_answer:
  assumes g: "good w" and run: "run_state (run_action e dc a body) (w, New uid c) = (Inr m, w', u')"
    and a: "a = ActGetAssets \<or> a = ActGetItems \<or> a = ActGetCards"
  shows "database_answer w uid a = Some m"
proof -
  have data: "map f (map ((!) (u_heap u')) as) = map f (rows_of w k t uid)"
    if "run_state (LoadList e k t) (w, New uid c) = (Inr as, w', u')" "(k, t) \<in> set entity_tables" "k \<noteq> EntityAccount"
      "\<And>m. f (untimed m) = f m" for f :: "gmodel \<Rightarrow> 'x list" and k t as
    by (rule same_rows_map [OF loaded_rows [OF g that(1-3)]]) (rule that(4))
  show ?thesis
    using a run data [of EntityAssets _ _ toAssetData] data [of EntityItems _ _ toItemData] data [of EntityCards _ _ toCardData]
    by (auto simp: run_action_def handle_assets_def handle_items_def handle_cards_def Assets_def Items_def Cards_def
        database_answer_def comp_def split: prod.splits sum.splits)
qed


lemma serve_ok:
  assumes "run_state (serve_action e dc a body) (w, u) = (GameOK m sy, w', u')"
  obtains w1 u1 where "run_state (run_action e dc a body) (w, u) = (Inr m, w1, u1)"
    "run_state (CommitOrRollback e) (w1, u1) = (Inr (), w', u')"
proof -
  obtain h w1 u1 where h: "run_state (run_action e dc a body) (w, u) = (h, w1, u1)" by (rule prod_cases3)
  obtain x w2 u2 where x: "run_state (CommitOrRollback e) (w1, u1) = (x, w2, u2)" by (rule prod_cases3)
  obtain m' where "h = Inr m'" using assms h by (cases h) (auto simp: serve_action_def split: go_error.splits)
  with assms h x have "x = Inr () \<and> h = Inr m \<and> w2 = w' \<and> u2 = u'"
    by (auto simp: serve_action_def split: sum.splits go_error.splits)
  with that h x show ?thesis by simp
qed

lemma list_action_ops:
  assumes g: "good w" and a: "a = ActGetAssets \<or> a = ActGetItems \<or> a = ActGetCards"
    and run: "run_state (run_action e dc a body) (w, New uid c) = (res, w', u')"
  shows "w_db w' = w_db w \<and> u_ops u' = [] \<and> u_user_id u' = uid"
proof -
  have r: "reqinv [] w (New uid c)" by (rule reqinv_empty [OF g]) (simp_all add: New_def)
  have l: "w_db w' = w_db w \<and> u_ops u' = [] \<and> u_user_id u' = uid"
    if "run_state (LoadList e k t) (w, New uid c) = (z, w', u')" "(k, t) \<in> set entity_tables" "k \<noteq> EntityAccount" for k t z
    using LoadList_step [OF r that] by (simp add: grows_def New_def)
  show ?thesis
    using a run l [of EntityAssets] l [of EntityItems] l [of EntityCards]
    by (auto simp: run_action_def handle_assets_def handle_items_def handle_cards_def Assets_def Items_def Cards_def
        split: prod.splits sum.splits)
qed

lemma lists_from_database:
  assumes g: "good w" and run: "dispatch e dc ds (Some req) w = (GameOK m sy, w')"
    and a: "map_of action_ids (gr_action req) = Some a" "a = ActGetAssets \<or> a = ActGetItems \<or> a = ActGetCards"
  shows "database_answer w (gr_user_id req) a = Some m \<and> w_db w' = w_db w"
proof -
  obtain a' c w1 l w2 w3 u2 where p0: "map_of action_ids (gr_action req) = Some a'" "GetByClientVersion ds (gr_client_version req) = Some c"
    "run_state (check_session e a' req) (w, New (gr_user_id req) c) = (None, w1, New (gr_user_id req) c)"
    "run_state (if gr_user_id req \<noteq> 0 then lock_Acquire e (gr_user_id req) else State_Monad.return (Some [])) (w1, New (gr_user_id req) c)
      = (Some l, w2, New (gr_user_id req) c)"
    "run_state (serve_action e dc a' (gr_body req)) (w2, New (gr_user_id req) c) = (GameOK m sy, w3, u2)"
    "w_db w' = w_db w3" "same_data w w2" "w_session w' = w_session w3"
    by (rule served_parts [OF run]) simp
  note p = p0(1) p0(5-7)
  have a': "a' = a" using p(1) a(1) by simp
  obtain w4 u4 where h: "run_state (run_action e dc a (gr_body req)) (w2, New (gr_user_id req) c) = (Inr m, w4, u4)"
    "run_state (CommitOrRollback e) (w4, u4) = (Inr (), w3, u2)"
    using serve_ok [OF p(2)] by (auto simp: a')
  have g2: "good w2" by (rule same_data_good [OF p(4) g])
  have db: "w_db w2 = w_db w" using p(4) by (simp add: same_data_def)
  have "database_answer w (gr_user_id req) a = database_answer w2 (gr_user_id req) a"
    by (simp only: database_answer_def rows_of_def db_of_cong [OF db] user_rows_cong [OF db])
  moreover have "w_db w3 = w_db w4"
    using commit_rows [OF h(2)] list_action_ops [OF g2 a(2) h(1)] by (simp add: group_ops_def)
  ultimately show ?thesis
    using list_answer [OF g2 h(1) a(2)] list_action_ops [OF g2 a(2) h(1)] p(3) db by simp
qed


section \<open>Upgrades\<close>

text \<open>The commit of one update changes no object.\<close>

lemma commit_update:
  assumes "u_ops u = [(db, UpdateOp a)]" and "run_state (run_groups e (group_ops (u_ops u))) (w, u) = (Inr y, w1, u1)"
  shows "u1 = u \<and> db \<noteq> None"
  using assms by (auto simp: group_ops_def Transaction_def SaveTx_def split: option.splits sum.splits if_splits)

definition level_up :: "gmodel \<Rightarrow> gmodel" where
  "level_up = on_card (\<lambda>x. x\<lparr>cr_level := cr_level x + 1\<rparr>)"

definition upgraded :: "uint64 \<Rightarrow> gmodel list \<Rightarrow> gmodel list" where
  "upgraded i = map (\<lambda>m. if is_card i m then level_up m else m)"

lemma level_up_untimed [simp]: "untimed (level_up m) = level_up (untimed m)" "is_card i (untimed m) = is_card i m"
  by (cases m; simp add: level_up_def untimed_def)+


lemma rows_of_distinct: "db_inv w \<Longrightarrow> distinct (map primary_key (rows_of w k t uid))"
  by (auto simp: rows_of_def user_rows_def db_inv_def table_ok_def distinct_map_filter split: option.splits)

lemma rows_of_cong: "w_db w' = w_db w \<Longrightarrow> rows_of w' k t uid = rows_of w k t uid"
  unfolding rows_of_def by (simp only: db_of_cong [of w' w] user_rows_cong [of w' w])

text \<open>Levelling the one object that is the card.\<close>

lemma change_card:
  assumes rows: "same_rows (map ((!) h) as) rs" and d: "distinct (map primary_key rs)"
    and a: "a \<in> set as" "is_card i (h ! a)" and len: "\<forall>b \<in> set as. b < length h"
    and p: "prefix (h[a := level_up (h ! a)]) h'"
  shows "same_rows (map ((!) h') as) (upgraded i rs)"
proof -
  have pk: "primary_key (untimed m) = primary_key m" for m by (simp add: untimed_def)
  have "map primary_key (map ((!) h) as) = map primary_key rs" by (rule same_rows_map [where f = primary_key, OF rows pk])
  then have "distinct (map (primary_key \<circ> (!) h) as)" using d by simp
  then have inj: "inj_on (primary_key \<circ> (!) h) (set as)" by (simp add: distinct_map)
  have card: "primary_key m = i" if "is_card i m" for m using that by (cases m) auto
  have "h' ! b = (if is_card i (h ! b) then level_up (h ! b) else h ! b)" if "b \<in> set as" for b
  proof -
    have "is_card i (h ! b) \<longleftrightarrow> b = a" using inj_onD [OF inj _ that a(1)] card a(2) by auto
    moreover have "h' ! b = h[a := level_up (h ! a)] ! b" using p len that by (auto simp: prefix_def nth_append)
    ultimately show ?thesis using len that by (cases "b = a") auto
  qed
  then have "map ((!) h') as = upgraded i (map ((!) h) as)" by (simp add: upgraded_def)
  moreover have "map untimed (upgraded i xs) = upgraded i (map untimed xs)" for xs
    by (simp add: upgraded_def) 
  ultimately show ?thesis using rows by (simp add: same_rows_def)
qed

text \<open>A row of a list of rows that agrees with another has its counterpart there.\<close>

lemma same_rows_member:
  assumes "same_rows (map ((!) h) as) rows" and "a \<in> set as"
  obtains r where "r \<in> set rows" "untimed r = untimed (h ! a)"
proof -
  have "untimed (h ! a) \<in> set (map untimed (map ((!) h) as))" using assms(2) by simp
  with assms(1) have "untimed (h ! a) \<in> set (map untimed rows)" by (simp only: same_rows_def)
  with that show ?thesis by auto
qed

text \<open>Up to the commit: the card of the request is raised, and its write is the only one queued.\<close>

lemma upgrade_unit:
  assumes g: "good w" and run: "run_state (UpgradeCardLevel e (Some i)) (w, New uid c) = (Inr m, w1, u1)"
  obtains a as db where "u_ops u1 = [(db, UpdateOp a)]" "db \<noteq> None \<longrightarrow> reqinv [] w1 u1" "u_user_id u1 = uid"
    "map_of (u_store u1) (ek_name EntityCards) = Some (Many as)"
    "same_rows (map ((!) (u_heap u1)) as) (upgraded i (rows_of w EntityCards ''TB_CARD'' uid))"
    "\<exists>r \<in> set (rows_of w EntityCards ''TB_CARD'' uid). is_card i r \<and> m = UpgradeCardLevelResponse (toCardData (level_up r))
       \<and> untimed (u_heap u1 ! a) = untimed (level_up r)" "w_db w1 = w_db w"
proof -
  let ?rows = "rows_of w EntityCards ''TB_CARD'' uid"
  have r: "reqinv [] w (New uid c)" by (rule reqinv_empty [OF g]) (simp_all add: New_def)
  obtain q w0 u0 where q: "run_state (GetCard e i) (w, New uid c) = (q, w0, u0)" by (rule prod_cases3)
  obtain a where a: "q = Inr (Some a)" using run q by (cases q; cases "case q of Inr x \<Rightarrow> x | _ \<Rightarrow> None") (auto simp: UpgradeCardLevel_def)
  note st = cards.get_step [OF r q]
  from st a obtain as where as: "map_of (u_store u0) (ek_name EntityCards) = Some (Many as)" "a \<in> set as" by blast
  have r0: "reqinv [] w0 u0" and u0: "u_ops u0 = []" "u_user_id u0 = uid" "w_db w0 = w_db w"
    using st by (simp_all add: grows_def New_def)
  let ?h = "u_heap u0" and ?u = "u0\<lparr>u_heap := (u_heap u0)[a := level_up (u_heap u0 ! a)]\<rparr>"
  have card: "is_card i (?h ! a)" using q a by (auto simp: GetCard_def find_Some_iff split: sum.splits prod.splits)
  have i0: "inv [] w0 u0" using r0 u0 by (simp add: reqinv_def)
  from stored_entity [OF i0 as(1)] have e0: "entity_ok w0 u0 [] EntityCards ''TB_CARD'' as" by simp
  have rows0: "same_rows (map ((!) ?h) as) ?rows" using entity_rows [OF e0] by (simp add: u0 rows_of_cong [OF u0(3)])
  have keys: "keys (level_up (?h ! a)) = keys (?h ! a)" by (simp add: level_up_def)
  have inv_m: "reqinv [(db_of w0 EntityCards (u_user_id ?u), UpdateOp a)] w0 ?u"
    using modify_step [where g = level_up, OF r0 entity_members(3) as(1) _ keys refl] as(2) by simp
  obtain z where up: "run_state (Update e EntityCards a) (w0, ?u) = (z, w1, u1)"
    and ans: "m = UpgradeCardLevelResponse (toCardData (u_heap u1 ! a))"
    using run q a by (auto simp: UpgradeCardLevel_def level_up_def split: prod.splits)
  obtain db where db: "u_ops u1 = u_ops ?u @ [(db, UpdateOp a)]" "prefix (u_heap ?u) (u_heap u1)" "u_user_id u1 = u_user_id ?u"
    "w_db w1 = w_db w0" "\<forall>f v. map_of (u_store ?u) f = Some v \<longrightarrow> map_of (u_store u1) f = Some v"
    "db \<noteq> None \<longrightarrow> reqinv [] w1 u1" by (rule Update_result [OF inv_m up])
  have len: "\<forall>b \<in> set as. b < length ?h" using e0 by (auto simp: entity_ok_def)
  have "distinct (map primary_key ?rows)" using g by (simp add: good_def rows_of_distinct)
  from change_card [OF rows0 this as(2) card len] have ch: "same_rows (map ((!) (u_heap u1)) as) (upgraded i ?rows)"
    using db(2) by simp
  obtain r where rr: "r \<in> set ?rows" "untimed r = untimed (?h ! a)" by (rule same_rows_member [OF rows0 as(2)])
  have "is_card i r" using card rr(2) level_up_untimed(2) by metis
  moreover have "toCardData (level_up r) = toCardData (level_up (?h ! a))"
    using rr(2) level_up_untimed(1) untimed_data(3) by metis
  moreover have "u_heap u1 ! a = level_up (?h ! a)" using db(2) len as(2) by (auto simp: prefix_def nth_append)
  ultimately have "\<exists>r \<in> set ?rows. is_card i r \<and> m = UpgradeCardLevelResponse (toCardData (level_up r))
      \<and> untimed (u_heap u1 ! a) = untimed (level_up r)"
    using rr ans by (intro bexI [of _ r]) simp_all
  moreover have "u_ops u1 = [(db, UpdateOp a)]" "u_user_id u1 = uid"
    "map_of (u_store u1) (ek_name EntityCards) = Some (Many as)" "w_db w1 = w_db w" using db(1,3-5) u0 as(1) by simp_all
  ultimately show ?thesis using that [OF _ db(6) _ _ ch] by blast
qed

lemma upgrade_request:
  assumes g: "good w" and run: "run_state (UpgradeCardLevel e (Some i)) (w, New uid c) = (Inr m, w1, u1)"
    and cm: "run_state (CommitOrRollback e) (w1, u1) = (Inr y, w2, u2)"
  shows "same_rows (rows_of w2 EntityCards ''TB_CARD'' uid) (upgraded i (rows_of w EntityCards ''TB_CARD'' uid))
    \<and> (\<exists>r \<in> set (rows_of w EntityCards ''TB_CARD'' uid). is_card i r \<and> m = UpgradeCardLevelResponse (toCardData (level_up r)))"
proof -
  obtain a as db where up: "u_ops u1 = [(db, UpdateOp a)]" "db \<noteq> None \<longrightarrow> reqinv [] w1 u1" "u_user_id u1 = uid"
    "map_of (u_store u1) (ek_name EntityCards) = Some (Many as)"
    "same_rows (map ((!) (u_heap u1)) as) (upgraded i (rows_of w EntityCards ''TB_CARD'' uid))"
    "\<exists>r \<in> set (rows_of w EntityCards ''TB_CARD'' uid). is_card i r \<and> m = UpgradeCardLevelResponse (toCardData (level_up r))
       \<and> untimed (u_heap u1 ! a) = untimed (level_up r)" "w_db w1 = w_db w"
    by (rule upgrade_unit [OF g run])
  obtain q3 w3 u3 where g3: "run_state (run_groups e (group_ops (u_ops u1))) (w1, u1) = (q3, w3, u3)" by (rule prod_cases3)
  from commit_rows [OF cm g3] obtain z3 where c3: "q3 = Inr z3" "w_db w2 = w_db w3" by blast
  from commit_update [OF up(1) g3 [unfolded c3(1)]] have u3: "u3 = u1" "db \<noteq> None" by simp_all
  have i3: "inv [] w3 u1" using groups_touch [OF mp [OF up(2) u3(2)] g3] c3 u3 by simp
  from stored_entity [OF i3 up(4)] have e3: "entity_ok w3 u1 [] EntityCards ''TB_CARD'' as" by simp
  have "same_rows (map ((!) (u_heap u1)) as) (rows_of w2 EntityCards ''TB_CARD'' uid)"
    using entity_rows [OF e3] up(3) by (simp add: rows_of_cong [OF c3(2)])
  with up(5,6) show ?thesis by (auto simp: same_rows_def)
qed


section \<open>Whose rows change\<close>

lemma quiet_action:
  assumes g: "good w" and run: "run_state (run_action e dc a body) (w, New uid c) = (res, w', u')" and a: "a \<noteq> ActLogin"
  shows "w_db w' = w_db w \<and> u_user_id u' = uid \<and> (a \<noteq> ActUpgradeCardLevel \<longrightarrow> u_ops u' = [])"
proof -
  have r: "reqinv [] w (New uid c)" by (rule reqinv_empty [OF g]) (simp_all add: New_def)
  have "w_db w' = w_db w \<and> u_user_id u' = uid" if up: "run_state (UpgradeCardLevel e (Some i)) (w, New uid c) = (res, w', u')" for i
  proof -
    obtain q w0 u0 where q: "run_state (GetCard e i) (w, New uid c) = (q, w0, u0)" by (rule prod_cases3)
    note st = cards.get_step [OF r q]
    have s0: "w_db w0 = w_db w" "u_user_id u0 = uid" using st by (simp_all add: grows_def New_def)
    show ?thesis
    proof (cases "\<exists>a. q = Inr (Some a)")
      case False
      then show ?thesis using up q s0 by (auto simp: UpgradeCardLevel_def split: sum.splits option.splits)
    next
      case True
      then obtain a where a: "q = Inr (Some a)" by blast
      obtain z where up': "run_state (Update e EntityCards a)
          (w0\<lparr>w_tick := w_tick w0\<rparr>, u0\<lparr>u_heap := (u_heap u0)[a := level_up (u_heap u0 ! a)]\<rparr>) = (z, w', u')"
        using up q a by (auto simp: UpgradeCardLevel_def level_up_def split: prod.splits)
      have "keys (level_up (u_heap u0 ! a)) = keys (u_heap u0 ! a)" by (simp add: level_up_def)
      from cards.change_found(7,8) [where f = level_up, OF r q [unfolded a] this up'] show ?thesis by (simp add: New_def)
    qed
  qed
  then have up: "w_db w' = w_db w \<and> u_user_id u' = uid" if "run_state (UpgradeCardLevel e x) (w, New uid c) = (res, w', u')" for x
    using that by (cases x) (auto simp: UpgradeCardLevel_def New_def)
  show ?thesis
  proof (cases a)
    case ActUpgradeCardLevel
    with run up show ?thesis by (simp add: run_action_def)
  next
    case ActGetShopList
    with run show ?thesis by (auto simp: run_action_def GetShopList_def New_def)
  qed (use a run list_action_ops [OF g _ run] in simp_all)
qed

lemma quiet_serve:
  assumes g: "good w" and sh: "en_shards e = register_all cfg" and a: "a \<noteq> ActLogin"
    and run: "run_state (serve_action e dc a body) (w, New uid c) = (res, w', u')"
    and ch: "user_rows w' d t v \<noteq> user_rows w d t v"
  shows "a = ActUpgradeCardLevel \<and> v = uid"
proof -
  obtain h w1 u1 where h: "run_state (run_action e dc a body) (w, New uid c) = (h, w1, u1)" by (rule prod_cases3)
  note q = quiet_action [OF g h a]
  have same: "user_rows w1 = user_rows w" using user_rows_cong q by blast
  obtain m where m: "h = Inr m"
    using run h ch same by (cases h) (auto simp: serve_action_def split: go_error.splits)
  obtain x w2 u2 where x: "run_state (CommitOrRollback e) (w1, u1) = (x, w2, u2)" by (rule prod_cases3)
  have w2: "w' = w2" using run h m x by (auto simp: serve_action_def split: sum.splits go_error.splits)
  have s: "settled w1 u1" using run_action_step [OF g sh h] m by simp
  have "reqinv [] w1 u1"
  proof (rule ccontr)
    assume "\<not> reqinv [] w1 u1"
    with s obtain f where "u_ops u1 = [(None, f)]" by (auto simp: settled_def)
    from CommitOrRollback_nil [OF this x] w2 ch same show False by simp
  qed
  moreover obtain q3 w3 u3 where g3: "run_state (run_groups e (group_ops (u_ops u1))) (w1, u1) = (q3, w3, u3)" by (rule prod_cases3)
  ultimately have t: "touches (u_user_id u1) (store_tables u1) w1 w3" using groups_touch by blast
  have db: "user_rows w2 = user_rows w3" by (rule user_rows_cong) (use commit_rows [OF x g3] in blast)
  have "v = uid" using t q ch same db w2 by (auto simp: touches_def)
  moreover have "u_ops u1 \<noteq> []"
  proof
    assume "u_ops u1 = []"
    then have "w3 = w1" using g3 by (simp add: group_ops_def)
    with ch same db w2 show False by simp
  qed
  ultimately show ?thesis using q by blast
qed

lemma acquired:
  "run_state (acquire_loop e uid token n) (w, u) = (Some l, w', u') \<Longrightarrow>
     (w_lock w uid = None \<or> (\<exists>k \<ge> w_tick w. en_freed e k)) \<and> l = token \<and> w_lock w' uid = Some token"
proof (induction n arbitrary: w u)
  case (Suc n)
  let ?w = "w\<lparr>w_tick := Suc (Suc (w_tick w))\<rparr>"
  have "(w_lock w uid = None \<or> (\<exists>k \<ge> w_tick w. en_freed e k)) \<and> l = token \<and> w_lock w' uid = Some token"
    if "run_state (acquire_loop e uid token n) (?w, u) = (Some l, w', u')"
    using Suc.IH [OF that] by (auto dest: Suc_leD)
  with Suc.prems show ?case by (auto split: if_splits)
qed simp


lemma session_checked:
  assumes "run_state (check_session e a req) (w, u) = (None, w', u')"
  shows "w_lock w' = w_lock w \<and> (a = ActLogin \<or> gr_user_id req \<noteq> 0 \<and> gr_session_token req \<noteq> []
    \<and> w_session w (gr_user_id req) = Some (gr_session_token req))"
  using assms by (auto simp: check_session_def no_auth_def VerifyAndRefresh_def split: if_splits option.splits)

lemma lock_acquired:
  assumes "run_state (lock_Acquire e uid) (w, u) = (Some l, w', u')"
  shows "w_lock w uid = None \<or> (\<exists>k. en_freed e k)"
  using assms acquired [of e uid _ userLockMaxRetries "w\<lparr>w_tick := Suc (w_tick w)\<rparr>"] by (fastforce simp: lock_Acquire_def)

lemma changed_rows:
  assumes g: "good w" and sh: "en_shards e = register_all cfg"
    and ch: "user_rows (snd (dispatch e dc ds envelope w)) d t v \<noteq> user_rows w d t v"
  shows "\<exists>req a c. envelope = Some req \<and> map_of action_ids (gr_action req) = Some a
    \<and> GetByClientVersion ds (gr_client_version req) = Some c
    \<and> (a = ActLogin \<or> a = ActUpgradeCardLevel \<and> gr_user_id req = v \<and> v \<noteq> 0 \<and> gr_session_token req \<noteq> []
         \<and> w_session w v = Some (gr_session_token req) \<and> (w_lock w v = None \<or> (\<exists>k. en_freed e k)))"
proof -
  obtain r w' where run: "dispatch e dc ds envelope w = (r, w')" by (cases "dispatch e dc ds envelope w")
  have db: "w_db w' \<noteq> w_db w" using ch run user_rows_cong [of w' w] by auto
  obtain req where req: "envelope = Some req" using run db by (cases envelope) (auto simp: dispatch_def)
  let ?uid = "gr_user_id req"
  obtain a c w1 l w2 w3 u3 where p: "map_of action_ids (gr_action req) = Some a" "GetByClientVersion ds (gr_client_version req) = Some c"
    "run_state (check_session e a req) (w, New ?uid c) = (None, w1, New ?uid c)"
    "run_state (if ?uid \<noteq> 0 then lock_Acquire e ?uid else State_Monad.return (Some [])) (w1, New ?uid c)
      = (Some l, w2, New ?uid c)"
    "run_state (serve_action e dc a (gr_body req)) (w2, New ?uid c) = (r, w3, u3)" "w_db w' = w_db w3" "same_data w w2" "w_session w' = w_session w3"
    by (rule served_parts [OF run [unfolded req]]) (simp add: db)
  have g2: "good w2" by (rule same_data_good [OF p(7) g])
  have rows: "user_rows w' = user_rows w3" "user_rows w2 = user_rows w"
    using user_rows_cong [OF p(6)] user_rows_cong [of w2 w] p(7) by (simp_all add: same_data_def)
  have "a = ActLogin \<or> a = ActUpgradeCardLevel \<and> ?uid = v"
  proof (cases "a = ActLogin")
    case False
    from quiet_serve [OF g2 sh this p(5)] ch run rows show ?thesis by simp
  qed simp
  moreover note session_checked [OF p(3)]
  moreover have "?uid \<noteq> 0 \<Longrightarrow> w_lock w1 ?uid = None \<or> (\<exists>k. en_freed e k)"
    using p(4) lock_acquired by (simp; blast)
  ultimately show ?thesis using req p(1,2) by auto
qed

end
