(* ===== verification/GameLogin.thy ===== *)
theory GameLogin
  imports GameSpec
begin

text \<open>
  The first login of a channel: what the handler leaves in the request, and what is in the databases
  once the commit has gone through.
\<close>

section \<open>What a write keeps\<close>

text \<open>A commit changes nothing of an object but its automatic key, and no session.\<close>

definition no_key :: "gmodel \<Rightarrow> gmodel" where
  "no_key = SetPrimaryKey 0"

definition keeps :: "world \<Rightarrow> 'b uow \<Rightarrow> world \<Rightarrow> 'b uow \<Rightarrow> bool" where
  "keeps w u w' u' \<longleftrightarrow> w_session w' = w_session w \<and> map no_key (u_heap u') = map no_key (u_heap u)"

lemma keeps_refl [simp]: "keeps w u w u" by (simp add: keeps_def)

lemma keeps_trans: "keeps w u w1 u1 \<Longrightarrow> keeps w1 u1 w2 u2 \<Longrightarrow> keeps w u w2 u2" by (simp add: keeps_def)

lemma no_key_SetPrimaryKey [simp]: "no_key (SetPrimaryKey i m) = no_key m" by (cases m) (simp_all add: no_key_def)

lemma keeps_exec: "run_state (exec_op e d f) (w, u) = (r, w', u') \<Longrightarrow> keeps w u w' u'"
proof (cases f)
  case (CreateOp a)
  have "map no_key ((u_heap u)[a := SetPrimaryKey i (u_heap u ! a)]) = map no_key (u_heap u)" for i
    by (simp add: map_update) (metis list_update_id map_update)
  moreover assume "run_state (exec_op e d f) (w, u) = (r, w', u')"
  ultimately show ?thesis unfolding CreateOp
    by (auto simp: db_create_def keeps_def put_rows_def split: option.splits sum.splits)
qed (auto simp: SaveTx_def keeps_def put_rows_def split: option.splits)

lemma keeps_execs: "run_state (exec_ops e d fns) (w, u) = (r, w', u') \<Longrightarrow> keeps w u w' u'"
proof (induction fns arbitrary: w u)
  case (Cons f fns)
  obtain x w1 u1 where x: "run_state (exec_op e d f) (w, u) = (x, w1, u1)" by (rule prod_cases3)
  note k = keeps_exec [OF x]
  show ?case
  proof (cases x)
    case (Inl y)
    with Cons.prems x k show ?thesis by simp
  next
    case (Inr y)
    with Cons.prems x have "run_state (exec_ops e d fns) (w1, u1) = (r, w', u')" by simp
    from Cons.IH [OF this] k show ?thesis by (rule keeps_trans [rotated])
  qed
qed simp

lemma keeps_transaction:
  assumes run: "run_state (Transaction e db fns) (w, u) = (r, w', u')"
  shows "keeps w u w' u'"
proof (cases "db = None \<or> en_fault e (w_tick w) \<noteq> None")
  case True
  with run show ?thesis by (cases db) (auto simp: Transaction_def keeps_def)
next
  case False
  then obtain d where d: "db = Some d" "en_fault e (w_tick w) = None" by auto
  obtain x w1 u1 where x: "run_state (exec_ops e d fns) (w\<lparr>w_tick := Suc (w_tick w)\<rparr>, u) = (x, w1, u1)" by (rule prod_cases3)
  have "keeps (w\<lparr>w_tick := Suc (w_tick w)\<rparr>) u w1 u1" by (rule keeps_execs [OF x])
  then show ?thesis using run d x
    by (cases x) (auto simp: Transaction_def keeps_def restore_rows_def split: option.splits)
qed

lemma keeps_groups:
  "run_state (run_groups e gs) (w, u) = (r, w', u') \<Longrightarrow> keeps w u w' u'"
proof (induction gs arbitrary: w u)
  case (Cons g gs)
  obtain db fns where g: "g = (db, fns)" by (cases g)
  obtain x w1 u1 where x: "run_state (Transaction e db fns) (w, u) = (x, w1, u1)" by (rule prod_cases3)
  note k = keeps_transaction [OF x]
  show ?case
  proof (cases x)
    case (Inl y)
    with Cons.prems g x k show ?thesis by simp
  next
    case (Inr y)
    with Cons.prems g x have "run_state (run_groups e gs) (w1, u1) = (r, w', u')" by simp
    with Cons have "keeps w1 u1 w' u'" by simp
    with k show ?thesis by (rule keeps_trans)
  qed
qed simp


section \<open>The new account\<close>

lemma CreateNow_result:
  assumes run: "run_state (CreateNow e EntityAccount a) (w, u) = (Inr y, w', u')"
    and u: "u_store u = []" "a < length (u_heap u)" "u_heap u ! a = MAccount acc"
  obtains n tab' x where "insert_row (MAccount acc) (w_db w GameDBShardID ''TB_ACCOUNT'') = Some (n, tab')"
    "w' = put_rows GameDBShardID ''TB_ACCOUNT'' tab' (w\<lparr>w_tick := Suc (w_tick w)\<rparr>)"
    "u' = u\<lparr>u_heap := (u_heap u)[a := MAccount (acc\<lparr>ac_user_id := of_nat n\<rparr>)], u_store := [(ek_name EntityAccount, One a)],
       u_dirty := x, u_user_id := of_nat n\<rparr>"
proof -
  have ok: "en_fault e (w_tick w) = None"
    using run u by (cases "en_fault e (w_tick w)") (auto simp: CreateNow_def entity_db_def db_create_def)
  obtain n tab' where row: "insert_row (MAccount acc) (w_db w GameDBShardID ''TB_ACCOUNT'') = Some (n, tab')"
    using run u ok by (cases "insert_row (MAccount acc) (w_db w GameDBShardID ''TB_ACCOUNT'')")
      (auto simp: CreateNow_def entity_db_def db_create_def)
  let ?w = "put_rows GameDBShardID ''TB_ACCOUNT'' tab' (w\<lparr>w_tick := Suc (w_tick w)\<rparr>)"
  let ?u1 = "u\<lparr>u_heap := (u_heap u)[a := MAccount (acc\<lparr>ac_user_id := of_nat n\<rparr>)], u_store := [(ek_name EntityAccount, One a)]\<rparr>"
  obtain x where x: "run_state (markDirty a) (?w, ?u1) = ((), ?w, ?u1\<lparr>u_dirty := x\<rparr>)" using markDirty_run by blast
  have "w' = ?w \<and> u' = ?u1\<lparr>u_dirty := x, u_user_id := of_nat n\<rparr>"
    using run row ok u x by (simp add: CreateNow_def entity_db_def db_create_def storeModel_def SetUserID_def)
  with that [OF row] show ?thesis by simp
qed

text \<open>Rows are always those of an account.\<close>

definition owned_rows :: "world \<Rightarrow> bool" where
  "owned_rows w \<longleftrightarrow> (\<forall>d t v. user_rows w GameDBShardID ''TB_ACCOUNT'' v = [] \<longrightarrow> user_rows w d t v = [])"

definition fresh_account :: "world \<Rightarrow> uint64 \<Rightarrow> string \<Rightarrow> nat \<Rightarrow> world \<Rightarrow> 'b uow \<Rightarrow> bool" where
  "fresh_account w c device a w' u' \<longleftrightarrow>
     u_ops u' = [] \<and> u_store u' = [(ek_name EntityAccount, One a)] \<and> a < length (u_heap u')
     \<and> user_rows w GameDBShardID ''TB_ACCOUNT'' (u_user_id u') = []
     \<and> (\<forall>d t. t \<noteq> ''TB_ACCOUNT'' \<longrightarrow> w_db w' d t = w_db w d t)
     \<and> (\<exists>acc. u_heap u' ! a = MAccount acc \<and> ac_user_id acc = u_user_id u' \<and> ac_channel_uid acc = c
          \<and> ac_device_id acc = device \<and> ac_is_active acc = 1)"

lemma account_Login_new:
  assumes g: "good w" and run: "run_state (account_Login e c device) (w, New v cat) = (Inr (a, True), w', u')"
  shows "fresh_account w c device a w' u'"
proof -
  obtain q where q: "run_state (FindUserIdByChannelUID e c) (w, New v cat) = (q, w\<lparr>w_tick := Suc (w_tick w)\<rparr>, New v cat)"
    by (auto simp: FindUserIdByChannelUID_def)
  obtain found where f: "q = Inr found" using run q by (cases q) (auto simp: account_Login_def)
  have "found = None"
    using run q f by (cases found) (auto simp: account_Login_def split: prod.splits sum.splits)
  let ?w = "w\<lparr>w_tick := Suc (Suc (Suc (w_tick w)))\<rparr>"
  obtain sid where sid: "PickShard (en_rand e (Suc (Suc (w_tick w))) mod rg_total (en_shards e)) (en_shards e) = Some sid"
    using run q f \<open>found = None\<close>
    by (cases "PickShard (en_rand e (Suc (Suc (w_tick w))) mod rg_total (en_shards e)) (en_shards e)")
      (auto simp: account_Login_def account_PickShard_def)
  let ?acc = "\<lparr>ac_user_id = 0, ac_channel_uid = c, ac_device_id = device, ac_is_active = 1, ac_db_shard_id = sid,
    ac_insert_time = en_now e (Suc (w_tick w)), ac_update_time = en_now e (Suc (w_tick w))\<rparr>"
  let ?u = "(New v cat)\<lparr>u_heap := [MAccount ?acc]\<rparr>"
  have u0: "u_heap (New v cat) = []" "u_store (New v cat) = []" "u_ops (New v cat) = []" by (simp_all add: New_def)
  obtain y where n: "run_state (CreateNow e EntityAccount 0) (?w, ?u) = (Inr y, w', u')" and a: "a = 0"
    using run q f \<open>found = None\<close> sid u0 by (auto simp: account_Login_def account_PickShard_def split: prod.splits sum.splits)
  have up: "u_store ?u = []" "0 < length (u_heap ?u)" "u_heap ?u ! 0 = MAccount ?acc" by (simp_all add: u0)
  obtain n tab' x where row: "insert_row (MAccount ?acc) (w_db ?w GameDBShardID ''TB_ACCOUNT'') = Some (n, tab')"
    "w' = put_rows GameDBShardID ''TB_ACCOUNT'' tab' (?w\<lparr>w_tick := Suc (w_tick ?w)\<rparr>)"
    "u' = ?u\<lparr>u_heap := (u_heap ?u)[0 := MAccount (?acc\<lparr>ac_user_id := of_nat n\<rparr>)], u_store := [(ek_name EntityAccount, One 0)],
       u_dirty := x, u_user_id := of_nat n\<rparr>"
    by (rule CreateNow_result [OF n up])
  have tab: "table_ok ''TB_ACCOUNT'' (w_db w GameDBShardID ''TB_ACCOUNT'')" using g by (simp add: good_def db_inv_def)
  have new: "primary_key r \<noteq> of_nat n" if "r \<in> set (gt_rows (w_db w GameDBShardID ''TB_ACCOUNT''))" for r
    using insert_row_ok [OF tab _ row(1) [simplified]] that by simp
  have "user_rows w GameDBShardID ''TB_ACCOUNT'' (of_nat n) = []"
  proof -
    have "user_column r = primary_key r" if "r \<in> set (gt_rows (w_db w GameDBShardID ''TB_ACCOUNT''))" for r
      using tab that by (cases r) (auto simp: table_ok_def)
    with new show ?thesis by (auto simp: user_rows_def filter_empty_conv)
  qed
  then show ?thesis unfolding fresh_account_def a by (simp add: row(2,3) u0 put_rows_def)
qed


section \<open>Granting\<close>

text \<open>A step of the handler that may change the objects in \<open>A\<close> and the store under the names in \<open>F\<close>.\<close>

definition extends :: "nat set \<Rightarrow> string set \<Rightarrow> world \<Rightarrow> 'b uow \<Rightarrow> world \<Rightarrow> 'b uow \<Rightarrow> bool" where
  "extends A F w u w' u' \<longleftrightarrow>
     w_db w' = w_db w \<and> u_user_id u' = u_user_id u \<and> length (u_heap u) \<le> length (u_heap u')
     \<and> (\<forall>b < length (u_heap u). b \<notin> A \<longrightarrow> u_heap u' ! b = u_heap u ! b)
     \<and> (\<forall>f v. f \<notin> F \<longrightarrow> map_of (u_store u) f = Some v \<longrightarrow> map_of (u_store u') f = Some v)"

lemma extends_trans: "extends A F w u w1 u1 \<Longrightarrow> extends B G w1 u1 w2 u2 \<Longrightarrow> extends (A \<union> B) (F \<union> G) w u w2 u2"
  by (auto simp: extends_def)

lemma extends_tick [simp]: "extends A F (w\<lparr>w_tick := n\<rparr>) u w' u' = extends A F w u w' u'"
  by (simp add: extends_def)

lemma grows_extends: "grows w u w' u' \<Longrightarrow> extends {} {} w u w' u'"
  by (auto simp: grows_def extends_def prefix_def nth_append)

lemma grown_extends: "grows w u w1 u1 \<Longrightarrow> extends A F w1 u1 w2 u2 \<Longrightarrow> extends A F w u w2 u2"
  using extends_trans [OF grows_extends, of w u w1 u1 A F w2 u2] by simp

lemma no_rows_loaded:
  assumes r: "reqinv [] w u" and st: "map_of (u_store u) (ek_name k) = Some (Many as)" and k: "(k, t) \<in> set entity_tables"
    and none: "rows_of w k t (u_user_id u) = []"
    and ops: "\<forall>d x. (d, CreateOp x) \<in> set (u_ops u) \<longrightarrow> TableName (u_heap u ! x) \<noteq> t"
  shows "as = []"
proof -
  have "inv (u_ops u) w u" using r by (simp add: reqinv_def)
  from stored_entity [OF this st k] have e: "entity_ok w u (u_ops u) k t as" by simp
  let ?fs = "map snd (ops_on as (u_ops u))"
  from e obtain d old where o: "db_of w k (u_user_id u) = Some d" "as = old @ creates ?fs"
    "list_all2 (link (u_heap u) ?fs) old (user_rows w d t (u_user_id u))" by (auto simp: entity_ok_def)
  have "old = []" using o none by (simp add: rows_of_def)
  moreover have "x \<notin> set (creates ?fs)" for x
  proof
    assume x: "x \<in> set (creates ?fs)"
    then obtain d' where "(d', CreateOp x) \<in> set (u_ops u)" by (auto simp: creates_def ops_on_def split: op.splits)
    moreover have "x \<in> set as" by (subst o(2)) (use x in simp)
    then have "TableName (u_heap u ! x) = t" using e unfolding entity_ok_def by blast
    ultimately show False using ops by blast
  qed
  then have "creates ?fs = []" by (metis list.set_intros(1) neq_Nil_conv)
  ultimately show ?thesis by (subst o(2)) simp
qed

lemma Create_result:
  assumes r: "reqinv [] w u" and k: "(k, t) \<in> set entity_tables" "k \<noteq> EntityAccount"
    and st: "map_of (u_store u) (ek_name k) = Some (Many as)"
    and m: "TableName m = t" "user_column m = u_user_id u" and h: "home_ok e u"
    and run: "run_state (Create e k (length (u_heap u))) (w, u\<lparr>u_heap := u_heap u @ [m]\<rparr>) = (res, w', u')"
  shows "extends {} {ek_name k} w u w' u' \<and> (\<exists>d. u_ops u' = u_ops u @ [(d, CreateOp (length (u_heap u)))])
    \<and> map_of (u_store u') (ek_name k) = Some (Many (as @ [length (u_heap u)]))
    \<and> length (u_heap u) < length (u_heap u') \<and> u_heap u' ! length (u_heap u) = m"
proof -
  let ?a = "length (u_heap u)"
  let ?u = "u\<lparr>u_heap := u_heap u @ [m], u_store := AList.update (ek_name k) (Many (as @ [?a])) (u_store u)\<rparr>"
  have "\<not> IsSingleton m" using m(1) entity_game(2) [OF k(1)] k(2) by (cases m) auto
  then have store: "run_state (storeModel k ?a) (w, u\<lparr>u_heap := u_heap u @ [m]\<rparr>) = ((), w, ?u)"
    using st by (simp add: storeModel_def)
  obtain x where x: "run_state (markDirty ?a) (w, ?u) = ((), w, ?u\<lparr>u_dirty := x\<rparr>)" using markDirty_run by blast
  have "reqinv [(db_of w k (u_user_id u), CreateOp ?a)] w ?u"
    using create_step [OF r k st m refl] h by simp
  then have c: "reqinv [(db_of w k (u_user_id u), CreateOp ?a)] w (?u\<lparr>u_dirty := x\<rparr>)" unfolding reqinv_dirty by simp
  obtain db w1 u1 where d: "run_state (entity_db e k) (w, ?u\<lparr>u_dirty := x\<rparr>) = (db, w1, u1)" by (rule prod_cases3)
  have g: "grows w (?u\<lparr>u_dirty := x\<rparr>) w1 u1" using entity_db_step [OF c d] by simp
  have u': "w' = w1" "u' = u1\<lparr>u_ops := u_ops u1 @ [(db, CreateOp ?a)]\<rparr>"
    using run store x d by (simp_all add: Create_def queueOp_def)
  from g show ?thesis
    by (auto simp: u' grows_def extends_def prefix_def nth_append update_conv')
qed


text \<open>The state of the request in the handler of a new account.\<close>

definition holds_asset :: "uint32 \<Rightarrow> int64 \<Rightarrow> nat \<Rightarrow> 'b uow \<Rightarrow> bool" where
  "holds_asset i q x u \<longleftrightarrow> x < length (u_heap u) \<and> map_of (u_store u) (ek_name EntityAssets) = Some (Many [x])
     \<and> (\<exists>A. u_heap u ! x = MAsset A \<and> as_asset_id A = i \<and> as_quantity A = q)"

definition holds_item :: "uint32 \<Rightarrow> uint64 \<Rightarrow> nat \<Rightarrow> 'b uow \<Rightarrow> bool" where
  "holds_item i n x u \<longleftrightarrow> x < length (u_heap u) \<and> map_of (u_store u) (ek_name EntityItems) = Some (Many [x])
     \<and> (\<exists>I. u_heap u ! x = MItem I \<and> it_item_id I = i \<and> it_amount I = n)"

lemma AddAsset_new:
  assumes r: "reqinv [] w u" and h: "home_ok e u" and no: "u_ops u = []"
    and none: "rows_of w EntityAssets ''TB_ASSET'' (u_user_id u) = []"
    and run: "run_state (AddAsset e i q) (w, u) = (Inr z, w', u')"
  shows "\<exists>x d. extends {} {ek_name EntityAssets} w u w' u' \<and> u_ops u' = [(d, CreateOp x)] \<and> holds_asset i q x u'"
proof -
  obtain g w1 u1 where g: "run_state (GetAsset e i) (w, u) = (g, w1, u1)" by (rule prod_cases3)
  note st = assets.get_step [OF r g]
  obtain p where p: "g = Inr p" using run g by (cases g) (auto simp: AddAsset_def)
  from st p obtain as where as: "map_of (u_store u1) (ek_name EntityAssets) = Some (Many as)" "\<forall>a. p = Some a \<longrightarrow> a \<in> set as"
    by blast
  have s1: "w_db w1 = w_db w" "u_user_id u1 = u_user_id u" "u_ops u1 = []" using st no by (simp_all add: grows_def)
  have "rows_of w1 EntityAssets ''TB_ASSET'' (u_user_id u1) = []" using none by (simp add: s1 rows_of_cong [OF s1(1)])
  from no_rows_loaded [OF _ as(1) entity_members(2) this] st s1 have "as = []" by simp
  with as have p': "p = None" by (cases p) auto
  let ?m = "MAsset \<lparr>as_idx = 0, as_user_id = u_user_id u1, as_asset_id = i, as_quantity = q, as_last_recharge_time = 0,
    as_insert_time = en_now e (w_tick w1), as_update_time = en_now e (w_tick w1)\<rparr>"
  let ?w = "w1\<lparr>w_tick := Suc (w_tick w1)\<rparr>"
  obtain c w2 u2 where c: "run_state (Create e EntityAssets (length (u_heap u1))) (?w, u1\<lparr>u_heap := u_heap u1 @ [?m]\<rparr>) = (c, w2, u2)"
    by (rule prod_cases3)
  have e: "w' = w2" "u' = u2" using run g p p' c by (simp_all add: AddAsset_def)
  have r1: "reqinv [] ?w u1" using st tick_reqinv [of ?w w1 "[]" u1] by simp
  have h1: "home_ok e u1" using st h home_ok_grows by blast
  have cr: "extends {} {ek_name EntityAssets} ?w u1 w2 u2" "\<exists>d. u_ops u2 = u_ops u1 @ [(d, CreateOp (length (u_heap u1)))]"
    "map_of (u_store u2) (ek_name EntityAssets) = Some (Many [length (u_heap u1)])"
    "length (u_heap u1) < length (u_heap u2)" "u_heap u2 ! length (u_heap u1) = ?m"
    using Create_result [OF r1 entity_members(2) _ as(1) _ _ h1 c] \<open>as = []\<close> by simp_all
  then have x: "holds_asset i q (length (u_heap u1)) u2" by (simp add: holds_asset_def)
  have "extends {} {ek_name EntityAssets} w u w2 u2"
    by (rule grown_extends [of w u w1 u1]) (use st cr(1) in simp_all)
  with x cr(2) s1(3) show ?thesis unfolding e by (metis append_Nil)
qed

lemma AddItem_new:
  assumes r: "reqinv [] w u" and h: "home_ok e u" and no: "\<forall>d x. (d, CreateOp x) \<in> set (u_ops u) \<longrightarrow> TableName (u_heap u ! x) \<noteq> ''TB_ITEM''"
    and b: "\<forall>d x. (d, CreateOp x) \<in> set (u_ops u) \<longrightarrow> x < length (u_heap u)"
    and none: "rows_of w EntityItems ''TB_ITEM'' (u_user_id u) = []"
    and run: "run_state (AddItem e i n) (w, u) = (Inr z, w', u')"
  shows "\<exists>x. extends {} {ek_name EntityItems} w u w' u' \<and> holds_item i n x u'"
proof -
  obtain g w1 u1 where g: "run_state (GetItem e i) (w, u) = (g, w1, u1)" by (rule prod_cases3)
  note st = items.get_step [OF r g]
  obtain p where p: "g = Inr p" using run g by (cases g) (auto simp: AddItem_def)
  from st p obtain as where as: "map_of (u_store u1) (ek_name EntityItems) = Some (Many as)" "\<forall>a. p = Some a \<longrightarrow> a \<in> set as"
    by blast
  have s1: "w_db w1 = w_db w" "u_user_id u1 = u_user_id u" "u_ops u1 = u_ops u" using st by (simp_all add: grows_def)
  have "rows_of w1 EntityItems ''TB_ITEM'' (u_user_id u1) = []" using none by (simp add: s1 rows_of_cong [OF s1(1)])
  moreover have "\<forall>d x. (d, CreateOp x) \<in> set (u_ops u1) \<longrightarrow> TableName (u_heap u1 ! x) \<noteq> ''TB_ITEM''"
    using no b st unfolding s1 grows_def prefix_def by (auto simp: nth_append)
  ultimately have "as = []" using no_rows_loaded [OF _ as(1) entity_members(4)] st by blast
  with as have p': "p = None" by (cases p) auto
  obtain di where di: "design_Find (ct_item (u_catalog u1)) (sint i) = Some di"
    using run g p p' by (cases "design_Find (ct_item (u_catalog u1)) (sint i)") (auto simp: AddItem_def)
  let ?m = "MItem \<lparr>it_idx = 0, it_user_id = u_user_id u1, it_item_type = of_int (id_item_type di), it_item_id = i, it_amount = n,
    it_insert_time = en_now e (w_tick w1), it_update_time = en_now e (w_tick w1)\<rparr>"
  let ?w = "w1\<lparr>w_tick := Suc (w_tick w1)\<rparr>"
  obtain c w2 u2 where c: "run_state (Create e EntityItems (length (u_heap u1))) (?w, u1\<lparr>u_heap := u_heap u1 @ [?m]\<rparr>) = (c, w2, u2)"
    by (rule prod_cases3)
  have e: "w' = w2" "u' = u2" using run g p p' di c by (simp_all add: AddItem_def)
  have r1: "reqinv [] ?w u1" using st tick_reqinv [of ?w w1 "[]" u1] by simp
  have h1: "home_ok e u1" using st h home_ok_grows by blast
  have cr: "extends {} {ek_name EntityItems} ?w u1 w2 u2" "\<exists>d. u_ops u2 = u_ops u1 @ [(d, CreateOp (length (u_heap u1)))]"
    "map_of (u_store u2) (ek_name EntityItems) = Some (Many [length (u_heap u1)])"
    "length (u_heap u1) < length (u_heap u2)" "u_heap u2 ! length (u_heap u1) = ?m"
    using Create_result [OF r1 entity_members(4) _ as(1) _ _ h1 c] \<open>as = []\<close> by simp_all
  then have x: "holds_item i n (length (u_heap u1)) u2" by (simp add: holds_item_def)
  have "extends {} {ek_name EntityItems} w u w2 u2"
    by (rule grown_extends [of w u w1 u1]) (use st cr(1) in simp_all)
  with x show ?thesis unfolding e by blast
qed

lemma ConsumeItem_held:
  assumes r: "reqinv [] w u" and y: "holds_item i n y u" and le: "k \<le> n"
    and run: "run_state (ConsumeItem e i k) (w, u) = (res, w', u')"
  shows "res = Inr () \<and> extends {y} {} w u w' u' \<and> holds_item i (n - k) y u'"
proof -
  have g: "run_state (GetItem e i) (w, u) = (Inr (Some y), w, u)"
    using y by (auto simp: holds_item_def GetItem_def Items_def LoadList_def)
  let ?w = "w\<lparr>w_tick := Suc (w_tick w)\<rparr>"
  let ?f = "on_item (\<lambda>x. x\<lparr>it_amount := it_amount x - k, it_update_time := en_now e (w_tick w)\<rparr>)"
  let ?u = "u\<lparr>u_heap := (u_heap u)[y := ?f (u_heap u ! y)]\<rparr>"
  obtain z where c: "run_state (Update e EntityItems y) (?w, ?u) = (z, w', u')" and res: "res = Inr ()"
    using run g y le by (auto simp: ConsumeItem_def holds_item_def split: prod.splits if_splits)
  have st: "map_of (u_store u) (ek_name EntityItems) = Some (Many [y])" "y < length (u_heap u)" using y by (simp_all add: holds_item_def)
  have r1: "reqinv [] ?w u" using r tick_reqinv [of ?w w "[]" u] by simp
  have "keys (?f (u_heap u ! y)) = keys (u_heap u ! y)" by simp
  then have m: "reqinv [(db_of ?w EntityItems (u_user_id ?u), UpdateOp y)] ?w ?u"
    using modify_step [where g = ?f, OF r1 entity_members(4) st(1) _ _ refl] by simp
  obtain db where up: "u_ops u' = u_ops ?u @ [(db, UpdateOp y)]" "prefix (u_heap ?u) (u_heap u')" "u_user_id u' = u_user_id ?u"
    "w_db w' = w_db ?w" "\<forall>f v. map_of (u_store ?u) f = Some v \<longrightarrow> map_of (u_store u') f = Some v"
    "db \<noteq> None \<longrightarrow> reqinv [] w' u'" by (rule Update_result [OF m c])
  have "extends {y} {} w u w' u'" using up by (auto simp: extends_def prefix_def nth_append)
  moreover have "holds_item i (n - k) y u'"
    using y up by (auto simp: holds_item_def prefix_def nth_append)
  ultimately show ?thesis using res by simp
qed


lemma grants_new:
  assumes r: "reqinv [] w u" and h: "home_ok e u" and no: "u_ops u = []"
    and none: "rows_of w EntityAssets ''TB_ASSET'' (u_user_id u) = []" "rows_of w EntityItems ''TB_ITEM'' (u_user_id u) = []"
    and a: "map_of (u_store u) (ek_name EntityAccount) = Some (One a)" "a < length (u_heap u)" "u_heap u ! a = MAccount acc"
    and run: "run_state (new_account_grants e) (w, u) = (Inr z, w', u')"
  shows "\<exists>x y. w_db w' = w_db w \<and> u_user_id u' = u_user_id u \<and> holds_asset 10000 100 x u' \<and> holds_item 25000 2 y u'
    \<and> map_of (u_store u') (ek_name EntityAccount) = Some (One a) \<and> u_heap u' ! a = MAccount acc \<and> a < length (u_heap u')"
proof -
  obtain r1 w1 u1 where 1: "run_state (AddAsset e 10000 100) (w, u) = (r1, w1, u1)" by (rule prod_cases3)
  obtain z1 where z1: "r1 = Inr z1" using run 1 by (cases r1) (auto simp: new_account_grants_def)
  from AddAsset_step [OF r h 1] have h1: "reqinv [] w1 u1" "home_ok e u1" by simp_all
  from AddAsset_new [OF r h no none(1) 1 [unfolded z1]] obtain x d where
    x: "extends {} {ek_name EntityAssets} w u w1 u1" "u_ops u1 = [(d, CreateOp x)]" "holds_asset 10000 100 x u1" by blast
  obtain r2 w2 u2 where 2: "run_state (AddItem e 25000 5) (w1, u1) = (r2, w2, u2)" by (rule prod_cases3)
  obtain z2 where z2: "r2 = Inr z2" using run 1 z1 2 by (cases r2) (auto simp: new_account_grants_def)
  from AddItem_step [OF h1 2] have h2: "reqinv [] w2 u2" "home_ok e u2" by simp_all
  have db1: "w_db w1 = w_db w" "u_user_id u1 = u_user_id u" using x(1) by (simp_all add: extends_def)
  have none1: "rows_of w1 EntityItems ''TB_ITEM'' (u_user_id u1) = []" using none(2) by (simp add: db1 rows_of_cong [OF db1(1)])
  have ops1: "\<forall>d x. (d, CreateOp x) \<in> set (u_ops u1) \<longrightarrow> TableName (u_heap u1 ! x) \<noteq> ''TB_ITEM''"
    "\<forall>d x. (d, CreateOp x) \<in> set (u_ops u1) \<longrightarrow> x < length (u_heap u1)"
    using x(2,3) by (auto simp: holds_asset_def)
  from AddItem_new [OF h1 ops1 none1 2 [unfolded z2]] obtain y where
    y: "extends {} {ek_name EntityItems} w1 u1 w2 u2" "holds_item 25000 5 y u2" by blast
  obtain r3 w3 u3 where 3: "run_state (ConsumeItem e 25000 3) (w2, u2) = (r3, w3, u3)" by (rule prod_cases3)
  have w3: "w' = w3" "u' = u3" using run 1 z1 2 z2 3 by (simp_all add: new_account_grants_def)
  have le: "(3 :: uint64) \<le> 5" by simp
  from ConsumeItem_held [OF h2(1) y(2) le 3] have c: "extends {y} {} w2 u2 w3 u3" "holds_item 25000 2 y u3" by simp_all
  have kept: "b \<noteq> y" if "u_heap u2 ! b = m" "m = MAccount acc \<or> (\<exists>A. m = MAsset A)" for b m
    using that y(2) by (auto simp: holds_item_def)
  from x(3) obtain A where A: "x < length (u_heap u1)" "u_heap u1 ! x = MAsset A" "as_asset_id A = 10000" "as_quantity A = 100"
    "map_of (u_store u1) (ek_name EntityAssets) = Some (Many [x])" by (auto simp: holds_asset_def)
  have x2: "u_heap u2 ! x = MAsset A" "x < length (u_heap u2)" "map_of (u_store u2) (ek_name EntityAssets) = Some (Many [x])"
    using y(1) A by (auto simp: extends_def)
  have x3: "u_heap u3 ! x = MAsset A" "x < length (u_heap u3)" "map_of (u_store u3) (ek_name EntityAssets) = Some (Many [x])"
    using c(1) x2 kept [OF x2(1)] by (auto simp: extends_def)
  have a1: "u_heap u1 ! a = MAccount acc" "a < length (u_heap u1)" "map_of (u_store u1) (ek_name EntityAccount) = Some (One a)"
    using x(1) a by (auto simp: extends_def)
  have a2: "u_heap u2 ! a = MAccount acc" "a < length (u_heap u2)" "map_of (u_store u2) (ek_name EntityAccount) = Some (One a)"
    using y(1) a1 by (auto simp: extends_def)
  have a3: "u_heap u3 ! a = MAccount acc" "a < length (u_heap u3)" "map_of (u_store u3) (ek_name EntityAccount) = Some (One a)"
    using c(1) a2 kept [OF a2(1)] by (auto simp: extends_def)
  have "w_db w3 = w_db w" "u_user_id u3 = u_user_id u" using db1 y(1) c(1) by (simp_all add: extends_def)
  moreover have "holds_asset 10000 100 x u3" using x3 A by (simp add: holds_asset_def)
  ultimately show ?thesis unfolding w3 using c(2) a3 by blast
qed


section \<open>The first login\<close>

lemma login_parts:
  assumes run: "run_state (handle_Login e req) (w, u) = (Inr (LoginResponse uid ch True token), w', u')"
  obtains c device a wa ua z wb where "req = Some (c, device)"
    "run_state (account_Login e c device) (w, u) = (Inr (a, True), wa, ua)"
    "run_state (new_account_grants e) (wa, ua) = (Inr z, wb, u')"
    "uid = user_column (u_heap u' ! a)" "ch = (case u_heap u' ! a of MAccount x \<Rightarrow> ac_channel_uid x | _ \<Rightarrow> 0)"
    "w_db w' = w_db wb" "w_session w' uid = Some token"
proof -
  obtain c device where req: "req = Some (c, device)" using run by (cases req) (auto simp: handle_Login_def)
  have ok: "\<not> (c = 0 \<or> device = [])" using run req by (auto simp: handle_Login_def)
  obtain l wa ua where l: "run_state (account_Login e c device) (w, u) = (l, wa, ua)" by (rule prod_cases3)
  obtain p where p: "l = Inr p" using run req ok l by (cases l) (auto simp: handle_Login_def)
  obtain a new where an: "p = (a, new)" by (cases p)
  let ?grants = "if new then new_account_grants e else State_Monad.return (Inr ())"
  obtain q wb ub where q: "run_state ?grants (wa, ua) = (q, wb, ub)" by (rule prod_cases3)
  obtain z where z: "q = Inr z" using run req ok l p an q by (cases q) (auto simp: handle_Login_def)
  obtain t wc uc where t: "run_state (session_Set e (user_column (u_heap ub ! a))) (wb, ub) = (t, wc, uc)" by (rule prod_cases3)
  have h: "w' = wc \<and> u' = uc \<and> (case t of Inl x \<Rightarrow> Inl (Coded 500 (''session set: '' @ error_text x))
      | Inr token \<Rightarrow> Inr (LoginResponse (user_column (u_heap ub ! a))
          (case u_heap ub ! a of MAccount x \<Rightarrow> ac_channel_uid x | _ \<Rightarrow> 0) new token)) = Inr (LoginResponse uid ch True token)"
    using run req ok l p an q z t by (simp add: handle_Login_def)
  then obtain k where "t = Inr k" by (cases t) simp_all
  with h have new: "new" "t = Inr token" "uid = user_column (u_heap ub ! a)"
    "ch = (case u_heap ub ! a of MAccount x \<Rightarrow> ac_channel_uid x | _ \<Rightarrow> 0)" by simp_all
  have s: "uc = ub" "w_db wc = w_db wb" "w_session wc uid = Some token"
    using t new by (auto simp: session_Set_def split: option.splits)
  show ?thesis
    by (rule that [of c device a wa ua z wb]) (use req l p an q z new h s in simp_all)
qed

lemma login_action:
  assumes "run_state (run_action e dc a body) (w, u) = (Inr (LoginResponse uid ch new token), w', u')"
  shows "a = ActLogin"
  using assms
  by (cases a) (auto simp: run_action_def handle_assets_def handle_items_def handle_cards_def UpgradeCardLevel_def GetShopList_def
      split: prod.splits sum.splits option.splits)

text \<open>One object without queued writes, whatever its key, is the one row.\<close>

lemma single_row:
  assumes i: "inv [] w u" and k: "(k, t) \<in> set entity_tables" and st: "map_of (u_store u) (ek_name k) = Some v" "addrs v = [x]"
  shows "\<exists>r. rows_of w k t (u_user_id u) = [r] \<and> untimed r = untimed (u_heap u ! x) \<and> user_column r = u_user_id u"
proof -
  have e: "entity_ok w u [] k t [x]" using stored_entity [OF i st(1) k] st(2) by simp
  from entity_rows [OF this] obtain r where r: "rows_of w k t (u_user_id u) = [r]" "untimed r = untimed (u_heap u ! x)"
    by (cases "rows_of w k t (u_user_id u)") (auto simp: same_rows_def)
  moreover have "user_column r = u_user_id u"
    using r(1) by (auto simp: rows_of_def user_rows_def filter_eq_Cons_iff split: option.splits)
  ultimately show ?thesis by blast
qed

definition starter_kit :: "world \<Rightarrow> uint64 \<Rightarrow> uint64 \<Rightarrow> bool" where
  "starter_kit w uid ch \<longleftrightarrow>
     (\<exists>acc A I. rows_of w EntityAccount ''TB_ACCOUNT'' uid = [MAccount acc] \<and> ac_channel_uid acc = ch \<and> ac_is_active acc = 1
       \<and> rows_of w EntityAssets ''TB_ASSET'' uid = [MAsset A] \<and> as_asset_id A = 10000 \<and> as_quantity A = 100
       \<and> rows_of w EntityItems ''TB_ITEM'' uid = [MItem I] \<and> it_item_id I = 25000 \<and> it_amount I = 2)"


text \<open>The columns the claim is about.\<close>

fun payload where
  "payload (MAccount a) = Inl (ac_channel_uid a, ac_is_active a)"
| "payload (MAsset A) = Inr (Inl (as_asset_id A, as_quantity A))"
| "payload (MItem I) = Inr (Inr (Some (it_item_id I, it_amount I)))"
| "payload (MCard _) = Inr (Inr None)"

lemma payload_keeps: "payload (untimed m) = payload m" "payload (no_key m) = payload m"
  by (cases m; simp add: untimed_def no_key_def)+

lemma payload_row: "untimed r = untimed m \<Longrightarrow> no_key m = no_key m' \<Longrightarrow> payload r = payload m'"
  by (metis payload_keeps)

lemma no_key_rows:
  "payload r = payload (MAccount acc) \<Longrightarrow>
     \<exists>acc'. r = MAccount acc' \<and> ac_channel_uid acc' = ac_channel_uid acc \<and> ac_is_active acc' = ac_is_active acc"
  "payload r = payload (MAsset A) \<Longrightarrow> \<exists>A'. r = MAsset A' \<and> as_asset_id A' = as_asset_id A \<and> as_quantity A' = as_quantity A"
  "payload r = payload (MItem I) \<Longrightarrow> \<exists>I'. r = MItem I' \<and> it_item_id I' = it_item_id I \<and> it_amount I' = it_amount I"
  by (cases r; simp)+

lemma starter_after_commit:
  assumes i: "inv [] w u" and h: "map no_key (u_heap u) = map no_key (u_heap v)" and st: "u_store u = u_store v" "u_user_id u = u_user_id v"
    and x: "holds_asset 10000 100 x v" and y: "holds_item 25000 2 y v"
    and a: "map_of (u_store v) (ek_name EntityAccount) = Some (One a)" "u_heap v ! a = MAccount acc" "a < length (u_heap v)"
      "ac_is_active acc = 1"
  shows "starter_kit w (u_user_id v) (ac_channel_uid acc)"
proof -
  have nk: "no_key (u_heap u ! b) = no_key (u_heap v ! b)" if "b < length (u_heap v)" for b
    using h that by (metis length_map nth_map)
  obtain A where A: "u_heap v ! x = MAsset A" "as_asset_id A = 10000" "as_quantity A = 100" "x < length (u_heap v)"
    "map_of (u_store u) (ek_name EntityAssets) = Some (Many [x])" using x st by (auto simp: holds_asset_def)
  obtain I where I: "u_heap v ! y = MItem I" "it_item_id I = 25000" "it_amount I = 2" "y < length (u_heap v)"
    "map_of (u_store u) (ek_name EntityItems) = Some (Many [y])" using y st by (auto simp: holds_item_def)
  obtain r1 where r1: "rows_of w EntityAccount ''TB_ACCOUNT'' (u_user_id v) = [r1]" "untimed r1 = untimed (u_heap u ! a)"
    using single_row [OF i entity_members(1), of "One a" a] a(1) st by auto
  obtain r2 where r2: "rows_of w EntityAssets ''TB_ASSET'' (u_user_id v) = [r2]" "untimed r2 = untimed (u_heap u ! x)"
    using single_row [OF i entity_members(2) A(5)] st by auto
  obtain r3 where r3: "rows_of w EntityItems ''TB_ITEM'' (u_user_id v) = [r3]" "untimed r3 = untimed (u_heap u ! y)"
    using single_row [OF i entity_members(4) I(5)] st by auto
  have "payload r1 = payload (MAccount acc)" by (rule payload_row [OF r1(2)]) (use nk [OF a(3)] a(2) in simp)
  then obtain acc' where 1: "r1 = MAccount acc'" "ac_channel_uid acc' = ac_channel_uid acc" "ac_is_active acc' = 1"
    using no_key_rows(1) a(4) by fastforce
  have "payload r2 = payload (MAsset A)" by (rule payload_row [OF r2(2)]) (use nk [OF A(4)] A(1) in simp)
  then obtain A' where 2: "r2 = MAsset A'" "as_asset_id A' = 10000" "as_quantity A' = 100" using no_key_rows(2) A by fastforce
  have "payload r3 = payload (MItem I)" by (rule payload_row [OF r3(2)]) (use nk [OF I(4)] I(1) in simp)
  then obtain I' where 3: "r3 = MItem I'" "it_item_id I' = 25000" "it_amount I' = 2" using no_key_rows(3) I by fastforce
  show ?thesis unfolding starter_kit_def using r1(1) r2(1) r3(1) 1 2 3 by blast
qed

lemma first_login:
  assumes g: "good w" and own: "owned_rows w" and sh: "en_shards e = register_all cfg"
    and run: "dispatch e dc ds (Some req) w = (GameOK (LoginResponse uid ch True token) sy, w')"
  shows "rows_of w EntityAccount ''TB_ACCOUNT'' uid = [] \<and> starter_kit w' uid ch \<and> w_session w' uid = Some token"
proof -
  obtain ac c w1 l w2 w3 u3 where p: "map_of action_ids (gr_action req) = Some ac" "GetByClientVersion ds (gr_client_version req) = Some c"
    "run_state (check_session e ac req) (w, New (gr_user_id req) c) = (None, w1, New (gr_user_id req) c)"
    "run_state (if gr_user_id req \<noteq> 0 then lock_Acquire e (gr_user_id req) else State_Monad.return (Some [])) (w1, New (gr_user_id req) c)
      = (Some l, w2, New (gr_user_id req) c)"
    "run_state (serve_action e dc ac (gr_body req)) (w2, New (gr_user_id req) c) = (GameOK (LoginResponse uid ch True token) sy, w3, u3)"
    "w_db w' = w_db w3" "same_data w w2" "w_session w' = w_session w3"
    by (rule served_parts [OF run]) simp
  obtain w4 u4 where h: "run_state (run_action e dc ac (gr_body req)) (w2, New (gr_user_id req) c) = (Inr (LoginResponse uid ch True token), w4, u4)"
    "run_state (CommitOrRollback e) (w4, u4) = (Inr (), w3, u3)" by (rule serve_ok [OF p(5)])
  have login: "run_state (handle_Login e (dc_login dc (gr_body req))) (w2, New (gr_user_id req) c) = (Inr (LoginResponse uid ch True token), w4, u4)"
    using h(1) login_action [OF h(1)] by (simp add: run_action_def)
  have g2: "good w2" by (rule same_data_good [OF p(7) g])
  have db2: "w_db w2 = w_db w" using p(7) by (simp add: same_data_def)
  have new: "u_ops (New (gr_user_id req) c) = []" "u_store (New (gr_user_id req) c) = []" by (simp_all add: New_def)
  obtain chn device a wa ua z wb where lp: "dc_login dc (gr_body req) = Some (chn, device)"
    "run_state (account_Login e chn device) (w2, New (gr_user_id req) c) = (Inr (a, True), wa, ua)"
    "run_state (new_account_grants e) (wa, ua) = (Inr z, wb, u4)"
    "uid = user_column (u_heap u4 ! a)" "ch = (case u_heap u4 ! a of MAccount x \<Rightarrow> ac_channel_uid x | _ \<Rightarrow> 0)"
    "w_db w4 = w_db wb" "w_session w4 uid = Some token" by (rule login_parts [OF login])
  have la: "reqinv [] wa ua" "home_ok e ua" using account_Login_step [OF g2 new sh lp(2)] by blast+
  from account_Login_new [OF g2 lp(2)] obtain acc where f: "u_ops ua = []" "u_store ua = [(ek_name EntityAccount, One a)]"
    "a < length (u_heap ua)" "user_rows w2 GameDBShardID ''TB_ACCOUNT'' (u_user_id ua) = []"
    "\<And>d t. t \<noteq> ''TB_ACCOUNT'' \<Longrightarrow> w_db wa d t = w_db w2 d t"
    "u_heap ua ! a = MAccount acc" "ac_user_id acc = u_user_id ua" "ac_is_active acc = 1" by (auto simp: fresh_account_def)
  have norows: "user_rows w d t (u_user_id ua) = []" for d t
    using own f(4) unfolding owned_rows_def user_rows_cong [OF db2] by blast
  have none: "rows_of wa k t (u_user_id ua) = []" if "t \<noteq> ''TB_ACCOUNT''" for k t
  proof -
    have "user_rows wa d t (u_user_id ua) = []" for d
    proof -
      have "user_rows wa d t (u_user_id ua) = user_rows w d t (u_user_id ua)" unfolding user_rows_def f(5) [OF that] db2 by (rule refl)
      then show ?thesis using norows [of d t] by (rule trans)
    qed
    then show ?thesis by (simp add: rows_of_def split: option.split)
  qed
  have acc: "map_of (u_store ua) (ek_name EntityAccount) = Some (One a)" using f(2) by simp
  obtain x y where k: "w_db wb = w_db wa" "u_user_id u4 = u_user_id ua" "holds_asset 10000 100 x u4" "holds_item 25000 2 y u4"
    "map_of (u_store u4) (ek_name EntityAccount) = Some (One a)" "u_heap u4 ! a = MAccount acc" "a < length (u_heap u4)"
    using grants_new [OF la f(1) none none acc f(3,6) lp(3)] by (auto simp del: entity_names)
  have uid: "uid = u_user_id u4" "ch = ac_channel_uid acc" using lp(4,5) k(2,6) f(7) by simp_all
  have r4: "reqinv [] w4 u4" using handle_Login_step [OF g2 new sh login] by simp
  obtain q5 w5 u5 where g5: "run_state (run_groups e (group_ops (u_ops u4))) (w4, u4) = (q5, w5, u5)" by (rule prod_cases3)
  note cr = commit_rows [OF h(2) g5] and gt = groups_touch [OF r4 g5] and kp = keeps_groups [OF g5]
  have i5: "inv [] w5 u5" "u_store u5 = u_store u4" "u_user_id u5 = u_user_id u4" using gt cr by auto
  have "starter_kit w5 (u_user_id u4) (ac_channel_uid acc)"
    by (rule starter_after_commit [OF i5(1) _ i5(2,3) k(3-7) f(8)]) (use kp in \<open>simp add: keeps_def\<close>)
  moreover have "starter_kit w' = starter_kit w5"
    using p(6) cr by (intro ext) (simp add: starter_kit_def rows_of_cong [of w' w5])
  moreover have "w_session w' uid = Some token" using p(8) cr kp lp(7) by (simp add: keeps_def)
  moreover have "rows_of w EntityAccount ''TB_ACCOUNT'' uid = []" using norows uid k(2) by (simp add: rows_of_def)
  ultimately show ?thesis by (simp add: uid)
qed

end
