(* ===== verification/Maintenance.thy ===== *)
theory Maintenance
  imports Design GameApi
begin

text \<open>
  Maintenance windows and the reloading of data over a fleet of servers: \<^verbatim>\<open>internal/resource\<close>,
  the query of \<^verbatim>\<open>internal/repository/server_maintenance_repository.go\<close>, the endpoint
  \<^verbatim>\<open>POST /admin/resource/reload\<close>, and \<^verbatim>\<open>internal/middleware/maintenance.go\<close> in front
  of the game API.  Resources and design data reload in the same way; \<open>reloading\<close> is that contract.
\<close>

section \<open>Windows\<close>

record maintenance =
  mt_idx :: uint64
  mt_server_type :: uint8
  mt_start_time :: uint32
  mt_end_time :: uint32
  mt_msg :: string
  mt_maintenance_version :: uint32
  mt_use_flag :: uint8
  mt_last_modifier :: string
  mt_description :: string
  mt_insert_time :: int
  mt_update_time :: int

text \<open>\<^verbatim>\<open>ORDER BY maintenance_version DESC\<close>; rows with the same one stay in table order.\<close>

definition maintenance_FindActive :: "maintenance list \<Rightarrow> maintenance list" where
  "maintenance_FindActive rows =
     rev (sort_key mt_maintenance_version (rev (filter (\<lambda>m. mt_use_flag m = 1) rows)))"

definition ActiveMaintenance :: "uint32 \<Rightarrow> maintenance list \<Rightarrow> maintenance option" where
  "ActiveMaintenance now = find (\<lambda>m. mt_start_time m \<le> now \<and> now < mt_end_time m)"

section \<open>Reloading\<close>

definition resource_Load :: "string + maintenance list \<Rightarrow> string + maintenance list" where
  "resource_Load query = (case query of Inl e \<Rightarrow> Inl (''find active maintenance: '' @ e) | Inr rows \<Rightarrow> Inr rows)"

text \<open>The store is the snapshot; a failing load leaves it.\<close>

definition resource_LoadAll :: "string + maintenance list \<Rightarrow> maintenance list \<Rightarrow> string option \<times> maintenance list" where
  "resource_LoadAll query st = (case resource_Load query of Inl e \<Rightarrow> (Some e, st) | Inr rows \<Rightarrow> (None, rows))"

definition resource_Trigger ::
  "string + maintenance list \<Rightarrow> string option \<Rightarrow> maintenance list \<Rightarrow> string option \<times> maintenance list" where
  "resource_Trigger query pub st =
     (case resource_LoadAll query st of (Some e, st') \<Rightarrow> (Some e, st') | (None, st') \<Rightarrow> (pub, st'))"

definition post_resource_reload ::
  "string + maintenance list \<Rightarrow> string option \<Rightarrow> maintenance list \<Rightarrow> unit reply \<times> maintenance list" where
  "post_resource_reload query pub st =
     (case resource_Trigger query pub st of
        (Some e, st') \<Rightarrow> (ReplyText 500 e, st')
      | (None, st') \<Rightarrow> (ReplyText 200 ''OK: resource reloaded'', st'))"

definition resource_received ::
  "string \<Rightarrow> string \<Rightarrow> string + maintenance list \<Rightarrow> maintenance list \<Rightarrow> maintenance list" where
  "resource_received self payload query st =
     (if payload = self \<and> self \<noteq> [] then st else snd (resource_LoadAll query st))"

section \<open>The middleware\<close>

text \<open>None lets the request through, Some is the message of the refusal; \<open>real\<close> is the process's time,
  not the shiftable clock.\<close>

definition MaintenanceMiddleware :: "maintenance list \<Rightarrow> int \<Rightarrow> string \<Rightarrow> string option" where
  "MaintenanceMiddleware st real path =
     (if prefix ''/admin/'' path then None
      else if path = ''/'' \<or> path = ''/health'' \<or> path = ''/favicon.ico'' then None
      else map_option mt_msg (ActiveMaintenance (of_int (real div 1000000000)) st))"

text \<open>\<^verbatim>\<open>POST /api\<close> behind it.\<close>

definition post_api ::
  "maintenance list \<Rightarrow> int \<Rightarrow> env \<Rightarrow> decoders \<Rightarrow> 'b design_store \<Rightarrow> game_request option \<Rightarrow> world \<Rightarrow> game_reply \<times> world" where
  "post_api st real e dc ds envelope w =
     (case MaintenanceMiddleware st real ''/api'' of
        Some m \<Rightarrow> (GameError 5001 m, w)
      | None \<Rightarrow> dispatch e dc ds envelope w)"

section \<open>The contract of reloading\<close>

text \<open>
  \<open>load\<close> is what a server does with the answer of its query: an error leaves the store, success does not
  depend on it.  \<open>trigger\<close> reloads here and then publishes, \<open>received\<close> is the reaction to a message.
\<close>

locale reloading =
  fixes load :: "'q \<Rightarrow> 's \<Rightarrow> string option \<times> 's"
    and trigger :: "'q \<Rightarrow> string option \<Rightarrow> 's \<Rightarrow> string option \<times> 's"
    and received :: "string \<Rightarrow> string \<Rightarrow> 'q \<Rightarrow> 's \<Rightarrow> 's"
  assumes keeps: "fst (load q st) = Some e \<Longrightarrow> snd (load q st) = st"
    and fresh: "fst (load q st) = None \<Longrightarrow> load q st' = load q st"
    and trigger: "trigger q pub st = (case load q st of (Some e, st') \<Rightarrow> (Some e, st') | (None, st') \<Rightarrow> (pub, st'))"
    and received: "received self payload q st = (if payload = self \<and> self \<noteq> [] then st else snd (load q st))"
begin

lemma trigger_error: "fst (trigger q None st) = Some e \<Longrightarrow> snd (trigger q None st) = st"
  using keeps [of q st e] by (auto simp: trigger split: prod.splits option.splits)

text \<open>After a reload that succeeds and is delivered, every server whose own query answers the same holds
  the same data, the publisher included.\<close>

lemma fleet_agrees:
  assumes "fst (trigger q None st) = None" and "(self', st') \<in> set others" and "self \<noteq> []"
  shows "received self self q (snd (trigger q None st)) = snd (trigger q None st)
    \<and> (self' \<noteq> self \<longrightarrow> received self' self q st' = snd (trigger q None st))"
  using assms fresh [of q st st'] by (auto simp: trigger received split: prod.splits option.splits)

text \<open>A server that cannot load keeps what it has.\<close>

lemma received_failing: "fst (load q st) = Some e \<Longrightarrow> received self payload q st = st"
  using keeps by (simp add: received)

end

interpretation resources: reloading resource_LoadAll resource_Trigger resource_received
  by unfold_locales (auto simp: resource_LoadAll_def resource_Trigger_def resource_received_def split: sum.splits)

interpretation designs: reloading "LoadActive ld" "design_Trigger ld" "\<lambda>self payload. design_received self payload ld" for ld
  by unfold_locales (auto simp: LoadActive_def design_Trigger_def design_received_def Let_def split: sum.splits if_splits)

section \<open>Maintenance of the game\<close>

lemma maintenance_FindActive_set: "set (maintenance_FindActive rows) = {m \<in> set rows. mt_use_flag m = 1}"
  by (auto simp: maintenance_FindActive_def)

lemma find_first_sorted:
  assumes "sorted (map f (rev xs))" and "find P xs = Some m" and "y \<in> set xs" and "P y"
  shows "f y \<le> f m"
  using assms
proof (induction xs)
  case (Cons x xs)
  then show ?case by (auto simp: sorted_append split: if_splits)
qed simp

text \<open>Of the windows that are open the one with the largest version is in force.\<close>

lemma newest_maintenance:
  assumes "ActiveMaintenance now (maintenance_FindActive rows) = Some m"
  shows "m \<in> set rows \<and> mt_use_flag m = 1 \<and> mt_start_time m \<le> now \<and> now < mt_end_time m
    \<and> (\<forall>m' \<in> set rows. mt_use_flag m' = 1 \<and> mt_start_time m' \<le> now \<and> now < mt_end_time m'
         \<longrightarrow> mt_maintenance_version m' \<le> mt_maintenance_version m)"
proof -
  have s: "sorted (map mt_maintenance_version (rev (maintenance_FindActive rows)))" by (simp add: maintenance_FindActive_def)
  have f: "find (\<lambda>m. mt_start_time m \<le> now \<and> now < mt_end_time m) (maintenance_FindActive rows) = Some m"
    using assms by (simp add: ActiveMaintenance_def)
  from find_first_sorted [OF s f] maintenance_FindActive_set [of rows] f show ?thesis by (auto simp: find_Some_iff dest: nth_mem)
qed

text \<open>During a window the game API answers with its message and does nothing; outside it, and for the
  admin console always, the middleware is not there.\<close>

lemma maintenance_closes:
  assumes "m \<in> set rows" and "mt_use_flag m = 1" and "mt_start_time m \<le> of_int (real div 1000000000)"
    and "of_int (real div 1000000000) < mt_end_time m"
  shows "\<exists>text. post_api (maintenance_FindActive rows) real e dc ds envelope w = (GameError 5001 text, w)"
proof -
  let ?now = "of_int (real div 1000000000) :: uint32"
  have "m \<in> set (maintenance_FindActive rows)" using assms(1,2) by (simp add: maintenance_FindActive_set)
  then have "ActiveMaintenance ?now (maintenance_FindActive rows) \<noteq> None"
    using assms(3,4) by (auto simp: ActiveMaintenance_def find_None_iff)
  then show ?thesis by (auto simp: post_api_def MaintenanceMiddleware_def)
qed

lemma maintenance_open:
  assumes "\<forall>m \<in> set rows. mt_use_flag m = 1 \<longrightarrow> \<not> (mt_start_time m \<le> of_int (real div 1000000000) \<and> of_int (real div 1000000000) < mt_end_time m)"
  shows "post_api (maintenance_FindActive rows) real e dc ds envelope w = dispatch e dc ds envelope w"
proof -
  have "ActiveMaintenance (of_int (real div 1000000000)) (maintenance_FindActive rows) = None"
    using assms by (auto simp: ActiveMaintenance_def find_None_iff maintenance_FindActive_set)
  then show ?thesis by (simp add: post_api_def MaintenanceMiddleware_def)
qed

lemma maintenance_admin: "prefix ''/admin/'' path \<Longrightarrow> MaintenanceMiddleware st real path = None"
  by (simp add: MaintenanceMiddleware_def)

end
