(* ===== verification/GameProperties.thy ===== *)
theory GameProperties
  imports GameLogin Maintenance
begin

text \<open>
  The properties of the game server, each with a run of the model it applies to: a small server with
  one shard, and a user of it with one card.
\<close>

section \<open>A small server\<close>

definition demo_registry :: "unit registry" where
  "demo_registry = register_all [(1, \<lparr>db_dbName = ''game'', db_handle = ()\<rparr>, 0), (2, \<lparr>db_dbName = ''shard'', db_handle = ()\<rparr>, 1)]"

definition demo_env :: env where
  "demo_env = \<lparr>en_fault = (\<lambda>_. None), en_applied = (\<lambda>_. False), en_now = (\<lambda>_. 1000000000), en_rand = (\<lambda>_. 0),
     en_token = (\<lambda>_. ''token''), en_freed = (\<lambda>_. False), en_delete_fault = (\<lambda>_. None), en_shards = demo_registry\<rparr>"

definition demo_world :: world where
  "demo_world = \<lparr>w_db = (\<lambda>_ _. \<lparr>gt_rows = [], gt_next = 1\<rparr>), w_cache = (\<lambda>_. Map.empty), w_session = Map.empty,
     w_lock = Map.empty, w_tick = 0\<rparr>"

definition demo_catalog :: "unit catalog" where
  "demo_catalog = (NewCatalog ''1'')\<lparr>ct_item := [(25000, \<lparr>id_idx = 1, id_item_id = 25000, id_comment = [], id_item_type = 3\<rparr>)]\<rparr>"

definition demo_designs :: "unit design_store" where
  "demo_designs = [''c'' \<mapsto> demo_catalog]"

definition demo_decoders :: decoders where
  "demo_decoders = \<lparr>dc_login = (\<lambda>b. Some (77, b)), dc_upgrade = (\<lambda>_. Some 5)\<rparr>"

definition demo_game_request :: "uint32 \<Rightarrow> uint64 \<Rightarrow> game_request" where
  "demo_game_request a uid = \<lparr>gr_action = a, gr_user_id = uid, gr_client_version = ''c'', gr_session_token = ''token'', gr_body = ''dev''\<rparr>"

definition demo_account :: account where
  "demo_account = \<lparr>ac_user_id = 9, ac_channel_uid = 77, ac_device_id = ''dev'', ac_is_active = 1, ac_db_shard_id = 2,
     ac_insert_time = 0, ac_update_time = 0\<rparr>"

definition demo_card :: card where
  "demo_card = \<lparr>cr_idx = 5, cr_user_id = 9, cr_card_id = 100, cr_two_way_idx = 0, cr_level_break_step = 0,
     cr_level_break_cur_material = 0, cr_limit_break_level = 0, cr_limit_break_exp = 0, cr_level = 3, cr_exp = 0,
     cr_exp_exceed = 0, cr_theme_id = 0, cr_extra_theme_id = 0, cr_is_lock = 0, cr_skill = [], cr_potential_list = [],
     cr_enhance_card_idx = 0, cr_insert_time = 0, cr_update_time = 0\<rparr>"

text \<open>User 9 has an account on shard 2, a card there and a session; nothing is cached.\<close>

definition demo_user :: world where
  "demo_user = demo_world\<lparr>w_db := (w_db demo_world)
       (1 := (w_db demo_world 1)(''TB_ACCOUNT'' := \<lparr>gt_rows = [MAccount demo_account], gt_next = 10\<rparr>),
        2 := (w_db demo_world 2)(''TB_CARD'' := \<lparr>gt_rows = [MCard demo_card], gt_next = 6\<rparr>)),
     w_session := [9 \<mapsto> ''token'']\<rparr>"

lemma demo_shards [simp]:
  "PickShard 0 demo_registry = Some 2" "rg_total demo_registry = 1" "GetShard 2 demo_registry \<noteq> None"
  by code_simp+

lemma demo_env_simps [simp]:
  "en_fault demo_env k = None" "en_now demo_env k = 1000000000" "en_rand demo_env k = 0" "en_token demo_env k = ''token''"
  "en_freed demo_env k = False" "en_delete_fault demo_env k = None" "en_shards demo_env = demo_registry"
  by (simp_all add: demo_env_def)

lemma demo_designs_simps [simp]:
  "GetByClientVersion demo_designs ''c'' = Some demo_catalog"
  "design_Find (ct_item demo_catalog) 25000 = Some \<lparr>id_idx = 1, id_item_id = 25000, id_comment = [], id_item_type = 3\<rparr>"
  by code_simp+

lemmas demo_defs = demo_decoders_def demo_game_request_def demo_account_def demo_world_def demo_user_def demo_card_def

lemmas request_run = dispatch_def action_ids_def check_session_def no_auth_def VerifyAndRefresh_def with_lock_def
  lock_Release_def serve_action_def run_action_def handle_Login_def handle_assets_def handle_items_def
  handle_cards_def UpgradeCardLevel_def account_Login_def FindUserIdByChannelUID_def account_PickShard_def
  new_account_grants_def AddAsset_def GetAsset_def AddItem_def GetItem_def GetCard_def ConsumeItem_def session_Set_def

lemmas uow_run = CreateNow_def entity_db_def db_create_def New_def insert_row_def put_rows_def storeModel_def markDirty_def
  SetUserID_def GameDBShardID_def timestamp_column_def Assets_def Items_def Cards_def LoadList_def cache_get_def cache_set_def
  put_fields_def put_store_def FindList_def FindOne_def ShardDB_def Account_def LoadOne_from_def shard_of_def Create_def queueOp_def
  Update_def CommitOrRollback_def Commit_def group_ops_def Transaction_def SaveTx_def update_row_def update_caches_def
  store_values_def

text \<open>The lock of a user nobody holds is taken at once.\<close>

lemma lock_free:
  assumes "w_lock w uid = None" and "\<And>k. en_fault e k = None"
  shows "run_state (lock_Acquire e uid) (w, u) = (Some (en_token e (w_tick w)),
    w\<lparr>w_lock := (w_lock w)(uid \<mapsto> en_token e (w_tick w)), w_tick := Suc (Suc (w_tick w))\<rparr>, u)"
proof -
  let ?t = "en_token e (w_tick w)"
  have "run_state (acquire_loop e uid ?t (Suc n)) (w\<lparr>w_tick := Suc (w_tick w)\<rparr>, u)
    = (Some ?t, w\<lparr>w_lock := (w_lock w)(uid \<mapsto> ?t), w_tick := Suc (Suc (w_tick w))\<rparr>, u)" for n
    using assms by simp
  from this [of 59] show ?thesis by (simp add: lock_Acquire_def userLockMaxRetries_def)
qed

lemma demo_login:
  "\<exists>sy w'. dispatch demo_env demo_decoders demo_designs (Some (demo_game_request 1001 0)) demo_world
     = (GameOK (LoginResponse 1 77 True ''token'') sy, w')"
  by (simp add: request_run uow_run demo_defs)

lemma demo_cards:
  "\<exists>sy w'. dispatch demo_env demo_decoders demo_designs (Some (demo_game_request 2001 9)) demo_user
     = (GameOK (GetCardsResponse (toCardData (MCard demo_card))) sy, w')"
  by (simp add: request_run uow_run demo_defs lock_free)


lemma demo_good: "good demo_world" "good demo_user" "owned_rows demo_world"
proof -
  have c: "coherent demo_world" "coherent demo_user" by (simp_all add: coherent_def demo_defs)
  have "db_inv demo_world" by (simp add: db_inv_def table_ok_def demo_world_def)
  moreover have "db_inv demo_user" by (simp add: db_inv_def table_ok_def demo_defs)
  ultimately show "good demo_world" "good demo_user" using c by (simp_all add: good_def)
  show "owned_rows demo_world" by (simp add: owned_rows_def user_rows_def demo_world_def)
qed

lemma demo_cfg: "en_shards demo_env = register_all [(1, \<lparr>db_dbName = ''game'', db_handle = ()\<rparr>, 0), (2, \<lparr>db_dbName = ''shard'', db_handle = ()\<rparr>, 1)]"
  by (simp add: demo_registry_def)

section \<open>The cache\<close>

text \<open>
  The states of a server with the shards \<open>cfg\<close>: requests one after another, each with its own faults,
  body and catalogs of \<open>D\<close>, as long as deleting cache keys works; and between them cached values,
  sessions and locks that run out.
\<close>

inductive served :: "(int \<times> unit database \<times> int) list \<Rightarrow> 'b design_store set \<Rightarrow> world \<Rightarrow> world \<Rightarrow> bool"
  for cfg D w0 where
  start: "served cfg D w0 w0"
| request: "served cfg D w0 (snd (dispatch e dc ds envelope w))"
    if "served cfg D w0 w" "ds \<in> D" "en_shards e = register_all cfg" "\<forall>n. en_delete_fault e n = None"
| expire: "served cfg D w0 w'"
    if "served cfg D w0 w" "w_db w' = w_db w" "\<And>v f c. w_cache w' v f = Some c \<Longrightarrow> w_cache w v f = Some c"

lemma served_good:
  assumes "served cfg D w0 w" and "good w0"
  shows "good w"
  using assms
proof (induction rule: served.induct)
  case (request w ds e dc envelope)
  then show ?case using dispatch_good by blast
next
  case (expire w w')
  then have "coherent w" "db_inv w" by (simp_all add: good_def)
  then have "coherent w'" unfolding coherent_def entry_ok_cong [OF expire.hyps(2)] using expire.hyps(3) by blast
  with \<open>db_inv w\<close> show ?case by (simp add: good_def db_inv_cong [OF expire.hyps(2)])
qed




section \<open>Who may change what\<close>

text \<open>C2: The rows of a user change only outside the maintenance windows, and only through a login or
  through a card upgrade that names that user and carries the session token stored for it, while the
  server holds the user's lock: it was free, or its holder had let it go.  Every other request, whatever
  its bytes, leaves all rows alone, and no request but a login touches the rows of another user.\<close>

theorem only_the_session_writes:
  assumes "coherent w" and "db_inv w" and "en_shards e = register_all cfg"
    and "user_rows (snd (post_api (maintenance_FindActive ms) real e dc ds envelope w)) d t v \<noteq> user_rows w d t v"
  shows "(\<forall>m \<in> set ms. mt_use_flag m = 1 \<longrightarrow>
      \<not> (mt_start_time m \<le> of_int (real div 1000000000) \<and> of_int (real div 1000000000) < mt_end_time m))
    \<and> (\<exists>req a c. envelope = Some req \<and> map_of action_ids (gr_action req) = Some a
    \<and> GetByClientVersion ds (gr_client_version req) = Some c
    \<and> (a = ActLogin \<or> a = ActUpgradeCardLevel \<and> gr_user_id req = v \<and> v \<noteq> 0 \<and> gr_session_token req \<noteq> []
         \<and> w_session w v = Some (gr_session_token req) \<and> (w_lock w v = None \<or> (\<exists>k. en_freed e k))))"
proof -
  have g: "good w" using assms(1,2) by (simp add: good_def)
  have open_now: "\<forall>m \<in> set ms. mt_use_flag m = 1 \<longrightarrow>
      \<not> (mt_start_time m \<le> of_int (real div 1000000000) \<and> of_int (real div 1000000000) < mt_end_time m)"
    using maintenance_closes [of _ ms real e dc ds envelope w] assms(4) by fastforce
  from maintenance_open [OF this, of e dc ds envelope w] assms(4)
  have "user_rows (snd (dispatch e dc ds envelope w)) d t v \<noteq> user_rows w d t v" by simp
  from changed_rows [OF g assms(3) this] open_now show ?thesis by blast
qed

text \<open>The upgrade of user 9's card at second 1000, after a window that ended at second 100.\<close>

definition demo_window :: maintenance where
  "demo_window = \<lparr>mt_idx = 1, mt_server_type = 0, mt_start_time = 50, mt_end_time = 100, mt_msg = ''closed'',
     mt_maintenance_version = 1, mt_use_flag = 1, mt_last_modifier = [], mt_description = [], mt_insert_time = 0, mt_update_time = 0\<rparr>"

lemma only_the_session_writes_witness:
  "user_rows (snd (post_api (maintenance_FindActive [demo_window]) 1000000000000 demo_env demo_decoders demo_designs
       (Some (demo_game_request 2002 9)) demo_user)) 2 ''TB_CARD'' 9 \<noteq> user_rows demo_user 2 ''TB_CARD'' 9
   \<and> (\<exists>req. Some (demo_game_request 2002 9) = Some req \<and> w_session demo_user 9 = Some (gr_session_token req))"
proof -
  have "user_rows (snd (dispatch demo_env demo_decoders demo_designs (Some (demo_game_request 2002 9)) demo_user)) 2 ''TB_CARD'' 9
     \<noteq> user_rows demo_user 2 ''TB_CARD'' 9"
    by (simp add: request_run uow_run demo_defs lock_free user_rows_def)
  moreover have "post_api (maintenance_FindActive [demo_window]) 1000000000000 demo_env demo_decoders demo_designs
      (Some (demo_game_request 2002 9)) demo_user
    = dispatch demo_env demo_decoders demo_designs (Some (demo_game_request 2002 9)) demo_user"
    by (rule maintenance_open) (simp add: demo_window_def)
  ultimately have ch: "user_rows (snd (post_api (maintenance_FindActive [demo_window]) 1000000000000 demo_env demo_decoders
      demo_designs (Some (demo_game_request 2002 9)) demo_user)) 2 ''TB_CARD'' 9 \<noteq> user_rows demo_user 2 ''TB_CARD'' 9" by simp
  have "map_of action_ids (gr_action (demo_game_request 2002 9)) = Some ActUpgradeCardLevel"
    by (simp add: action_ids_def demo_game_request_def)
  with only_the_session_writes [OF _ _ demo_cfg ch] demo_good(2) ch show ?thesis by (auto simp: good_def)
qed

section \<open>Answers\<close>

text \<open>C5: The assets, items and cards a user is shown are exactly the rows the databases hold for it: the
  cache, the shards and the unit of work cannot be seen in the answer.  Asking changes no row.\<close>

theorem lists_show_the_database:
  assumes "coherent w" and "db_inv w" and "dispatch e dc ds (Some req) w = (GameOK m sy, w')"
    and "map_of action_ids (gr_action req) = Some a" and "a \<in> {ActGetAssets, ActGetItems, ActGetCards}"
  shows "database_answer w (gr_user_id req) a = Some m \<and> w_db w' = w_db w"
proof -
  have "good w" "a = ActGetAssets \<or> a = ActGetItems \<or> a = ActGetCards" using assms(1,2,5) by (simp_all add: good_def)
  from lists_from_database [OF this(1) assms(3,4) this(2)] show ?thesis .
qed

lemma lists_show_the_database_witness:
  "\<exists>m sy w'. dispatch demo_env demo_decoders demo_designs (Some (demo_game_request 2001 9)) demo_user = (GameOK m sy, w')
     \<and> m = GetCardsResponse (toCardData (MCard demo_card)) \<and> database_answer demo_user 9 ActGetCards = Some m"
proof -
  obtain sy w' where run: "dispatch demo_env demo_decoders demo_designs (Some (demo_game_request 2001 9)) demo_user
      = (GameOK (GetCardsResponse (toCardData (MCard demo_card))) sy, w')" using demo_cards by blast
  have "map_of action_ids (gr_action (demo_game_request 2001 9)) = Some ActGetCards" "gr_user_id (demo_game_request 2001 9) = 9"
    by (simp_all add: action_ids_def demo_game_request_def)
  with lists_show_the_database [OF _ _ run] demo_good(2) run show ?thesis by (auto simp: good_def)
qed

section \<open>Upgrades\<close>

text \<open>C3: A card upgrade that is answered has happened, once and for that card only: the database now holds
  the card with its level one higher (in the 16 bits of the column) and every other card of the user as
  before, and the answer shows the new card.\<close>

theorem upgrade_persists:
  assumes "coherent w" and "db_inv w"
    and "dispatch e dc ds (Some req) w = (GameOK m sy, w')"
    and "map_of action_ids (gr_action req) = Some ActUpgradeCardLevel" and "dc_upgrade dc (gr_body req) = Some i"
  shows "same_rows (rows_of w' EntityCards ''TB_CARD'' (gr_user_id req)) (upgraded i (rows_of w EntityCards ''TB_CARD'' (gr_user_id req)))
    \<and> (\<exists>r \<in> set (rows_of w EntityCards ''TB_CARD'' (gr_user_id req)).
         is_card i r \<and> m = UpgradeCardLevelResponse (toCardData (level_up r)))"
proof -
  have g: "good w" using assms(1,2) by (simp add: good_def)
  obtain a c w1 l w2 w3 u3 where p: "map_of action_ids (gr_action req) = Some a" "GetByClientVersion ds (gr_client_version req) = Some c"
    "run_state (check_session e a req) (w, New (gr_user_id req) c) = (None, w1, New (gr_user_id req) c)"
    "run_state (if gr_user_id req \<noteq> 0 then lock_Acquire e (gr_user_id req) else State_Monad.return (Some [])) (w1, New (gr_user_id req) c)
      = (Some l, w2, New (gr_user_id req) c)"
    "run_state (serve_action e dc a (gr_body req)) (w2, New (gr_user_id req) c) = (GameOK m sy, w3, u3)"
    "w_db w' = w_db w3" "same_data w w2" "w_session w' = w_session w3"
    by (rule served_parts [OF assms(3)]) simp
  obtain w4 u4 where h: "run_state (run_action e dc a (gr_body req)) (w2, New (gr_user_id req) c) = (Inr m, w4, u4)"
    "run_state (CommitOrRollback e) (w4, u4) = (Inr (), w3, u3)" by (rule serve_ok [OF p(5)])
  have up: "run_state (UpgradeCardLevel e (Some i)) (w2, New (gr_user_id req) c) = (Inr m, w4, u4)"
    using h(1) p(1) assms(4,5) by (simp add: run_action_def)
  have db: "w_db w2 = w_db w" using p(7) by (simp add: same_data_def)
  from upgrade_request [OF same_data_good [OF p(7) g] up h(2)] show ?thesis
    by (simp add: rows_of_cong [OF db] rows_of_cong [OF p(6)])
qed

lemma upgrade_persists_witness:
  "\<exists>m sy w'. dispatch demo_env demo_decoders demo_designs (Some (demo_game_request 2002 9)) demo_user = (GameOK m sy, w')
     \<and> rows_of demo_user EntityCards ''TB_CARD'' 9 = [MCard demo_card]
     \<and> same_rows (rows_of w' EntityCards ''TB_CARD'' 9) [MCard (demo_card\<lparr>cr_level := 4\<rparr>)]"
proof -
  obtain m sy w' where run: "dispatch demo_env demo_decoders demo_designs (Some (demo_game_request 2002 9)) demo_user = (GameOK m sy, w')"
    by (simp add: request_run uow_run demo_defs lock_free)
  have rows: "rows_of demo_user EntityCards ''TB_CARD'' 9 = [MCard demo_card]"
    by (simp add: rows_of_def db_of_def user_rows_def demo_defs GameDBShardID_def)
  have "map_of action_ids (gr_action (demo_game_request 2002 9)) = Some ActUpgradeCardLevel"
    "dc_upgrade demo_decoders (gr_body (demo_game_request 2002 9)) = Some 5" "gr_user_id (demo_game_request 2002 9) = 9"
    by (simp_all add: action_ids_def demo_game_request_def demo_decoders_def)
  moreover have "upgraded 5 [MCard demo_card] = [MCard (demo_card\<lparr>cr_level := 4\<rparr>)]"
    by (simp add: upgraded_def level_up_def demo_card_def)
  ultimately show ?thesis using upgrade_persists [OF _ _ run, of 5] demo_good(2) run rows by (auto simp: good_def)
qed


section \<open>The first login\<close>



section \<open>Consuming\<close>

text \<open>C6: Consuming an item takes exactly what was asked and only when it is there: with at least that much
  the amount falls by it without wrapping and no other object of the request changes; with less the answer
  is error 3102 and nothing changes; an item the user does not have is error 3101.\<close>

theorem consume_never_overdraws:
  assumes "reqinv [] w u" and "run_state (GetItem e i) (w, u) = (Inr p, w1, u1)"
    and "run_state (ConsumeItem e i n) (w, u) = (res, w', u')"
  shows "case p of
      None \<Rightarrow> (\<exists>m. res = Inl (Coded 3101 m)) \<and> w' = w1 \<and> u' = u1
    | Some a \<Rightarrow> if unat (item_amount (u_heap u1 ! a)) < unat n
        then (\<exists>m. res = Inl (Coded 3102 m)) \<and> w' = w1 \<and> u' = u1
        else res = Inr () \<and> is_item i (u_heap u' ! a)
          \<and> unat (item_amount (u_heap u' ! a)) + unat n = unat (item_amount (u_heap u1 ! a))
          \<and> (\<forall>b < length (u_heap u1). b \<noteq> a \<longrightarrow> u_heap u' ! b = u_heap u1 ! b)"
proof (cases p)
  case None
  then show ?thesis using assms(2,3) by (auto simp: ConsumeItem_def)
next
  case (Some a)
  show ?thesis
  proof (cases "unat (item_amount (u_heap u1 ! a)) < unat n")
    case True
    then show ?thesis using assms(2,3) Some by (auto simp: ConsumeItem_def word_less_nat_alt)
  next
    case False
    then have le: "\<not> item_amount (u_heap u1 ! a) < n" by (simp add: word_less_nat_alt)
    let ?f = "on_item (\<lambda>x. x\<lparr>it_amount := it_amount x - n, it_update_time := en_now e (w_tick w1)\<rparr>)"
    obtain z where up: "run_state (Update e EntityItems a)
        (w1\<lparr>w_tick := Suc (w_tick w1)\<rparr>, u1\<lparr>u_heap := (u_heap u1)[a := ?f (u_heap u1 ! a)]\<rparr>) = (z, w', u')" and res: "res = Inr ()"
      using assms(2,3) Some le by (auto simp: ConsumeItem_def split: prod.splits)
    have "keys (?f (u_heap u1 ! a)) = keys (u_heap u1 ! a)" by simp
    note c = items.change_found(3-6) [where f = ?f, OF assms(1) assms(2) [unfolded Some] this up]
    then obtain x where x: "u_heap u1 ! a = MItem x" by (cases "u_heap u1 ! a") auto
    have "unat (it_amount x - n) + unat n = unat (it_amount x)"
      using le x by (simp add: unat_sub word_le_nat_alt word_less_nat_alt not_less)
    with c x False res Some show ?thesis by simp
  qed
qed


text \<open>The user with five of item 7 consumes three of them.\<close>

definition demo_item :: item where
  "demo_item = \<lparr>it_idx = 4, it_user_id = 9, it_item_type = 1, it_item_id = 7, it_amount = 5, it_insert_time = 0, it_update_time = 0\<rparr>"

definition demo_bag :: world where
  "demo_bag = put_rows 2 ''TB_ITEM'' \<lparr>gt_rows = [MItem demo_item], gt_next = 6\<rparr> demo_user"

lemma consume_never_overdraws_witness:
  "\<exists>w' u'. run_state (ConsumeItem demo_env 7 3) (demo_bag, New 9 demo_catalog) = (Inr (), w', u')
     \<and> unat (item_amount (u_heap u' ! 1)) + 3 = 5"
proof -
  have "good demo_bag" by (simp add: good_def coherent_def db_inv_def table_ok_def demo_bag_def demo_item_def demo_defs put_rows_def)
  then have r: "reqinv [] demo_bag (New 9 demo_catalog)" by (rule reqinv_empty) (simp_all add: New_def)
  have "\<exists>w1 u1. run_state (GetItem demo_env 7) (demo_bag, New 9 demo_catalog) = (Inr (Some 1), w1, u1) \<and> u_heap u1 ! 1 = MItem demo_item"
    by (simp add: GetItem_def uow_run demo_bag_def demo_item_def demo_defs)
  then obtain w1 u1 where g: "run_state (GetItem demo_env 7) (demo_bag, New 9 demo_catalog) = (Inr (Some 1), w1, u1)"
    "u_heap u1 ! 1 = MItem demo_item" by blast
  obtain res w' u' where c: "run_state (ConsumeItem demo_env 7 3) (demo_bag, New 9 demo_catalog) = (res, w', u')" by (rule prod_cases3)
  from consume_never_overdraws [OF r g(1) c] g(2) have "res = Inr () \<and> unat (item_amount (u_heap u' ! 1)) + 3 = 5"
    by (simp add: demo_item_def)
  with c show ?thesis by blast
qed

end
