(* ===== verification/Redis.thy ===== *)
theory Redis
  imports GameApi
begin

text \<open>
  Redis as the stores of \<^verbatim>\<open>internal/cache\<close> use it: string and hash values with a time to live, the
  commands and the three Lua scripts (each one atomic), a clock in milliseconds, and a client call
  that can fail before or after the command took effect.
\<close>

section \<open>Values and time\<close>

datatype rvalue = RStr string | RHash "string \<rightharpoonup> string"

text \<open>A value with the time at which it ends, if it does.\<close>

type_synonym redis = "string \<rightharpoonup> rvalue \<times> nat option"

definition rd_get :: "nat \<Rightarrow> redis \<Rightarrow> string \<Rightarrow> rvalue option" where
  "rd_get now r k =
     (case r k of
        None \<Rightarrow> None
      | Some (v, None) \<Rightarrow> Some v
      | Some (v, Some t) \<Rightarrow> if now < t then Some v else None)"

text \<open>\<open>RNil\<close> is \<^verbatim>\<open>redis.Nil\<close>, the answer to a read of a missing key and to a refused
  \<^verbatim>\<open>SET NX\<close>; \<open>RNet\<close> is a call that failed on its way.\<close>

datatype rerror = RNil | RWrongType | RNet string

type_synonym 'a rcmd = "nat \<Rightarrow> redis \<Rightarrow> (rerror + 'a) \<times> redis"

section \<open>Commands\<close>

definition cmd_SETNX :: "string \<Rightarrow> string \<Rightarrow> nat \<Rightarrow> unit rcmd" where
  "cmd_SETNX k v ttl now r =
     (if rd_get now r k = None then (Inr (), r(k \<mapsto> (RStr v, Some (now + ttl)))) else (Inl RNil, r))"

definition cmd_SET :: "string \<Rightarrow> string \<Rightarrow> nat \<Rightarrow> unit rcmd" where
  "cmd_SET k v ttl now r = (Inr (), r(k \<mapsto> (RStr v, Some (now + ttl))))"

definition cmd_EXISTS :: "string \<Rightarrow> bool rcmd" where
  "cmd_EXISTS k now r = (Inr (rd_get now r k \<noteq> None), r)"

definition cmd_DEL :: "string \<Rightarrow> unit rcmd" where
  "cmd_DEL k now r = (Inr (), r(k := None))"

definition cmd_EXPIRE :: "string \<Rightarrow> nat \<Rightarrow> unit rcmd" where
  "cmd_EXPIRE k ttl now r =
     (Inr (), case rd_get now r k of None \<Rightarrow> r | Some v \<Rightarrow> r(k \<mapsto> (v, Some (now + ttl))))"

definition cmd_HGET :: "string \<Rightarrow> string \<Rightarrow> string rcmd" where
  "cmd_HGET k f now r =
     (case rd_get now r k of
        None \<Rightarrow> (Inl RNil, r)
      | Some (RStr _) \<Rightarrow> (Inl RWrongType, r)
      | Some (RHash h) \<Rightarrow> (case h f of None \<Rightarrow> (Inl RNil, r) | Some v \<Rightarrow> (Inr v, r)))"

definition cmd_HGETALL :: "string \<Rightarrow> (string \<rightharpoonup> string) rcmd" where
  "cmd_HGETALL k now r =
     (case rd_get now r k of
        None \<Rightarrow> (Inr Map.empty, r)
      | Some (RStr _) \<Rightarrow> (Inl RWrongType, r)
      | Some (RHash h) \<Rightarrow> (Inr h, r))"

text \<open>A hash that loses its last field is gone.\<close>

definition cmd_HDEL :: "string \<Rightarrow> string \<Rightarrow> unit rcmd" where
  "cmd_HDEL k f now r =
     (case rd_get now r k of
        None \<Rightarrow> (Inr (), r)
      | Some (RStr _) \<Rightarrow> (Inl RWrongType, r)
      | Some (RHash h) \<Rightarrow>
          (Inr (), if dom h \<subseteq> {f} then r(k := None) else r(k \<mapsto> (RHash (h(f := None)), snd (the (r k))))))"

section \<open>Scripts\<close>

text \<open>\<^verbatim>\<open>releaseScript\<close>: delete the key only while it holds the token.\<close>

definition releaseScript :: "string \<Rightarrow> string \<Rightarrow> bool rcmd" where
  "releaseScript k token now r =
     (case rd_get now r k of
        None \<Rightarrow> (Inr False, r)
      | Some (RHash _) \<Rightarrow> (Inl RWrongType, r)
      | Some (RStr s) \<Rightarrow> if s = token then (Inr True, r(k := None)) else (Inr False, r))"

text \<open>\<^verbatim>\<open>verifyAndRefreshScript\<close>: only a matching token prolongs the session.\<close>

definition verifyAndRefreshScript :: "string \<Rightarrow> string \<Rightarrow> nat \<Rightarrow> bool rcmd" where
  "verifyAndRefreshScript k token ttl now r =
     (case rd_get now r k of
        None \<Rightarrow> (Inr False, r)
      | Some (RHash _) \<Rightarrow> (Inl RWrongType, r)
      | Some (RStr s) \<Rightarrow> if s = token then (Inr True, r(k \<mapsto> (RStr s, Some (now + ttl)))) else (Inr False, r))"

text \<open>\<^verbatim>\<open>hsetWithTTLScript\<close>: every field, then the time to live; no field leaves a missing key missing.\<close>

definition hsetWithTTLScript :: "string \<Rightarrow> nat \<Rightarrow> (string \<times> string) list \<Rightarrow> unit rcmd" where
  "hsetWithTTLScript k ttl fs now r =
     (case rd_get now r k of
        None \<Rightarrow> (Inr (), if fs = [] then r else r(k \<mapsto> (RHash (fold (\<lambda>(f, v) h. h(f \<mapsto> v)) fs Map.empty), Some (now + ttl))))
      | Some (RStr s) \<Rightarrow> if fs = [] then (Inr (), r(k \<mapsto> (RStr s, Some (now + ttl)))) else (Inl RWrongType, r)
      | Some (RHash h) \<Rightarrow> (Inr (), r(k \<mapsto> (RHash (fold (\<lambda>(f, v) h. h(f \<mapsto> v)) fs h), Some (now + ttl)))))"

section \<open>Calls\<close>

text \<open>A call of the client: with a fault it answers an error, whether or not the command has run.\<close>

definition call :: "(string \<times> bool) option \<Rightarrow> 'a rcmd \<Rightarrow> 'a rcmd" where
  "call fault cmd now r =
     (case fault of
        None \<Rightarrow> cmd now r
      | Some (msg, took) \<Rightarrow> (Inl (RNet msg), if took then snd (cmd now r) else r))"

lemma call_ok [simp]: "call None cmd = cmd"
  by (intro ext) (simp add: call_def)

named_theorems redis_defs
declare cmd_SETNX_def [redis_defs] and cmd_SET_def [redis_defs] and cmd_EXISTS_def [redis_defs] and cmd_DEL_def [redis_defs]
  and cmd_EXPIRE_def [redis_defs] and cmd_HGET_def [redis_defs] and cmd_HGETALL_def [redis_defs] and cmd_HDEL_def [redis_defs]
  and releaseScript_def [redis_defs] and verifyAndRefreshScript_def [redis_defs] and hsetWithTTLScript_def [redis_defs]

section \<open>Reading after writing\<close>

lemma rd_get_set [simp]:
  "rd_get now (r(k \<mapsto> (v, Some t))) k = (if now < t then Some v else None)"
  "rd_get now (r(k := None)) k = None"
  "k' \<noteq> k \<Longrightarrow> rd_get now (r(k := x)) k' = rd_get now r k'"
  by (simp_all add: rd_get_def)

lemma rd_get_raw: "rd_get now r k = Some v \<longleftrightarrow> (\<exists>t. r k = Some (v, t) \<and> (case t of None \<Rightarrow> True | Some x \<Rightarrow> now < x))"
  by (auto simp: rd_get_def split: option.splits)

text \<open>Waiting only forgets.\<close>

lemma rd_get_later: "rd_get now' r k = Some v \<Longrightarrow> now \<le> now' \<Longrightarrow> rd_get now r k = Some v"
  by (auto simp: rd_get_raw split: option.splits)

text \<open>A command on one key leaves the others alone.\<close>

definition on_key :: "string \<Rightarrow> 'a rcmd \<Rightarrow> bool" where
  "on_key k cmd \<longleftrightarrow> (\<forall>now r k'. k' \<noteq> k \<longrightarrow> snd (cmd now r) k' = r k')"

lemma on_key_cmds [simp]:
  "on_key k (cmd_SETNX k v ttl)" "on_key k (cmd_SET k v ttl)" "on_key k (cmd_EXISTS k)" "on_key k (cmd_DEL k)"
  "on_key k (cmd_EXPIRE k ttl)" "on_key k (cmd_HGET k f)" "on_key k (cmd_HGETALL k)" "on_key k (cmd_HDEL k f)"
  "on_key k (releaseScript k tok)" "on_key k (verifyAndRefreshScript k tok ttl)" "on_key k (hsetWithTTLScript k ttl fs)"
  by (simp_all add: on_key_def redis_defs split: option.splits rvalue.splits)

lemma on_key_call [simp]: "on_key k cmd \<Longrightarrow> on_key k (call fault cmd)"
  by (simp add: on_key_def call_def split: option.splits)

lemma on_keyD: "on_key k cmd \<Longrightarrow> k' \<noteq> k \<Longrightarrow> snd (cmd now r) k' = r k'"
  by (simp add: on_key_def)

lemma rd_get_other: "on_key k cmd \<Longrightarrow> k' \<noteq> k \<Longrightarrow> rd_get now' (snd (cmd now r)) k' = rd_get now' r k'"
  by (simp add: rd_get_def on_keyD)

lemmas rd_get_others [simp] = rd_get_other [OF on_key_cmds(1)] rd_get_other [OF on_key_cmds(2)] rd_get_other [OF on_key_cmds(4)]
  rd_get_other [OF on_key_cmds(5)] rd_get_other [OF on_key_cmds(8)] rd_get_other [OF on_key_cmds(9)]
  rd_get_other [OF on_key_cmds(10)] rd_get_other [OF on_key_cmds(11)]

lemma fold_fields: "fold (\<lambda>(f, v) h. h(f \<mapsto> v)) fs h = h ++ map_of (rev fs)"
  by (induction fs arbitrary: h) (auto simp: map_add_def fun_eq_iff split: option.splits)

end
