(* ===== verification/RedisStores.thy ===== *)
theory RedisStores
  imports Redis
begin

text \<open>
  The stores of \<^verbatim>\<open>internal/cache\<close> on Redis: the locks of users and clubs, the sessions, the caches
  of users and clubs, and the two patterns of reading through a cache, \<^verbatim>\<open>GetOrLoad\<close> and
  \<^verbatim>\<open>QueryClub\<close>.  JSON is a parameter, an encoder and a decoder.  The locale \<open>entity_cache\<close> is the Go
  interface of that name with the laws the loaders rely on; both caches interpret it.  The last
  section relates the stores to the world in which the requests of the game server run.
\<close>

section \<open>Keys and tokens\<close>

definition userLockKey :: "uint64 \<Rightarrow> string" where
  "userLockKey uid = ''lock:user:'' @ dec (unat uid)"

definition clubLockKey :: "uint64 \<Rightarrow> string" where
  "clubLockKey cid = ''lock:club:'' @ dec (unat cid)"

definition sessionKey :: "uint64 \<Rightarrow> string" where
  "sessionKey uid = ''session:user:'' @ dec (unat uid)"

definition userKey :: "uint64 \<Rightarrow> string" where
  "userKey uid = ''user:'' @ dec (unat uid)"

definition clubKey :: "uint64 \<Rightarrow> string" where
  "clubKey cid = ''club:'' @ dec (unat cid)"

text \<open>Times to live, in milliseconds.\<close>

definition lockTTL :: nat where
  "lockTTL = 10000"

definition sessionTTL :: nat where
  "sessionTTL = 28800000"

definition defaultTTL :: nat where
  "defaultTTL = 1800000"

definition clubTTL :: nat where
  "clubTTL = 60000"

text \<open>\<^verbatim>\<open>newToken\<close>: sixteen random bytes in hexadecimal.\<close>

definition newToken :: "uint8 list \<Rightarrow> string" where
  "newToken bs = concat (map (\<lambda>b. [hex_lower (unat b div 16), hex_lower (unat b mod 16)]) bs)"

section \<open>Locks\<close>

definition userLockRetryDelay :: nat where
  "userLockRetryDelay = 50"

text \<open>What one round of the waiting loop meets: the time, what the other clients have done to Redis
  since the last round, a fault of the call, and whether the request is canceled in the pause.\<close>

record lock_round =
  lr_now :: nat
  lr_others :: "redis \<Rightarrow> redis"
  lr_fault :: "(string \<times> bool) option"
  lr_cancelled :: bool

datatype acquire_error = AcquireTimeout | AcquireCancelled | AcquireRedis rerror

fun acquire_rounds :: "string \<Rightarrow> string \<Rightarrow> (nat \<Rightarrow> lock_round) \<Rightarrow> nat \<Rightarrow> nat \<Rightarrow> redis \<Rightarrow> (acquire_error + string) \<times> redis" where
  "acquire_rounds key token rounds i 0 r = (Inl AcquireTimeout, r)"
| "acquire_rounds key token rounds i (Suc n) r =
     (let l = rounds i in
      case call (lr_fault l) (cmd_SETNX key token lockTTL) (lr_now l) (lr_others l r) of
        (Inr _, r') \<Rightarrow> (Inr token, r')
      | (Inl RNil, r') \<Rightarrow>
          if lr_cancelled l then (Inl AcquireCancelled, r') else acquire_rounds key token rounds (Suc i) n r'
      | (Inl e, r') \<Rightarrow> (Inl (AcquireRedis e), r'))"

definition UserLock_Acquire :: "uint8 list \<Rightarrow> uint64 \<Rightarrow> (nat \<Rightarrow> lock_round) \<Rightarrow> redis \<Rightarrow> (acquire_error + string) \<times> redis" where
  "UserLock_Acquire bs uid rounds r = acquire_rounds (userLockKey uid) (newToken bs) rounds 0 userLockMaxRetries r"

definition UserLock_Release :: "uint64 \<Rightarrow> string \<Rightarrow> bool rcmd" where
  "UserLock_Release uid token = releaseScript (userLockKey uid) token"

definition clubLockMaxRetries :: nat where
  "clubLockMaxRetries = 60"

definition ClubLock_Acquire :: "uint8 list \<Rightarrow> uint64 \<Rightarrow> (nat \<Rightarrow> lock_round) \<Rightarrow> redis \<Rightarrow> (acquire_error + string) \<times> redis" where
  "ClubLock_Acquire bs cid rounds r = acquire_rounds (clubLockKey cid) (newToken bs) rounds 0 clubLockMaxRetries r"

definition ClubLock_Release :: "uint64 \<Rightarrow> string \<Rightarrow> bool rcmd" where
  "ClubLock_Release cid token = releaseScript (clubLockKey cid) token"

section \<open>Sessions\<close>

definition UserSession_Set :: "uint64 \<Rightarrow> string \<Rightarrow> unit rcmd" where
  "UserSession_Set uid token = cmd_SET (sessionKey uid) token sessionTTL"

definition UserSession_VerifyAndRefresh :: "uint64 \<Rightarrow> string \<Rightarrow> bool rcmd" where
  "UserSession_VerifyAndRefresh uid token now r =
     (if token = [] then (Inr False, r) else verifyAndRefreshScript (sessionKey uid) token sessionTTL now r)"

definition UserSession_Delete :: "uint64 \<Rightarrow> unit rcmd" where
  "UserSession_Delete uid = cmd_DEL (sessionKey uid)"

section \<open>Caches\<close>

text \<open>\<^verbatim>\<open>Get\<close> decodes what it reads; a text that does not decode is an error.\<close>

definition decoded :: "(string \<Rightarrow> 'v option) \<Rightarrow> (rerror + string) \<times> redis \<Rightarrow> (rerror + 'v) \<times> redis" where
  "decoded um res =
     (case res of
        (Inl e, r) \<Rightarrow> (Inl e, r)
      | (Inr s, r) \<Rightarrow> (case um s of None \<Rightarrow> (Inl (RNet ''json''), r) | Some v \<Rightarrow> (Inr v, r)))"

definition UserCache_Exists :: "uint64 \<Rightarrow> bool rcmd" where
  "UserCache_Exists uid = cmd_EXISTS (userKey uid)"

definition UserCache_Get :: "(string \<Rightarrow> 'v option) \<Rightarrow> uint64 \<Rightarrow> string \<Rightarrow> 'v rcmd" where
  "UserCache_Get um uid field now r = decoded um (cmd_HGET (userKey uid) field now r)"

definition UserCache_Set :: "('v \<Rightarrow> string) \<Rightarrow> uint64 \<Rightarrow> string \<Rightarrow> 'v \<Rightarrow> unit rcmd" where
  "UserCache_Set ma uid field v = hsetWithTTLScript (userKey uid) defaultTTL [(field, ma v)]"

definition UserCache_SetMulti :: "('v \<Rightarrow> string) \<Rightarrow> uint64 \<Rightarrow> (string \<times> 'v) list \<Rightarrow> unit rcmd" where
  "UserCache_SetMulti ma uid fs now r =
     (if fs = [] then (Inr (), r)
      else hsetWithTTLScript (userKey uid) defaultTTL (map (\<lambda>(f, v). (f, ma v)) fs) now r)"

definition UserCache_LoadAll :: "uint64 \<Rightarrow> (string \<rightharpoonup> string) rcmd" where
  "UserCache_LoadAll uid = cmd_HGETALL (userKey uid)"

definition UserCache_DeleteField :: "uint64 \<Rightarrow> string \<Rightarrow> unit rcmd" where
  "UserCache_DeleteField uid field = cmd_HDEL (userKey uid) field"

definition UserCache_DeleteAll :: "uint64 \<Rightarrow> unit rcmd" where
  "UserCache_DeleteAll uid = cmd_DEL (userKey uid)"

definition UserCache_Refresh :: "uint64 \<Rightarrow> unit rcmd" where
  "UserCache_Refresh uid = cmd_EXPIRE (userKey uid) defaultTTL"

definition ClubCache_Exists :: "uint64 \<Rightarrow> bool rcmd" where
  "ClubCache_Exists cid = cmd_EXISTS (clubKey cid)"

definition ClubCache_Get :: "(string \<Rightarrow> 'v option) \<Rightarrow> uint64 \<Rightarrow> string \<Rightarrow> 'v rcmd" where
  "ClubCache_Get um cid field now r = decoded um (cmd_HGET (clubKey cid) field now r)"

definition ClubCache_Set :: "('v \<Rightarrow> string) \<Rightarrow> uint64 \<Rightarrow> string \<Rightarrow> 'v \<Rightarrow> unit rcmd" where
  "ClubCache_Set ma cid field v = hsetWithTTLScript (clubKey cid) clubTTL [(field, ma v)]"

definition ClubCache_SetMulti :: "('v \<Rightarrow> string) \<Rightarrow> uint64 \<Rightarrow> (string \<times> 'v) list \<Rightarrow> unit rcmd" where
  "ClubCache_SetMulti ma cid fs now r =
     (if fs = [] then (Inr (), r)
      else hsetWithTTLScript (clubKey cid) clubTTL (map (\<lambda>(f, v). (f, ma v)) fs) now r)"

definition ClubCache_LoadAll :: "uint64 \<Rightarrow> (string \<rightharpoonup> string) rcmd" where
  "ClubCache_LoadAll cid = cmd_HGETALL (clubKey cid)"

definition ClubCache_DeleteField :: "uint64 \<Rightarrow> string \<Rightarrow> unit rcmd" where
  "ClubCache_DeleteField cid field = cmd_HDEL (clubKey cid) field"

definition ClubCache_DeleteAll :: "uint64 \<Rightarrow> unit rcmd" where
  "ClubCache_DeleteAll cid = cmd_DEL (clubKey cid)"

definition ClubCache_Refresh :: "uint64 \<Rightarrow> unit rcmd" where
  "ClubCache_Refresh cid = cmd_EXPIRE (clubKey cid) clubTTL"

section \<open>Reading through a cache\<close>

text \<open>Each of the two Redis calls can fail; the loader's error is the caller's, the error of the
  write is dropped.\<close>

definition GetOrLoad ::
  "(string \<Rightarrow> 'v option) \<Rightarrow> ('v \<Rightarrow> string) \<Rightarrow> (string \<times> bool) option \<Rightarrow> (string \<times> bool) option
    \<Rightarrow> uint64 \<Rightarrow> string \<Rightarrow> (go_error + 'v) \<Rightarrow> nat \<Rightarrow> redis \<Rightarrow> (go_error + 'v) \<times> redis" where
  "GetOrLoad um ma f1 f2 uid field loader now r =
     (case call f1 (UserCache_Get um uid field) now r of
        (Inr v, r1) \<Rightarrow> (Inr v, r1)
      | (Inl _, r1) \<Rightarrow>
          (case loader of
             Inl e \<Rightarrow> (Inl e, r1)
           | Inr v \<Rightarrow> (Inr v, snd (call f2 (UserCache_Set ma uid field v) now r1))))"

definition no_club_id :: go_error where
  "no_club_id = Other ''uow: clubID is not set''"

text \<open>\<^verbatim>\<open>QueryClub\<close> and \<^verbatim>\<open>QueryClubList\<close>, at the type of one entity and of a list; \<open>find_in\<close> is
  the query by \<^verbatim>\<open>club_id\<close> on the game database.\<close>

definition QueryClub ::
  "(string \<Rightarrow> 'v option) \<Rightarrow> ('v \<Rightarrow> string) \<Rightarrow> (string \<times> bool) option \<Rightarrow> (string \<times> bool) option
    \<Rightarrow> (uint64 \<Rightarrow> go_error + 'v) \<Rightarrow> uint64 \<Rightarrow> entity_kind \<Rightarrow> nat \<Rightarrow> redis \<Rightarrow> (go_error + 'v) \<times> redis" where
  "QueryClub um ma f1 f2 find_in cid k now r =
     (if cid = 0 then (Inl no_club_id, r)
      else case call f1 (ClubCache_Get um cid (ek_name k)) now r of
        (Inr v, r1) \<Rightarrow> (Inr v, r1)
      | (Inl _, r1) \<Rightarrow>
          (case find_in cid of
             Inl e \<Rightarrow> (Inl e, r1)
           | Inr v \<Rightarrow> (Inr v, snd (call f2 (ClubCache_Set ma cid (ek_name k) v) now r1))))"

definition QueryClubList ::
  "(string \<Rightarrow> 'v list option) \<Rightarrow> ('v list \<Rightarrow> string) \<Rightarrow> (string \<times> bool) option \<Rightarrow> (string \<times> bool) option
    \<Rightarrow> (uint64 \<Rightarrow> go_error + 'v list) \<Rightarrow> uint64 \<Rightarrow> entity_kind \<Rightarrow> nat \<Rightarrow> redis \<Rightarrow> (go_error + 'v list) \<times> redis" where
  "QueryClubList um ma f1 f2 find_in cid k now r =
     (if cid = 0 then (Inl no_club_id, r)
      else case call f1 (ClubCache_Get um cid (ek_name k)) now r of
        (Inr vs, r1) \<Rightarrow> (Inr vs, r1)
      | (Inl _, r1) \<Rightarrow>
          (case find_in cid of
             Inl e \<Rightarrow> (Inl e, r1)
           | Inr vs \<Rightarrow> (Inr vs, snd (call f2 (ClubCache_Set ma cid (ek_name k) vs) now r1))))"

section \<open>Keys never collide\<close>

lemmas key_defs = userLockKey_def clubLockKey_def sessionKey_def userKey_def clubKey_def

lemma redis_keys_inject [simp]:
  "userLockKey i = userLockKey j \<longleftrightarrow> i = j" "clubLockKey i = clubLockKey j \<longleftrightarrow> i = j"
  "sessionKey i = sessionKey j \<longleftrightarrow> i = j" "userKey i = userKey j \<longleftrightarrow> i = j" "clubKey i = clubKey j \<longleftrightarrow> i = j"
  by (simp_all add: key_defs word_unat_eq_iff)

lemma redis_keys_disjoint [simp]:
  "userLockKey i \<noteq> clubLockKey j" "userLockKey i \<noteq> sessionKey j" "userLockKey i \<noteq> userKey j" "userLockKey i \<noteq> clubKey j"
  "clubLockKey i \<noteq> userLockKey j" "clubLockKey i \<noteq> sessionKey j" "clubLockKey i \<noteq> userKey j" "clubLockKey i \<noteq> clubKey j"
  "sessionKey i \<noteq> userLockKey j" "sessionKey i \<noteq> clubLockKey j" "sessionKey i \<noteq> userKey j" "sessionKey i \<noteq> clubKey j"
  "userKey i \<noteq> userLockKey j" "userKey i \<noteq> clubLockKey j" "userKey i \<noteq> sessionKey j" "userKey i \<noteq> clubKey j"
  "clubKey i \<noteq> userLockKey j" "clubKey i \<noteq> clubLockKey j" "clubKey i \<noteq> sessionKey j" "clubKey i \<noteq> userKey j"
  by (simp_all add: key_defs)

lemma hex_lower_code:
  assumes "n < 16"
  shows "(of_char (hex_lower n) :: nat) = (if n < 10 then 48 + n else 87 + n)"
proof -
  have "(of_char (char_of k) :: nat) = k" if "k < 256" for k :: nat using that by (simp add: of_char_of)
  from this [of "48 + n"] this [of "87 + n"] assms show ?thesis unfolding hex_lower_def by (cases "n < 10") simp_all
qed

lemma hex_lower_inject:
  assumes "m < 16" and "n < 16"
  shows "hex_lower m = hex_lower n \<longleftrightarrow> m = n"
proof
  assume "hex_lower m = hex_lower n"
  then have "(if m < 10 then 48 + m else 87 + m) = (if n < 10 then 48 + n else 87 + n)"
    using hex_lower_code [OF assms(1)] hex_lower_code [OF assms(2)] by metis
  then show "m = n" by (cases "m < 10"; cases "n < 10") simp_all
qed (rule arg_cong)

lemma newToken_inject [simp]: "newToken bs = newToken cs \<longleftrightarrow> bs = cs"
proof (induction bs arbitrary: cs)
  case Nil
  then show ?case by (cases cs) (simp_all add: newToken_def)
next
  case (Cons b bs)
  have byte: "hex_lower (unat b div 16) = hex_lower (unat c div 16) \<and> hex_lower (unat b mod 16) = hex_lower (unat c mod 16)
      \<longleftrightarrow> b = c" for c :: uint8
  proof
    assume h: "hex_lower (unat b div 16) = hex_lower (unat c div 16) \<and> hex_lower (unat b mod 16) = hex_lower (unat c mod 16)"
    have "unat x < 16 * 16" for x :: uint8 using unsigned_less [of x] by simp
    then have "unat b div 16 < 16" "unat c div 16 < 16" by (simp_all add: less_mult_imp_div_less)
    with h have "unat b div 16 = unat c div 16" "unat b mod 16 = unat c mod 16" by (simp_all add: hex_lower_inject)
    then have "unat b = unat c" by (metis div_mult_mod_eq)
    then show "b = c" by (simp add: word_unat_eq_iff)
  qed simp
  show ?case
    using Cons.IH byte by (cases cs) (auto simp: newToken_def)
qed

lemma length_newToken [simp]: "length (newToken bs) = 2 * length bs"
  by (induction bs) (simp_all add: newToken_def)

section \<open>The interface of the caches\<close>

text \<open>
  What the loaders may rely on, of a cache whose keys hold no value of another type: a value set is
  read back until its time is up, nothing else becomes readable by setting it, reading changes
  nothing, and waiting only forgets.
\<close>

locale entity_cache =
  fixes ok :: "nat \<Rightarrow> redis \<Rightarrow> bool" and ttl :: nat
    and get :: "uint64 \<Rightarrow> string \<Rightarrow> 'v rcmd" and set' :: "uint64 \<Rightarrow> string \<Rightarrow> 'v \<Rightarrow> unit rcmd"
  assumes ttl_pos: "0 < ttl"
    and get_set: "ok now r \<Longrightarrow> now' < now + ttl \<Longrightarrow> fst (get i f now' (snd (set' i f v now r))) = Inr v"
    and get_set_other: "ok now r \<Longrightarrow> now \<le> now' \<Longrightarrow> (j, h) \<noteq> (i, f)
      \<Longrightarrow> fst (get j h now' (snd (set' i f v now r))) = Inr x \<Longrightarrow> fst (get j h now r) = Inr x"
    and get_pure: "snd (get i f now r) = r"
    and get_later: "fst (get i f now' r) = Inr x \<Longrightarrow> now \<le> now' \<Longrightarrow> fst (get i f now r) = Inr x"
    and set_ok: "ok now r \<Longrightarrow> ok now (snd (set' i f v now r))"
    and ok_later: "ok now r \<Longrightarrow> now \<le> now' \<Longrightarrow> ok now' r"

text \<open>The common body of the readers: the cache, then the loader, then the cache again.\<close>

definition read_through ::
  "(uint64 \<Rightarrow> string \<Rightarrow> 'v rcmd) \<Rightarrow> (uint64 \<Rightarrow> string \<Rightarrow> 'v \<Rightarrow> unit rcmd) \<Rightarrow> (string \<times> bool) option \<Rightarrow> (string \<times> bool) option
    \<Rightarrow> uint64 \<Rightarrow> string \<Rightarrow> (go_error + 'v) \<Rightarrow> nat \<Rightarrow> redis \<Rightarrow> (go_error + 'v) \<times> redis" where
  "read_through g st f1 f2 i field loader now r =
     (case call f1 (g i field) now r of
        (Inr v, r1) \<Rightarrow> (Inr v, r1)
      | (Inl _, r1) \<Rightarrow>
          (case loader of Inl e \<Rightarrow> (Inl e, r1) | Inr v \<Rightarrow> (Inr v, snd (call f2 (st i field v) now r1))))"

context entity_cache
begin

text \<open>A cache is fresh for a source of values if whatever it answers is what the source holds.\<close>

definition fresh :: "(uint64 \<Rightarrow> string \<Rightarrow> go_error + 'v) \<Rightarrow> nat \<Rightarrow> redis \<Rightarrow> bool" where
  "fresh src now r \<longleftrightarrow> ok now r \<and> (\<forall>i f x. fst (get i f now r) = Inr x \<longrightarrow> src i f = Inr x)"

lemma fresh_later: "fresh src now r \<Longrightarrow> now \<le> now' \<Longrightarrow> fresh src now' r"
  by (auto simp: fresh_def intro: ok_later get_later)

lemma fresh_set:
  assumes "fresh src now r" and "src i f = Inr v"
  shows "fresh src now (snd (set' i f v now r))"
  unfolding fresh_def
proof (intro conjI allI impI)
  have k: "ok now r" using assms(1) by (simp add: fresh_def)
  then show "ok now (snd (set' i f v now r))" by (rule set_ok)
  fix j h x
  assume x: "fst (get j h now (snd (set' i f v now r))) = Inr x"
  show "src j h = Inr x"
  proof (cases "(j, h) = (i, f)")
    case True
    with x get_set [OF k, of now i f v] ttl_pos assms(2) show ?thesis by simp
  next
    case False
    from get_set_other [OF k le_refl False x] assms(1) show ?thesis by (simp add: fresh_def)
  qed
qed

text \<open>Through a fresh cache the reader answers as the source, whatever fails, and leaves it fresh.\<close>

lemma read_through_fresh:
  assumes "fresh src now r" and "read_through get set' f1 f2 i f (src i f) now r = (res, r')"
  shows "res = src i f \<and> fresh src now r'"
proof -
  obtain q r1 where c: "call f1 (get i f) now r = (q, r1)" by fastforce
  then have r1: "r1 = r" using get_pure [of i f now r] by (auto simp: call_def split: option.splits if_splits)
  have hit: "src i f = Inr v" if "q = Inr v" for v
    using c that assms(1) by (auto simp: call_def fresh_def split: option.splits prod.splits)
  have w: "fresh src now (snd (call f2 (set' i f v) now r))" if "src i f = Inr v" for v
    using assms(1) fresh_set [OF assms(1) that] by (simp add: call_def split: option.splits)
  show ?thesis
    using assms c r1 hit w by (cases q; cases "src i f") (auto simp: read_through_def)
qed

end

section \<open>Both caches implement it\<close>

text \<open>No key of the family holds a string.\<close>

definition no_strings :: "(uint64 \<Rightarrow> string) \<Rightarrow> nat \<Rightarrow> redis \<Rightarrow> bool" where
  "no_strings key now r \<longleftrightarrow> (\<forall>i s. rd_get now r (key i) \<noteq> Some (RStr s))"

lemma hset_get:
  assumes "no_strings key now r" and "now' < now + ttl" and "um (ma v) = Some v"
  shows "fst (decoded um (cmd_HGET (key i) f now' (snd (hsetWithTTLScript (key i) ttl [(f, ma v)] now r)))) = Inr v"
  using assms by (auto simp: hsetWithTTLScript_def cmd_HGET_def decoded_def no_strings_def split: option.splits rvalue.splits)

lemma decoded_Inr: "fst (decoded um (cmd_HGET k f now r)) = Inr x \<longleftrightarrow> (\<exists>h s. rd_get now r k = Some (RHash h) \<and> h f = Some s \<and> um s = Some x)"
  by (auto simp: decoded_def cmd_HGET_def split: option.splits rvalue.splits)

lemma hset_get_other:
  assumes "no_strings key now r" and "now \<le> now'" and "(j, h) \<noteq> (i, f)" and "inj key"
    and "fst (decoded um (cmd_HGET (key j) h now' (snd (hsetWithTTLScript (key i) ttl [(f, t)] now r)))) = Inr x"
  shows "fst (decoded um (cmd_HGET (key j) h now r)) = Inr x"
proof (cases "j = i")
  case True
  with assms(3) have "h \<noteq> f" by simp
  with assms True show ?thesis
    by (auto simp: decoded_Inr hsetWithTTLScript_def no_strings_def split: option.splits rvalue.splits if_splits)
next
  case False
  with assms(4) have "key j \<noteq> key i" by (simp add: inj_eq)
  with assms(5) have "fst (decoded um (cmd_HGET (key j) h now' r)) = Inr x" by (simp add: decoded_Inr)
  with assms(2) show ?thesis by (auto simp: decoded_Inr dest: rd_get_later)
qed

lemma hset_no_strings:
  assumes "no_strings key now r"
  shows "no_strings key now (snd (hsetWithTTLScript (key i) ttl [(f, t)] now r))"
  unfolding no_strings_def
proof (intro allI notI)
  fix j s
  assume "rd_get now (snd (hsetWithTTLScript (key i) ttl [(f, t)] now r)) (key j) = Some (RStr s)"
  with assms show False
    by (cases "key j = key i") (auto simp: hsetWithTTLScript_def no_strings_def split: option.splits rvalue.splits if_splits)
qed

lemma hash_entity_cache:
  assumes "\<And>v. um (ma v) = Some v" and "inj key" and "0 < ttl"
  shows "entity_cache (no_strings key) ttl (\<lambda>i f now r. decoded um (cmd_HGET (key i) f now r))
    (\<lambda>i f v. hsetWithTTLScript (key i) ttl [(f, ma v)])"
proof
  show "no_strings key now r \<Longrightarrow> now \<le> now' \<Longrightarrow> no_strings key now' r" for now now' r
    by (auto simp: no_strings_def dest: rd_get_later)
  show "snd (decoded um (cmd_HGET (key i) f now r)) = r" for i f now r
    by (simp add: decoded_def cmd_HGET_def split: option.split rvalue.split)
  fix now r now' j h i f v x
  assume "no_strings key now r" "now \<le> now'" "(j, h) \<noteq> (i, f)"
    "fst (decoded um (cmd_HGET (key j) h now' (snd (hsetWithTTLScript (key i) ttl [(f, ma v)] now r)))) = Inr x"
  with assms(2) show "fst (decoded um (cmd_HGET (key j) h now r)) = Inr x" by (blast intro: hset_get_other)
qed (use assms in \<open>auto simp: hset_no_strings hset_get decoded_Inr dest: rd_get_later\<close>)

lemma inj_keys: "inj userKey" "inj clubKey"
  by (simp_all add: inj_def)

lemma UserCache_entity:
  assumes "\<And>v. um (ma v) = Some v"
  shows "entity_cache (no_strings userKey) defaultTTL (UserCache_Get um) (UserCache_Set ma)"
proof -
  have "UserCache_Get um = (\<lambda>i f now r. decoded um (cmd_HGET (userKey i) f now r))"
    "UserCache_Set ma = (\<lambda>i f v. hsetWithTTLScript (userKey i) defaultTTL [(f, ma v)])"
    by (simp_all add: fun_eq_iff UserCache_Get_def UserCache_Set_def)
  with hash_entity_cache [OF assms inj_keys(1), of defaultTTL] show ?thesis by (simp add: defaultTTL_def)
qed

lemma ClubCache_entity:
  assumes "\<And>v. um (ma v) = Some v"
  shows "entity_cache (no_strings clubKey) clubTTL (ClubCache_Get um) (ClubCache_Set ma)"
proof -
  have "ClubCache_Get um = (\<lambda>i f now r. decoded um (cmd_HGET (clubKey i) f now r))"
    "ClubCache_Set ma = (\<lambda>i f v. hsetWithTTLScript (clubKey i) clubTTL [(f, ma v)])"
    by (simp_all add: fun_eq_iff ClubCache_Get_def ClubCache_Set_def)
  with hash_entity_cache [OF assms inj_keys(2), of clubTTL] show ?thesis by (simp add: clubTTL_def)
qed

text \<open>At raw JSON texts the encoder and the decoder do nothing.\<close>

interpretation user_texts: entity_cache "no_strings userKey" defaultTTL "UserCache_Get Some" "UserCache_Set id"
  by (rule UserCache_entity) simp

interpretation club_texts: entity_cache "no_strings clubKey" clubTTL "ClubCache_Get Some" "ClubCache_Set id"
  by (rule ClubCache_entity) simp

lemma readers_read_through:
  "GetOrLoad um ma f1 f2 i field loader now r = read_through (UserCache_Get um) (UserCache_Set ma) f1 f2 i field loader now r"
  "cid \<noteq> 0 \<Longrightarrow> QueryClub um ma f1 f2 find_in cid k now r
     = read_through (ClubCache_Get um) (ClubCache_Set ma) f1 f2 cid (ek_name k) (find_in cid) now r"
  "cid \<noteq> 0 \<Longrightarrow> QueryClubList um' ma' f1 f2 find_list cid k now r
     = read_through (ClubCache_Get um') (ClubCache_Set ma') f1 f2 cid (ek_name k) (find_list cid) now r"
  by (simp_all add: GetOrLoad_def QueryClub_def QueryClubList_def read_through_def)

lemma get_pure: "snd (decoded um (cmd_HGET k f now r)) = r"
  by (simp add: decoded_def cmd_HGET_def split: option.split rvalue.split)

lemma readers_frame:
  assumes "read_through g st f1 f2 i field loader now r = (res, r')"
    and "\<And>i f now r. snd (g i f now r) = r" and "\<And>i f v. on_key (key i) (st i f v)" and "k \<notin> range key"
  shows "r' k = r k"
proof -
  have "snd (call f1 (g i field) now r) = r" using assms(2) by (simp add: call_def split: option.split)
  moreover have "snd (call f2 (st i field v) now r) k = r k" for v
    using assms(3,4) by (intro on_keyD [of "key i"]) (auto intro: on_key_call)
  ultimately show ?thesis
    using assms(1) by (auto simp: read_through_def split: prod.splits sum.splits)
qed

section \<open>Properties\<close>

text \<open>What a cache answers of a source, at its keys.\<close>

definition user_cache_fresh :: "(string \<Rightarrow> 'v option) \<Rightarrow> (uint64 \<Rightarrow> string \<Rightarrow> go_error + 'v) \<Rightarrow> nat \<Rightarrow> redis \<Rightarrow> bool" where
  "user_cache_fresh um src now r \<longleftrightarrow>
     no_strings userKey now r \<and> (\<forall>i f x. fst (UserCache_Get um i f now r) = Inr x \<longrightarrow> src i f = Inr x)"

definition club_cache_fresh :: "(string \<Rightarrow> 'v option) \<Rightarrow> (uint64 \<Rightarrow> string \<Rightarrow> go_error + 'v) \<Rightarrow> nat \<Rightarrow> redis \<Rightarrow> bool" where
  "club_cache_fresh um src now r \<longleftrightarrow>
     no_strings clubKey now r \<and> (\<forall>i f x. fst (ClubCache_Get um i f now r) = Inr x \<longrightarrow> src i f = Inr x)"

lemma fresh_cong:
  "(\<And>i. r' (userKey i) = r (userKey i)) \<Longrightarrow> user_cache_fresh um src now r' = user_cache_fresh um src now r"
  "(\<And>i. r' (clubKey i) = r (clubKey i)) \<Longrightarrow> club_cache_fresh um src now r' = club_cache_fresh um src now r"
  by (simp_all add: user_cache_fresh_def club_cache_fresh_def no_strings_def UserCache_Get_def ClubCache_Get_def decoded_Inr rd_get_def)

text \<open>C10: reading through a cache cannot be told from reading the database: if what the club cache and the
  user cache answered at some time was what the database holds, then at any later time and whatever
  calls of Redis fail, \<^verbatim>\<open>QueryClub\<close> and \<^verbatim>\<open>GetOrLoad\<close> answer exactly what the database query
  answers, errors included, and both caches are as fresh as before.\<close>

theorem cache_reads_are_current:
  assumes "\<And>v. um (ma v) = Some v" and "club_cache_fresh um src t0 r" and "user_cache_fresh um own t0 r" and "t0 \<le> now"
    and "cid \<noteq> 0"
    and "QueryClub um ma f1 f2 (\<lambda>i. src i (ek_name k)) cid k now r = (club, r1)"
    and "GetOrLoad um ma f3 f4 uid field (own uid field) now r1 = (user, r2)"
  shows "club = src cid (ek_name k) \<and> user = own uid field
    \<and> club_cache_fresh um src now r2 \<and> user_cache_fresh um own now r2"
proof -
  note C = ClubCache_entity [of um ma, OF assms(1)] and U = UserCache_entity [of um ma, OF assms(1)]
  have fresh: "club_cache_fresh um = entity_cache.fresh (no_strings clubKey) (ClubCache_Get um)"
    "user_cache_fresh um = entity_cache.fresh (no_strings userKey) (UserCache_Get um)"
    by (simp_all add: fun_eq_iff club_cache_fresh_def user_cache_fresh_def entity_cache.fresh_def [OF C] entity_cache.fresh_def [OF U])
  from assms(2,3) have c0: "club_cache_fresh um src now r" and u0: "user_cache_fresh um own now r"
    unfolding fresh using entity_cache.fresh_later [OF C _ assms(4)] entity_cache.fresh_later [OF U _ assms(4)] by blast+
  from entity_cache.read_through_fresh [OF C c0 [unfolded fresh]] assms(5,6)
  have c1: "club = src cid (ek_name k)" "club_cache_fresh um src now r1" by (auto simp: readers_read_through fresh)
  have q: "read_through (ClubCache_Get um) (ClubCache_Set ma) f1 f2 cid (ek_name k) (src cid (ek_name k)) now r = (club, r1)"
    and g: "read_through (UserCache_Get um) (UserCache_Set ma) f3 f4 uid field (own uid field) now r1 = (user, r2)"
    using assms(5-7) by (simp_all add: readers_read_through)
  have "r1 (userKey i) = r (userKey i)" for i
    by (rule readers_frame [OF q, of clubKey]) (auto simp: ClubCache_Get_def ClubCache_Set_def get_pure)
  with u0 fresh_cong(1) have u1: "user_cache_fresh um own now r1" by metis
  from entity_cache.read_through_fresh [OF U u1 [unfolded fresh] g]
  have u2: "user = own uid field" "user_cache_fresh um own now r2" by (simp_all add: fresh)
  have "r2 (clubKey i) = r1 (clubKey i)" for i
    by (rule readers_frame [OF g, of userKey]) (auto simp: UserCache_Get_def UserCache_Set_def get_pure)
  with c1(2) fresh_cong(2) have "club_cache_fresh um src now r2" by metis
  with c1(1) u2 show ?thesis by blast
qed

text \<open>A club read at second 1 from the database, and a second later from the cache.\<close>

lemma cache_reads_are_current_witness:
  "\<exists>r1 r2. QueryClub Some id None None (\<lambda>_. Inr ''lions'') 7 EntityAccount 2000
       (snd (ClubCache_Set id 7 ''account.v1'' ''lions'' 1000 Map.empty)) = (Inr ''lions'', r1)
     \<and> GetOrLoad Some id (Some (''timeout'', False)) None 9 ''items.v1'' (Inr ''bats'') 2000 r1 = (Inr ''bats'', r2)
     \<and> fst (UserCache_Get Some 9 ''items.v1'' 2000 r2) = Inr ''bats''"
proof -
  let ?r = "snd (ClubCache_Set id 7 ''account.v1'' ''lions'' 1000 Map.empty)"
  define src :: "uint64 \<Rightarrow> string \<Rightarrow> go_error + string" where "src = (\<lambda>_ _. Inr ''lions'')"
  define own :: "uint64 \<Rightarrow> string \<Rightarrow> go_error + string" where "own = (\<lambda>_ _. Inr ''bats'')"
  have r: "?r = [clubKey 7 \<mapsto> (RHash [''account.v1'' \<mapsto> ''lions''], Some 61000)]"
    by (simp add: ClubCache_Set_def hsetWithTTLScript_def rd_get_def clubTTL_def)
  have c: "club_cache_fresh Some src 1000 ?r" and u: "user_cache_fresh Some own 1000 ?r"
    unfolding r by (auto simp: club_cache_fresh_def user_cache_fresh_def no_strings_def src_def UserCache_Get_def
      ClubCache_Get_def decoded_Inr rd_get_def split: if_splits)
  obtain club r1 where q: "QueryClub Some id None None (\<lambda>i. src i (ek_name EntityAccount)) 7 EntityAccount 2000 ?r = (club, r1)"
    by fastforce
  obtain user r2 where g: "GetOrLoad Some id (Some (''timeout'', False)) None 9 ''items.v1'' (own 9 ''items.v1'') 2000 r1 = (user, r2)"
    by fastforce
  from cache_reads_are_current [OF _ c u _ _ q g] have res: "club = Inr ''lions''" "user = Inr ''bats''"
    and fr: "user_cache_fresh Some own 2000 r2" by (simp_all add: src_def own_def)
  have "r2 = snd (UserCache_Set id 9 ''items.v1'' ''bats'' 2000 r1)" "no_strings userKey 2000 r1"
  proof -
    show "r2 = snd (UserCache_Set id 9 ''items.v1'' ''bats'' 2000 r1)" using g by (simp add: GetOrLoad_def call_def own_def)
    have "r1 = ?r" using q unfolding r
      by (simp add: QueryClub_def ClubCache_Get_def decoded_def cmd_HGET_def rd_get_def EntityAccount_def split: option.splits)
    then show "no_strings userKey 2000 r1" unfolding r by (simp add: no_strings_def rd_get_def)
  qed
  then have "fst (UserCache_Get Some 9 ''items.v1'' 2000 r2) = Inr ''bats''"
    using user_texts.get_set [of 2000 r1 2000 9 "''items.v1''" "''bats''"] by (simp add: defaultTTL_def)
  with q g res show ?thesis by (auto simp: src_def own_def)
qed

end
