(* ===== verification/RedisWorld.thy ===== *)
theory RedisWorld
  imports RedisStores
begin

text \<open>
  The world of the game server on Redis: what \<open>GameModel\<close>, \<open>GameServices\<close> and \<open>GameApi\<close> keep as maps of
  cached values, sessions and locks is what the stores of \<open>RedisStores\<close> hold under their keys, and
  each call of the one is the call of the other.  Passing time can only make entries go.
\<close>

section \<open>Abstraction\<close>

text \<open>Sessions and locks are strings, caches are hashes.\<close>

definition well_typed :: "nat \<Rightarrow> redis \<Rightarrow> bool" where
  "well_typed now r \<longleftrightarrow> no_strings userKey now r
     \<and> (\<forall>i h. rd_get now r (sessionKey i) \<noteq> Some (RHash h) \<and> rd_get now r (userLockKey i) \<noteq> Some (RHash h))"

definition string_at :: "nat \<Rightarrow> redis \<Rightarrow> string \<Rightarrow> string option" where
  "string_at now r k = (case rd_get now r k of Some (RStr s) \<Rightarrow> Some s | _ \<Rightarrow> None)"

definition fields_at :: "(string \<Rightarrow> 'v option) \<Rightarrow> nat \<Rightarrow> redis \<Rightarrow> string \<Rightarrow> string \<rightharpoonup> 'v" where
  "fields_at um now r k f = (case rd_get now r k of Some (RHash h) \<Rightarrow> Option.bind (h f) um | _ \<Rightarrow> None)"

definition view :: "(string \<Rightarrow> cached option) \<Rightarrow> nat \<Rightarrow> redis \<Rightarrow> world \<Rightarrow> world" where
  "view um now r w = w\<lparr>w_cache := (\<lambda>i. fields_at um now r (userKey i)), w_session := (\<lambda>i. string_at now r (sessionKey i)),
     w_lock := (\<lambda>i. string_at now r (userLockKey i))\<rparr>"

lemma view_sel [simp]:
  "w_db (view um now r w) = w_db w" "w_tick (view um now r w) = w_tick w"
  "w_cache (view um now r w) = (\<lambda>i. fields_at um now r (userKey i))"
  "w_session (view um now r w) = (\<lambda>i. string_at now r (sessionKey i))"
  "w_lock (view um now r w) = (\<lambda>i. string_at now r (userLockKey i))"
  by (simp_all add: view_def)

lemma view_tick [simp]: "(view um now r w)\<lparr>w_tick := n\<rparr> = view um now r (w\<lparr>w_tick := n\<rparr>)"
  by (simp add: view_def)

lemma view_idem [simp]:
  "(view um now r w)\<lparr>w_session := \<lambda>i. string_at now r (sessionKey i)\<rparr> = view um now r w"
  "(view um now r w)\<lparr>w_lock := \<lambda>i. string_at now r (userLockKey i)\<rparr> = view um now r w"
  by (simp_all add: view_def)

lemma map_of_rev_distinct:
  assumes "distinct (map fst xs)"
  shows "map_of (rev xs) = map_of xs"
proof
  fix k
  have "distinct (map fst (rev xs))" using assms by (simp add: rev_map [symmetric])
  then have "map_of (rev xs) k = Some v \<longleftrightarrow> map_of xs k = Some v" for v using assms by simp
  then show "map_of (rev xs) k = map_of xs k" by (metis option.exhaust)
qed

lemma at_others:
  "on_key k cmd \<Longrightarrow> k' \<noteq> k \<Longrightarrow> string_at now (snd (cmd now r)) k' = string_at now r k'"
  "on_key k cmd \<Longrightarrow> k' \<noteq> k \<Longrightarrow> fields_at um now (snd (cmd now r)) k' = fields_at um now r k'"
  by (simp_all add: string_at_def fields_at_def fun_eq_iff rd_get_other)

text \<open>A command on one kind of key changes one part of the world.\<close>

lemma view_session:
  assumes "on_key (sessionKey i) cmd" and "string_at now (snd (cmd now r)) (sessionKey i) = x"
  shows "view um now (snd (cmd now r)) w = (view um now r w)\<lparr>w_session := (w_session (view um now r w))(i := x)\<rparr>"
  using assms by (auto simp: view_def fun_eq_iff at_others)

lemma view_lock:
  assumes "on_key (userLockKey i) cmd" and "string_at now (snd (cmd now r)) (userLockKey i) = x"
  shows "view um now (snd (cmd now r)) w = (view um now r w)\<lparr>w_lock := (w_lock (view um now r w))(i := x)\<rparr>"
  using assms by (auto simp: view_def fun_eq_iff at_others)

lemma view_cache:
  assumes "on_key (userKey i) cmd" and "fields_at um now (snd (cmd now r)) (userKey i) = x"
  shows "view um now (snd (cmd now r)) w = (view um now r w)\<lparr>w_cache := (w_cache (view um now r w))(i := x)\<rparr>"
  using assms by (auto simp: view_def fun_eq_iff at_others)

section \<open>Each call\<close>

lemma session_Set_view:
  assumes "en_fault e (w_tick w) = None" and "tok = en_token e (w_tick w)"
  shows "run_state (session_Set e i) (view um now r w, u)
    = (Inr tok, view um now (snd (UserSession_Set i tok now r)) (w\<lparr>w_tick := Suc (w_tick w)\<rparr>), u)"
proof -
  have "string_at now (snd (cmd_SET (sessionKey i) tok sessionTTL now r)) (sessionKey i) = Some tok"
    by (simp add: cmd_SET_def string_at_def sessionTTL_def)
  from view_session [OF on_key_cmds(2) this] assms show ?thesis
    by (simp add: session_Set_def UserSession_Set_def)
qed

lemma VerifyAndRefresh_view:
  assumes "en_fault e (w_tick w) = None" and "well_typed now r" and "tok \<noteq> []"
  shows "run_state (VerifyAndRefresh e i tok) (view um now r w, u)
    = (Inr (fst (UserSession_VerifyAndRefresh i tok now r) = Inr True),
       view um now (snd (UserSession_VerifyAndRefresh i tok now r)) (w\<lparr>w_tick := Suc (w_tick w)\<rparr>), u)"
proof -
  have s: "string_at now (snd (verifyAndRefreshScript (sessionKey i) tok sessionTTL now r)) (sessionKey i) = string_at now r (sessionKey i)"
    by (auto simp: verifyAndRefreshScript_def string_at_def sessionTTL_def split: option.splits rvalue.splits)
  have "fst (verifyAndRefreshScript (sessionKey i) tok sessionTTL now r) = Inr True \<longleftrightarrow> string_at now r (sessionKey i) = Some tok"
    by (auto simp: verifyAndRefreshScript_def string_at_def split: option.splits rvalue.splits)
  with view_session [OF on_key_cmds(10) s, of um "w\<lparr>w_tick := Suc (w_tick w)\<rparr>"] assms show ?thesis
    by (simp add: VerifyAndRefresh_def UserSession_VerifyAndRefresh_def fun_upd_idem)
qed

lemma cache_get_view:
  assumes "en_fault e (w_tick w) = None"
  shows "run_state (cache_get e i f) (view um now r w, u)
    = (case fst (UserCache_Get um i f now r) of Inr v \<Rightarrow> Some v | Inl _ \<Rightarrow> None,
       view um now (snd (UserCache_Get um i f now r)) (w\<lparr>w_tick := Suc (w_tick w)\<rparr>), u)"
  using assms by (simp add: cache_get_def UserCache_Get_def get_pure)
    (auto simp: decoded_def cmd_HGET_def fields_at_def split: option.splits rvalue.splits)

lemma cache_set_view:
  assumes "en_fault e (w_tick w) = None" and "well_typed now r" and "\<And>g v. (g, v) \<in> set fs \<Longrightarrow> um (ma v) = Some v"
    and "distinct (map fst fs)" and "fs \<noteq> []"
  shows "run_state (cache_set e i fs) (view um now r w, u)
    = (None, view um now (snd (UserCache_SetMulti ma i fs now r)) (w\<lparr>w_tick := Suc (w_tick w)\<rparr>), u)"
proof -
  let ?fs = "map (\<lambda>(f, v). (f, ma v)) fs"
  have m: "map_of (rev ?fs) f = map_option ma (map_of fs f)" for f
  proof -
    have "map_of (rev ?fs) = map_of ?fs" by (rule map_of_rev_distinct) (use assms(4) in \<open>simp add: comp_def case_prod_unfold\<close>)
    then show ?thesis by (simp add: map_of_map [unfolded comp_def])
  qed
  have "fields_at um now (snd (hsetWithTTLScript (userKey i) defaultTTL ?fs now r)) (userKey i)
      = fields_at um now r (userKey i) ++ map_of fs"
    using assms(2,5) m assms(3) [OF map_of_SomeD]
    by (auto simp: fun_eq_iff fields_at_def hsetWithTTLScript_def fold_fields map_add_def defaultTTL_def well_typed_def no_strings_def
      split: option.splits rvalue.splits)
  from view_cache [OF on_key_cmds(11) this] assms(1,5) show ?thesis
    by (simp add: cache_set_def put_fields_def UserCache_SetMulti_def)
qed

lemma cache_delete_all_view:
  assumes "en_delete_fault e (w_tick w) = None"
  shows "run_state (cache_delete_all e i) (view um now r w, u)
    = (None, view um now (snd (UserCache_DeleteAll i now r)) (w\<lparr>w_tick := Suc (w_tick w)\<rparr>), u)"
proof -
  have "fields_at um now (snd (cmd_DEL (userKey i) now r)) (userKey i) = Map.empty"
    by (simp add: cmd_DEL_def fields_at_def fun_eq_iff)
  from view_cache [OF on_key_cmds(4) this] assms show ?thesis
    by (simp add: cache_delete_all_def UserCache_DeleteAll_def)
qed

lemma lock_Release_view:
  assumes "en_fault e (w_tick w) = None" and "well_typed now r"
  shows "run_state (lock_Release e i tok) (view um now r w, u)
    = ((), view um now (snd (UserLock_Release i tok now r)) (w\<lparr>w_tick := Suc (w_tick w)\<rparr>), u)"
proof -
  have "string_at now (snd (releaseScript (userLockKey i) tok now r)) (userLockKey i)
      = (if string_at now r (userLockKey i) = Some tok then None else string_at now r (userLockKey i))"
    by (auto simp: releaseScript_def string_at_def split: option.splits rvalue.splits)
  from view_lock [OF on_key_cmds(9) this, of um "w\<lparr>w_tick := Suc (w_tick w)\<rparr>"] assms show ?thesis
    by (auto simp: lock_Release_def UserLock_Release_def fun_upd_idem)
qed

text \<open>The wait for a lock, when nobody gives it up: it ends as soon as the holder's time is up.\<close>

lemma acquire_rounds_view:
  assumes "\<And>j. rounds j = \<lparr>lr_now = t j, lr_others = id, lr_fault = None, lr_cancelled = False\<rparr>" and "\<And>j. en_fault e j = None"
    and "\<And>j. w_lock w i = None \<or> en_freed e (w_tick w + 2 * j) \<longleftrightarrow> rd_get (t (k + j)) r (userLockKey i) = None"
  shows "fst (acquire_rounds (userLockKey i) tok rounds k n r)
    = (case fst (run_state (acquire_loop e i tok n) (w, u)) of Some s \<Rightarrow> Inr s | None \<Rightarrow> Inl AcquireTimeout)"
  using assms(3)
proof (induction n arbitrary: k w)
  case (Suc n)
  show ?case
  proof (cases "rd_get (t k) r (userLockKey i) = None")
    case True
    with Suc.prems [of 0] assms(1,2) show ?thesis by (auto simp: cmd_SETNX_def Let_def)
  next
    case False
    let ?w = "w\<lparr>w_tick := Suc (Suc (w_tick w))\<rparr>"
    have "w_lock ?w i = None \<or> en_freed e (w_tick ?w + 2 * j) \<longleftrightarrow> rd_get (t (Suc k + j)) r (userLockKey i) = None" for j
      using Suc.prems [of "Suc j"] by simp
    from Suc.IH [OF this] False Suc.prems [of 0] assms(1,2) show ?thesis by (auto simp: cmd_SETNX_def Let_def)
  qed
qed simp

section \<open>Time\<close>

lemma well_typed_later: "well_typed now r \<Longrightarrow> now \<le> now' \<Longrightarrow> well_typed now' r"
  by (auto simp: well_typed_def no_strings_def dest: rd_get_later)

lemma string_at_later: "string_at now' r k = Some s \<Longrightarrow> now \<le> now' \<Longrightarrow> string_at now r k = Some s"
  by (auto simp: string_at_def dest: rd_get_later split: option.splits rvalue.splits)

lemma fields_at_later: "fields_at um now' r k f = Some s \<Longrightarrow> now \<le> now' \<Longrightarrow> fields_at um now r k f = Some s"
  by (auto simp: fields_at_def dest: rd_get_later split: option.splits rvalue.splits)

text \<open>Every call keeps the types.\<close>

lemma well_typed_cmd:
  assumes "well_typed now r" and "on_key k cmd" and "\<And>i s. k = userKey i \<Longrightarrow> rd_get now (snd (cmd now r)) k \<noteq> Some (RStr s)"
    and "\<And>i h. k = sessionKey i \<or> k = userLockKey i \<Longrightarrow> rd_get now (snd (cmd now r)) k \<noteq> Some (RHash h)"
  shows "well_typed now (snd (cmd now r))"
proof -
  have "rd_get now (snd (cmd now r)) k' = rd_get now r k'" if "k' \<noteq> k" for k' by (rule rd_get_other [OF assms(2) that])
  with assms(1,3,4) show ?thesis unfolding well_typed_def no_strings_def by metis
qed

lemma well_typed_calls:
  assumes "well_typed now r"
  shows "well_typed now (snd (UserSession_Set i tok now r))" "well_typed now (snd (UserSession_VerifyAndRefresh i tok now r))"
    "well_typed now (snd (UserCache_SetMulti ma i fs now r))" "well_typed now (snd (UserCache_DeleteAll i now r))"
    "well_typed now (snd (UserLock_Release i tok now r))" "well_typed now (snd (cmd_SETNX (userLockKey i) tok lockTTL now r))"
proof -
  note w = well_typed_cmd [OF assms]
  show "well_typed now (snd (UserSession_Set i tok now r))"
    unfolding UserSession_Set_def by (rule w [OF on_key_cmds(2)]) (auto simp: cmd_SET_def split: if_splits)
  show "well_typed now (snd (UserSession_VerifyAndRefresh i tok now r))"
    using assms w [OF on_key_cmds(10), of "sessionKey i" tok sessionTTL] unfolding UserSession_VerifyAndRefresh_def
    by (auto simp: verifyAndRefreshScript_def well_typed_def split: option.splits rvalue.splits if_splits)
  show "well_typed now (snd (UserCache_SetMulti ma i fs now r))"
    using assms w [OF on_key_cmds(11), of "userKey i" defaultTTL "map (\<lambda>(f, v). (f, ma v)) fs"] unfolding UserCache_SetMulti_def
    by (auto simp: hsetWithTTLScript_def well_typed_def no_strings_def split: option.splits rvalue.splits if_splits)
  show "well_typed now (snd (UserCache_DeleteAll i now r))"
    unfolding UserCache_DeleteAll_def by (rule w [OF on_key_cmds(4)]) (auto simp: cmd_DEL_def)
  show "well_typed now (snd (UserLock_Release i tok now r))"
    using assms w [OF on_key_cmds(9), of "userLockKey i" tok] unfolding UserLock_Release_def
    by (auto simp: releaseScript_def well_typed_def split: option.splits rvalue.splits if_splits)
  show "well_typed now (snd (cmd_SETNX (userLockKey i) tok lockTTL now r))"
    using assms by (intro w [OF on_key_cmds(1)]) (auto simp: cmd_SETNX_def well_typed_def split: if_splits)
qed

section \<open>Properties\<close>



end
