(* ===== verification/Lease.thy ===== *)
theory Lease
  imports RedisStores
begin

text \<open>
  The locks of users and clubs with many requests at once: every request waits, enters, works for as
  long as it likes and releases, in any interleaving with the others and with the clock, over the
  Redis of \<open>RedisStores\<close>.  A lock is a lease of ten seconds: what that gives, and what it does not.
\<close>

section \<open>The system\<close>

text \<open>A request between its calls: waiting with the number of its token, the rounds left, the time of the
  next round and of the start; working since the time at which it got the lock; given up.\<close>

datatype lock_phase =
    LIdle
  | LWaiting string nat nat nat nat
  | LInside string nat nat
  | LTimedOut nat nat

record lock_system =
  ls_now :: nat
  ls_redis :: redis
  ls_phase :: "nat \<Rightarrow> lock_phase"
  ls_drawn :: nat

definition is_lock_key :: "string \<Rightarrow> bool" where
  "is_lock_key k \<longleftrightarrow> (\<exists>i. k = userLockKey i \<or> k = clubLockKey i)"

definition round_phase :: "string \<Rightarrow> nat \<Rightarrow> nat \<Rightarrow> nat \<Rightarrow> nat \<Rightarrow> rerror + unit \<Rightarrow> lock_phase" where
  "round_phase k n left st now res =
     (case res of
        Inr _ \<Rightarrow> LInside k n now
      | Inl RNil \<Rightarrow> LWaiting k n left (now + userLockRetryDelay) st
      | Inl _ \<Rightarrow> LIdle)"

text \<open>
  The steps.  \<open>rnd\<close> are the random bytes of the tokens in the order they are drawn.  A call that fails
  may have taken effect; a request may die while it works.  The rest of the program writes other keys.
\<close>

inductive lock_step :: "(nat \<Rightarrow> uint8 list) \<Rightarrow> lock_system \<Rightarrow> lock_system \<Rightarrow> bool" for rnd where
  tick: "lock_step rnd s (s\<lparr>ls_now := t\<rparr>)" if "ls_now s \<le> t"
| other: "lock_step rnd s (s\<lparr>ls_redis := r\<rparr>)" if "\<forall>k. is_lock_key k \<longrightarrow> r k = ls_redis s k"
| start: "lock_step rnd s (s\<lparr>ls_phase := (ls_phase s)(c := LWaiting k (ls_drawn s) userLockMaxRetries (ls_now s) (ls_now s)),
      ls_drawn := Suc (ls_drawn s)\<rparr>)"
    if "ls_phase s c = LIdle" "is_lock_key k"
| round: "lock_step rnd s (s\<lparr>ls_redis := r, ls_phase := (ls_phase s)(c := round_phase k n left st (ls_now s) res)\<rparr>)"
    if "ls_phase s c = LWaiting k n (Suc left) t st" "t \<le> ls_now s"
      "call fault (cmd_SETNX k (newToken (rnd n)) lockTTL) (ls_now s) (ls_redis s) = (res, r)"
| cancel: "lock_step rnd s (s\<lparr>ls_phase := (ls_phase s)(c := LIdle)\<rparr>)" if "ls_phase s c = LWaiting k n left t st"
| timeout: "lock_step rnd s (s\<lparr>ls_phase := (ls_phase s)(c := LTimedOut st (ls_now s))\<rparr>)"
    if "ls_phase s c = LWaiting k n 0 t st" "t \<le> ls_now s"
| release: "lock_step rnd s (s\<lparr>ls_redis := r, ls_phase := (ls_phase s)(c := LIdle)\<rparr>)"
    if "ls_phase s c = LInside k n a"
      "call fault (releaseScript k (newToken (rnd n))) (ls_now s) (ls_redis s) = (res, r)"
| die: "lock_step rnd s (s\<lparr>ls_phase := (ls_phase s)(c := LIdle)\<rparr>)" if "ls_phase s c = LInside k n a"

inductive lock_reach :: "(nat \<Rightarrow> uint8 list) \<Rightarrow> lock_system \<Rightarrow> bool" for rnd where
  init: "lock_reach rnd \<lparr>ls_now = t, ls_redis = r, ls_phase = (\<lambda>_. LIdle), ls_drawn = 0\<rparr>"
| step: "lock_reach rnd s'" if "lock_reach rnd s" "lock_step rnd s s'"

section \<open>The invariant\<close>

fun token_of :: "lock_phase \<Rightarrow> nat option" where
  "token_of (LWaiting k n left t st) = Some n"
| "token_of (LInside k n a) = Some n"
| "token_of LIdle = None"
| "token_of (LTimedOut st en) = None"

definition tokens_ok :: "lock_system \<Rightarrow> bool" where
  "tokens_ok s \<longleftrightarrow> (\<forall>c n. token_of (ls_phase s c) = Some n \<longrightarrow> n < ls_drawn s \<and> (\<forall>c'. token_of (ls_phase s c') = Some n \<longrightarrow> c' = c))"

text \<open>Who is inside and in time holds the key; of two inside, one came when the other's time was up.\<close>

definition leases_ok :: "(nat \<Rightarrow> uint8 list) \<Rightarrow> lock_system \<Rightarrow> bool" where
  "leases_ok rnd s \<longleftrightarrow>
     (\<forall>c k n a. ls_phase s c = LInside k n a \<longrightarrow> a \<le> ls_now s \<and> is_lock_key k
        \<and> (ls_now s < a + lockTTL \<longrightarrow> ls_redis s k = Some (RStr (newToken (rnd n)), Some (a + lockTTL)))
        \<and> (\<forall>c' n' a'. c' \<noteq> c \<and> ls_phase s c' = LInside k n' a' \<longrightarrow> a + lockTTL \<le> a' \<or> a' + lockTTL \<le> a))"

definition waits_ok :: "lock_system \<Rightarrow> bool" where
  "waits_ok s \<longleftrightarrow>
     (\<forall>c k n left t st. ls_phase s c = LWaiting k n left t st \<longrightarrow>
        is_lock_key k \<and> left \<le> userLockMaxRetries \<and> st + (userLockMaxRetries - left) * userLockRetryDelay \<le> t)
   \<and> (\<forall>c st en. ls_phase s c = LTimedOut st en \<longrightarrow> st + userLockMaxRetries * userLockRetryDelay \<le> en)"

lemma round_phase_cases:
  "round_phase k n left st now res = LInside k n now \<and> res = Inr ()
   \<or> round_phase k n left st now res = LWaiting k n left (now + userLockRetryDelay) st \<and> res = Inl RNil
   \<or> round_phase k n left st now res = LIdle"
proof (cases res)
  case (Inl e)
  then show ?thesis by (cases e) (simp_all add: round_phase_def)
qed (simp add: round_phase_def)

lemma tokens_set:
  assumes "tokens_ok s" and "token_of p = None \<or> token_of p = token_of (ls_phase s c)"
    and "ls_drawn s' = ls_drawn s" and "ls_phase s' = (ls_phase s)(c := p)"
  shows "tokens_ok s'"
proof -
  have "token_of (ls_phase s x) = Some n" if "token_of (ls_phase s' x) = Some n" for x n
    using that assms(2,4) by (cases "x = c") auto
  with assms(1,3) show ?thesis unfolding tokens_ok_def by metis
qed

lemma tokens_step: "lock_step rnd s s' \<Longrightarrow> tokens_ok s \<Longrightarrow> tokens_ok s'"
proof (induction rule: lock_step.induct)
  case (start s c k)
  have "ls_drawn s \<noteq> n" if "token_of (ls_phase s x) = Some n" for x n using that start(3) by (auto simp: tokens_ok_def)
  with start show ?case by (auto simp: tokens_ok_def less_Suc_eq)
next
  case (round s c k n left t st fault res r)
  show ?case
    by (rule tokens_set [OF round(4), where c = c]) (use round_phase_cases [of k n left st "ls_now s" res] round(1) in auto)
qed (auto simp: tokens_ok_def intro: tokens_set)

lemma waits_step: "lock_step rnd s s' \<Longrightarrow> waits_ok s \<Longrightarrow> waits_ok s'"
proof (induction rule: lock_step.induct)
  case (round s c k n left t st fault res r)
  have w: "is_lock_key k" "Suc left \<le> userLockMaxRetries" "st + (userLockMaxRetries - Suc left) * userLockRetryDelay \<le> t"
    using round(1,4) by (simp_all add: waits_ok_def)
  have "userLockMaxRetries - left = Suc (userLockMaxRetries - Suc left)" using w(2) by linarith
  then have "st + (userLockMaxRetries - left) * userLockRetryDelay \<le> ls_now s + userLockRetryDelay"
    using w(3) round(2) by simp
  then show ?case
    using round_phase_cases [of k n left st "ls_now s" res] round(4) w by (auto simp: waits_ok_def)
next
  case (timeout s c k n t st)
  then have "st + (userLockMaxRetries - 0) * userLockRetryDelay \<le> t" unfolding waits_ok_def by blast
  with timeout show ?case by (auto simp: waits_ok_def)
qed (auto simp: waits_ok_def)

text \<open>One holder's part of the invariant.\<close>

definition lease_ok :: "(nat \<Rightarrow> uint8 list) \<Rightarrow> lock_system \<Rightarrow> nat \<Rightarrow> string \<Rightarrow> nat \<Rightarrow> nat \<Rightarrow> bool" where
  "lease_ok rnd s c k n a \<longleftrightarrow> a \<le> ls_now s \<and> is_lock_key k
     \<and> (ls_now s < a + lockTTL \<longrightarrow> ls_redis s k = Some (RStr (newToken (rnd n)), Some (a + lockTTL)))
     \<and> (\<forall>c' n' a'. c' \<noteq> c \<and> ls_phase s c' = LInside k n' a' \<longrightarrow> a + lockTTL \<le> a' \<or> a' + lockTTL \<le> a)"

lemma leases_ok_alt: "leases_ok rnd s \<longleftrightarrow> (\<forall>c k n a. ls_phase s c = LInside k n a \<longrightarrow> lease_ok rnd s c k n a)"
  by (simp add: leases_ok_def lease_ok_def)

text \<open>A step of one request keeps the leases when it enters nowhere and leaves every live key of the others.\<close>

lemma leases_kept:
  assumes "leases_ok rnd s" and "ls_now s' = ls_now s"
    and "\<And>x k n a. ls_phase s' x = LInside k n a \<Longrightarrow> ls_phase s x = LInside k n a"
    and "\<And>x k n a. ls_phase s' x = LInside k n a \<Longrightarrow> ls_now s < a + lockTTL \<Longrightarrow> ls_redis s' k = ls_redis s k"
  shows "leases_ok rnd s'"
  unfolding leases_ok_alt
proof (intro allI impI)
  fix c k n a
  assume c: "ls_phase s' c = LInside k n a"
  then have l: "lease_ok rnd s c k n a" using assms(1,3) by (simp add: leases_ok_alt)
  show "lease_ok rnd s' c k n a"
    using l assms(2) assms(4) [OF c] assms(3) unfolding lease_ok_def by metis
qed

lemma live_key:
  assumes "leases_ok rnd s" and "ls_phase s c = LInside k n a" and "ls_now s < a + lockTTL"
  shows "ls_redis s k = Some (RStr (newToken (rnd n)), Some (a + lockTTL))"
    and "rd_get (ls_now s) (ls_redis s) k = Some (RStr (newToken (rnd n)))"
proof -
  show r: "ls_redis s k = Some (RStr (newToken (rnd n)), Some (a + lockTTL))"
    using assms by (simp add: leases_ok_def)
  with assms(3) show "rd_get (ls_now s) (ls_redis s) k = Some (RStr (newToken (rnd n)))" by (simp add: rd_get_def)
qed

text \<open>A refused or failed \<^verbatim>\<open>SET NX\<close> and a release leave the live keys of the others alone.\<close>

lemma setnx_keeps:
  "call fault (cmd_SETNX k v ttl) now r = (res, r') \<Longrightarrow> rd_get now r k' \<noteq> None \<Longrightarrow> r' k' = r k'"
  by (cases "k' = k") (auto simp: call_def cmd_SETNX_def split: option.splits if_splits)

lemma release_keeps:
  assumes "call fault (releaseScript k tok) now r = (res, r')" and "rd_get now r k' \<noteq> Some (RStr tok)"
  shows "r' k' = r k'"
  using assms by (cases "k' = k") (auto simp: call_def releaseScript_def split: option.splits if_splits rvalue.splits)

lemma leases_enter:
  assumes i: "leases_ok rnd s" and w: "waits_ok s" and c: "ls_phase s c = LWaiting k n left t st"
    and run: "call fault (cmd_SETNX k (newToken (rnd n)) lockTTL) (ls_now s) (ls_redis s) = (Inr (), r)"
  shows "leases_ok rnd (s\<lparr>ls_redis := r, ls_phase := (ls_phase s)(c := LInside k n (ls_now s))\<rparr>)"
proof -
  let ?now = "ls_now s" and ?s = "s\<lparr>ls_redis := r, ls_phase := (ls_phase s)(c := LInside k n (ls_now s))\<rparr>"
  have free: "rd_get ?now (ls_redis s) k = None" and r: "r = (ls_redis s)(k \<mapsto> (RStr (newToken (rnd n)), Some (?now + lockTTL)))"
    using run by (auto simp: call_def cmd_SETNX_def split: option.splits if_splits)
  have over: "a' + lockTTL \<le> ?now" if "ls_phase s x = LInside k n' a'" for x n' a'
    using live_key(2) [OF i that] free by force
  show ?thesis
    unfolding leases_ok_alt
  proof (intro allI impI)
    fix x k' n' a'
    assume x: "ls_phase ?s x = LInside k' n' a'"
    show "lease_ok rnd ?s x k' n' a'"
    proof (cases "x = c")
      case True
      with x c w over show ?thesis by (auto simp: lease_ok_def r waits_ok_def)
    next
      case False
      with x have x': "ls_phase s x = LInside k' n' a'" by simp
      with i have "lease_ok rnd s x k' n' a'" by (simp add: leases_ok_alt)
      moreover have "\<not> ls_now s < a' + lockTTL" if "k' = k" using over x' that by fastforce
      ultimately show ?thesis using False over x' by (cases "k' = k") (auto simp: lease_ok_def r)
    qed
  qed
qed

lemma leases_step:
  assumes "lock_step rnd s s'" and "inj_on rnd {..<ls_drawn s}" and "leases_ok rnd s" and "waits_ok s" and "tokens_ok s"
  shows "leases_ok rnd s'"
  using assms
proof (induction rule: lock_step.induct)
  case (tick s t)
  have "a \<le> t" if "ls_phase s c = LInside k n a" for c k n a
    using that tick(1,3) unfolding leases_ok_def by (meson order_trans)
  with tick show ?case by (auto simp: leases_ok_def)
next
  case (other s r)
  then show ?case by (intro leases_kept [OF other(3)]) (auto simp: leases_ok_def)
next
  case (start s c k)
  then show ?case by (intro leases_kept [OF start(4)]) (auto split: if_splits)
next
  case (round s c k n left t st fault res r)
  show ?case
  proof (cases "round_phase k n left st (ls_now s) res = LInside k n (ls_now s)")
    case True
    with round_phase_cases [of k n left st "ls_now s" res] have "res = Inr ()" by auto
    with leases_enter [OF round(5,6,1)] round(3) True show ?thesis by simp
  next
    case False
    let ?s = "s\<lparr>ls_redis := r, ls_phase := (ls_phase s)(c := round_phase k n left st (ls_now s) res)\<rparr>"
    have out: "ls_phase s x = LInside k' n' a" if "ls_phase ?s x = LInside k' n' a" for x k' n' a
      using that False round_phase_cases [of k n left st "ls_now s" res] by (auto split: if_splits)
    have kept: "ls_redis ?s k' = ls_redis s k'" if "ls_phase ?s x = LInside k' n' a" "ls_now s < a + lockTTL" for x k' n' a
      using setnx_keeps [OF round(3), of k'] live_key(2) [OF round(5) out [OF that(1)] that(2)] by simp
    show ?thesis by (rule leases_kept [OF round(5) _ out kept]) simp_all
  qed
next
  case (release s c k n a fault res r)
  have "r k' = ls_redis s k'" if "ls_phase s x = LInside k' n' a'" "ls_now s < a' + lockTTL" "x \<noteq> c" for x k' n' a'
  proof (rule release_keeps [OF release(2)])
    have "n' \<noteq> n" "n < ls_drawn s" "n' < ls_drawn s"
      using release(1,6) that(1,3) unfolding tokens_ok_def by (metis token_of.simps(2))+
    then show "rd_get (ls_now s) (ls_redis s) k' \<noteq> Some (RStr (newToken (rnd n)))"
      using live_key(2) [OF release(4) that(1,2)] release(3) by (simp add: inj_on_eq_iff)
  qed
  then show ?case by (intro leases_kept [OF release(4)]) (auto split: if_splits)
next
  case (cancel s c k n left t st)
  show ?case by (rule leases_kept [OF cancel(3)]) (auto split: if_splits)
next
  case (timeout s c k n t st)
  show ?case by (rule leases_kept [OF timeout(4)]) (auto split: if_splits)
next
  case (die s c k n a)
  show ?case by (rule leases_kept [OF die(3)]) (auto split: if_splits)
qed

lemma drawn_step: "lock_step rnd s s' \<Longrightarrow> ls_drawn s \<le> ls_drawn s'"
  by (induction rule: lock_step.induct) simp_all

lemma lock_invariant: "lock_reach rnd s \<Longrightarrow> inj_on rnd {..<ls_drawn s} \<Longrightarrow> leases_ok rnd s \<and> waits_ok s \<and> tokens_ok s"
proof (induction rule: lock_reach.induct)
  case (init t r)
  show ?case by (simp add: leases_ok_def waits_ok_def tokens_ok_def)
next
  case (step s s')
  have "inj_on rnd {..<ls_drawn s}"
    by (rule inj_on_subset [OF step(4)]) (use drawn_step [OF step(2)] in auto)
  with step show ?case using leases_step [OF step(2)] waits_step [OF step(2)] tokens_step [OF step(2)] by blast
qed

section \<open>Properties\<close>

text \<open>C7: the lock excludes, for ten seconds.  In every reachable state of any number of requests, whatever
  calls of Redis fail and whichever requests die, a request that is inside and in time has its own token
  under the key of the lock, and every other request inside the same lock came more than ten seconds
  before it: no two are inside in time.  Only that the random tokens drawn so far are distinct is assumed.\<close>

theorem lock_excludes_in_time:
  assumes "lock_reach rnd s" and "inj_on rnd {..<ls_drawn s}"
    and "ls_phase s c = LInside k n a" and "ls_now s < a + lockTTL"
  shows "rd_get (ls_now s) (ls_redis s) k = Some (RStr (newToken (rnd n)))
    \<and> (\<forall>c' n' a'. c' \<noteq> c \<and> ls_phase s c' = LInside k n' a' \<longrightarrow> a' + lockTTL \<le> a \<and> a' + lockTTL \<le> ls_now s)"
proof -
  have i: "leases_ok rnd s" using lock_invariant [OF assms(1,2)] by blast
  have "a' + lockTTL \<le> a \<and> a' + lockTTL \<le> ls_now s" if "c' \<noteq> c" "ls_phase s c' = LInside k n' a'" for c' n' a'
  proof -
    have "a + lockTTL \<le> a' \<or> a' + lockTTL \<le> a" "a \<le> ls_now s" "a' \<le> ls_now s"
      using i assms(3) that unfolding leases_ok_def by blast+
    with assms(4) show ?thesis by linarith
  qed
  with live_key(2) [OF i assms(3,4)] show ?thesis by blast
qed

text \<open>Two requests of user 9: the first works for more than ten seconds, the second enters beside it.\<close>

definition demo_random :: "nat \<Rightarrow> uint8 list" where
  "demo_random n = replicate 15 0 @ [of_nat n]"

definition demo_overtaken :: lock_system where
  "demo_overtaken = \<lparr>ls_now = 10000, ls_redis = [userLockKey 9 \<mapsto> (RStr (newToken (demo_random 1)), Some 20000)],
     ls_phase = (\<lambda>_. LIdle)(0 := LInside (userLockKey 9) 0 0, 1 := LInside (userLockKey 9) 1 10000), ls_drawn = 2\<rparr>"

lemma setnx_free:
  "rd_get now m k = None \<Longrightarrow> call None (cmd_SETNX k t ttl) now m = (Inr (), m(k \<mapsto> (RStr t, Some (now + ttl))))"
  by (simp add: cmd_SETNX_def)

lemma demo_first_inside:
  "lock_reach demo_random \<lparr>ls_now = 0, ls_redis = [userLockKey 9 \<mapsto> (RStr (newToken (demo_random 0)), Some lockTTL)],
     ls_phase = (\<lambda>_. LIdle)(0 := LInside (userLockKey 9) 0 0), ls_drawn = 1\<rparr>"
proof -
  let ?k = "userLockKey 9" and ?R = "lock_reach demo_random"
  have k: "is_lock_key ?k" by (auto simp: is_lock_key_def)
  have r: "userLockMaxRetries = Suc 59" by (simp add: userLockMaxRetries_def)
  have "?R \<lparr>ls_now = 0, ls_redis = Map.empty, ls_phase = (\<lambda>_. LIdle), ls_drawn = 0\<rparr>" by (rule lock_reach.init)
  from lock_reach.step [OF this lock_step.start [where c = 0, OF _ k]]
  have "?R \<lparr>ls_now = 0, ls_redis = Map.empty, ls_phase = (\<lambda>_. LIdle)(0 := LWaiting ?k 0 (Suc 59) 0 0), ls_drawn = 1\<rparr>"
    by (simp add: r)
  from lock_reach.step [OF this lock_step.round [where c = 0, OF _ _ setnx_free]]
  show ?thesis by (simp add: rd_get_def round_phase_def)
qed

lemma demo_overtaken_reached: "lock_reach demo_random demo_overtaken"
proof -
  let ?k = "userLockKey 9" and ?R = "lock_reach demo_random"
  from lock_reach.step [OF demo_first_inside lock_step.tick [where t = 10000]]
  have "?R \<lparr>ls_now = 10000, ls_redis = [?k \<mapsto> (RStr (newToken (demo_random 0)), Some lockTTL)],
      ls_phase = (\<lambda>_. LIdle)(0 := LInside ?k 0 0), ls_drawn = 1\<rparr>" by simp
  from lock_reach.step [OF this lock_step.start [where c = 1 and k = ?k]]
  have "?R \<lparr>ls_now = 10000, ls_redis = [?k \<mapsto> (RStr (newToken (demo_random 0)), Some lockTTL)],
      ls_phase = (\<lambda>_. LIdle)(0 := LInside ?k 0 0, 1 := LWaiting ?k 1 (Suc 59) 10000 10000), ls_drawn = 2\<rparr>"
    by (simp add: userLockMaxRetries_def numeral_2_eq_2 is_lock_key_def)
  from lock_reach.step [OF this lock_step.round [where c = 1, OF _ _ setnx_free]]
  show ?thesis by (simp add: rd_get_def round_phase_def demo_overtaken_def lockTTL_def)
qed

lemma lock_excludes_in_time_witness:
  "lock_reach demo_random demo_overtaken \<and> ls_phase demo_overtaken 0 = LInside (userLockKey 9) 0 0
   \<and> ls_phase demo_overtaken 1 = LInside (userLockKey 9) 1 10000
   \<and> rd_get 10000 (ls_redis demo_overtaken) (userLockKey 9) = Some (RStr (newToken (demo_random 1)))"
proof -
  have "inj_on demo_random {..<ls_drawn demo_overtaken}"
    by (auto simp: inj_on_def demo_random_def demo_overtaken_def less_Suc_eq numeral_2_eq_2)
  from lock_excludes_in_time [OF demo_overtaken_reached this, of 1 "userLockKey 9" 1 10000] demo_overtaken_reached
  show ?thesis by (simp add: demo_overtaken_def lockTTL_def)
qed

text \<open>Waiting for a lock is bounded.  A request that gives up has waited for at least three seconds, in
  sixty rounds fifty milliseconds apart; at any time before, the rounds used up account for the time passed.\<close>

theorem lock_wait_bounded:
  assumes "lock_reach rnd s"
  shows "case ls_phase s c of
      LTimedOut st en \<Rightarrow> st + 3000 \<le> en
    | LWaiting k n left t st \<Rightarrow> left \<le> 60 \<and> st + (60 - left) * 50 \<le> t
    | _ \<Rightarrow> True"
proof -
  from assms have "waits_ok s" by (induction rule: lock_reach.induct) (simp add: waits_ok_def, rule waits_step)
  then show ?thesis
    by (fastforce simp: waits_ok_def userLockMaxRetries_def userLockRetryDelay_def split: lock_phase.split)
qed

text \<open>The first request dies as soon as it has the lock; the second waits in vain for exactly three seconds.\<close>

definition demo_waiting :: "nat \<Rightarrow> lock_phase \<Rightarrow> lock_system" where
  "demo_waiting t p = \<lparr>ls_now = t, ls_redis = [userLockKey 9 \<mapsto> (RStr (newToken (demo_random 0)), Some 10000)],
     ls_phase = (\<lambda>_. LIdle)(1 := p), ls_drawn = 2\<rparr>"

lemma demo_waiting_reached:
  "j \<le> 60 \<Longrightarrow> lock_reach demo_random (demo_waiting (50 * j) (LWaiting (userLockKey 9) 1 (60 - j) (50 * j) 0))"
proof (induction j)
  case 0
  let ?k = "userLockKey 9"
  from lock_reach.step [OF demo_first_inside lock_step.die [where c = 0]]
  have "lock_reach demo_random \<lparr>ls_now = 0, ls_redis = [?k \<mapsto> (RStr (newToken (demo_random 0)), Some lockTTL)],
      ls_phase = (\<lambda>_. LIdle), ls_drawn = 1\<rparr>"
    by (simp add: fun_upd_idem)
  from lock_reach.step [OF this lock_step.start [where c = 1 and k = ?k]]
  show ?case by (simp add: userLockMaxRetries_def demo_waiting_def lockTTL_def numeral_2_eq_2 is_lock_key_def)
next
  case (Suc j)
  let ?k = "userLockKey 9" and ?s = "demo_waiting (50 * j) (LWaiting (userLockKey 9) 1 (Suc (60 - Suc j)) (50 * j) 0)"
  have "60 - j = Suc (60 - Suc j)" using Suc.prems by simp
  with Suc have s: "lock_reach demo_random ?s" by simp
  have phase: "ls_phase ?s 1 = LWaiting ?k 1 (Suc (60 - Suc j)) (50 * j) 0" "50 * j \<le> ls_now ?s"
    by (simp_all add: demo_waiting_def)
  have busy: "call None (cmd_SETNX ?k (newToken (demo_random 1)) lockTTL) (ls_now ?s) (ls_redis ?s) = (Inl RNil, ls_redis ?s)"
    using Suc.prems by (simp add: cmd_SETNX_def rd_get_def demo_waiting_def)
  have "lock_reach demo_random (demo_waiting (50 * j) (LWaiting ?k 1 (60 - Suc j) (50 * j + 50) 0))"
    using lock_reach.step [OF s lock_step.round [where rnd = demo_random and n = 1, OF phase busy]]
    by (simp add: demo_waiting_def round_phase_def userLockRetryDelay_def)
  from lock_reach.step [OF this lock_step.tick [where t = "50 * Suc j"]] show ?case
    by (simp add: demo_waiting_def add.commute)
qed

lemma lock_wait_bounded_witness:
  "lock_reach demo_random (demo_waiting 3000 (LTimedOut 0 3000)) \<and> 0 + 3000 \<le> (3000 :: nat)"
proof -
  from lock_reach.step [OF demo_waiting_reached [of 60] lock_step.timeout [where c = 1]]
  have "lock_reach demo_random (demo_waiting 3000 (LTimedOut 0 3000))" by (simp add: demo_waiting_def)
  with lock_wait_bounded [OF this, of 1] show ?thesis by (simp add: demo_waiting_def)
qed

end
