(* ===== verification/Overlap.thy ===== *)
theory Overlap
  imports GameProperties
begin

text \<open>
  Two requests of one user beside each other, as after the lease of the first has run out (\<open>Lease\<close>): both
  handlers run before either commits.
\<close>

section \<open>The commit of one update\<close>

text \<open>It replaces the row of the object and nothing else, whatever the rows have become meanwhile.\<close>

lemma commit_one_update:
  assumes w: "db_inv w" and u: "u_ops u = [(Some d, UpdateOp a)]" "u_heap u ! a = m"
    and m: "TableName m = t" "user_column m = uid" and r: "r \<in> set (user_rows w d t uid)" "keys m = keys r"
    and d: "t = ''TB_ACCOUNT'' \<longrightarrow> d = GameDBShardID"
    and run: "run_state (CommitOrRollback e) (w, u) = (Inr y, w', u')"
  shows "user_rows w' d t uid = map (updated_row m) (user_rows w d t uid)" and "db_inv w'" and "db_of w' = db_of w"
proof -
  obtain q w1 u1 where g: "run_state (run_groups e (group_ops (u_ops u))) (w, u) = (q, w1, u1)" by (rule prod_cases3)
  from commit_rows [OF run g] have db: "w_db w' = w_db w1" and q: "\<exists>z. q = Inr z" by blast+
  from g u q obtain z where z: "w_db w1 = w_db (put_rows d t (update_row m (w_db w d t)) (w\<lparr>w_tick := z\<rparr>))"
    by (auto simp: group_ops_def Transaction_def SaveTx_def m split: option.splits sum.splits if_splits)
  define w2 where "w2 = put_rows d t (update_row m (w_db w d t)) (w\<lparr>w_tick := z\<rparr>)"
  note up = update_touches [OF w m r d w2_def]
  have same: "w_db w' = w_db w2" using db z by (simp add: w2_def)
  show "user_rows w' d t uid = map (updated_row m) (user_rows w d t uid)" using up(1) user_rows_cong [OF same] by simp
  show "db_inv w'" using up(2) db_inv_cong [OF same] by (simp add: touches_def)
  show "db_of w' = db_of w" using up(2) db_of_cong [OF same] by (simp add: touches_def fun_eq_iff)
qed

section \<open>Two upgrades\<close>

lemma keys_untimed: "keys (untimed m) = keys m"
  by (cases m) (simp_all add: keys_def untimed_def)

lemma keys_level_up: "keys (level_up m) = keys m"
  by (simp add: level_up_def)

text \<open>What an upgrade has queued before its commit.\<close>

lemma upgrade_queued:
  assumes g: "good w" and run: "run_state (UpgradeCardLevel e (Some i)) (w, New uid c) = (Inr m, w1, u1)"
  obtains a db r where "u_ops u1 = [(db, UpdateOp a)]" "db \<noteq> None \<longrightarrow> db = db_of w EntityCards uid"
    "r \<in> set (rows_of w EntityCards ''TB_CARD'' uid)" "is_card i r" "m = UpgradeCardLevelResponse (toCardData (level_up r))"
    "untimed (u_heap u1 ! a) = untimed (level_up r)" "w_db w1 = w_db w"
proof -
  obtain a as db where up: "u_ops u1 = [(db, UpdateOp a)]" "db \<noteq> None \<longrightarrow> reqinv [] w1 u1" "u_user_id u1 = uid"
    "map_of (u_store u1) (ek_name EntityCards) = Some (Many as)"
    "same_rows (map ((!) (u_heap u1)) as) (upgraded i (rows_of w EntityCards ''TB_CARD'' uid))"
    "\<exists>r \<in> set (rows_of w EntityCards ''TB_CARD'' uid). is_card i r \<and> m = UpgradeCardLevelResponse (toCardData (level_up r))
       \<and> untimed (u_heap u1 ! a) = untimed (level_up r)" "w_db w1 = w_db w"
    by (rule upgrade_unit [OF g run])
  from up(6) obtain r where r: "r \<in> set (rows_of w EntityCards ''TB_CARD'' uid)" "is_card i r"
    "m = UpgradeCardLevelResponse (toCardData (level_up r))" "untimed (u_heap u1 ! a) = untimed (level_up r)" by blast
  have "db = db_of w EntityCards uid" if db: "db \<noteq> None"
  proof -
    have i: "inv [(db, UpdateOp a)] w1 u1" using up(1,2) db by (simp add: reqinv_def)
    obtain k t st where k: "(k, t) \<in> set entity_tables" "a \<in> set (addrs st)" "entity_ok w1 u1 [(db, UpdateOp a)] k t (addrs st)"
      using op_entity [OF i] by (metis op_addr.simps(2))
    then have "TableName (u_heap u1 ! a) = t" "db_of w1 k uid = db"
      using up(3) by (auto elim!: entityE simp: ops_on_single)
    moreover have "TableName (u_heap u1 ! a) = ''TB_CARD''"
    proof -
      have "keys (u_heap u1 ! a) = keys r" using r(4) keys_untimed keys_level_up by metis
      moreover have "TableName r = ''TB_CARD''" using r(2) by (cases r) auto
      ultimately show ?thesis by (simp add: keys_def)
    qed
    ultimately have t: "t = ''TB_CARD''" "db_of w1 k uid = db" by simp_all
    then have "k = EntityCards" using entity_unique(2) [OF k(1) [unfolded t(1)] entity_members(3)] by blast
    then show ?thesis using t(2) db_of_cong [OF up(7)] by simp
  qed
  with that [of db a r] up(1,7) r show ?thesis by blast
qed

lemma untimed_times [simp]: "untimed (map_times f m) = untimed m"
  by (cases m) (simp_all add: untimed_def)

lemma updated_level_up:
  assumes "untimed m = untimed (level_up r)" and "distinct (map primary_key rs)" and "r \<in> set rs" and "is_card i r"
    and "same_rows rs' rs \<or> same_rows rs' (upgraded i rs)"
  shows "same_rows (map (updated_row m) rs') (upgraded i rs)"
proof -
  have pk: "primary_key (untimed x) = primary_key x" for x by (simp add: untimed_def)
  have r: "primary_key r = i" using assms(4) by (cases r) auto
  have "keys m = keys r" using assms(1) keys_level_up [of r] keys_untimed by metis
  then have m: "primary_key m = i" "primary_key r = i" using r by (simp_all add: keys_def)
  have one: "x = r" if "x \<in> set rs" "primary_key x = i" for x
    using that assms(2,3) m(2) by (auto simp: distinct_map dest: inj_onD)
  have card: "is_card i x \<longleftrightarrow> x = r" if "x \<in> set rs" for x
    using one [OF that] assms(4) by (cases x) auto
  have row: "untimed (updated_row m y) = untimed (if is_card i x then level_up x else x)"
    if "x \<in> set rs" "untimed y = untimed x \<or> untimed y = untimed (if is_card i x then level_up x else x)" for x y
  proof -
    have "keys y = keys x" using that(2) keys_untimed keys_level_up by metis
    then have "primary_key y = primary_key x" by (simp add: keys_def)
    then have y: "primary_key y = i \<longleftrightarrow> x = r" using one [OF that(1)] r by metis
    show ?thesis
    proof (cases "x = r")
      case True
      with y m(1) card [OF that(1)] assms(1) show ?thesis by simp
    next
      case False
      with y m(1) card [OF that(1)] that(2) show ?thesis by simp
    qed
  qed
  have "list_all2 (\<lambda>y x. untimed y = untimed x \<or> untimed y = untimed (if is_card i x then level_up x else x)) rs' rs"
    using assms(5) by (auto simp: same_rows_def upgraded_def list_all2_conv_all_nth list_eq_iff_nth_eq)
  then have "list_all2 (\<lambda>y x. untimed (updated_row m y) = untimed (if is_card i x then level_up x else x)) rs' rs"
    by (rule list.rel_mono_strong) (use row in blast)
  then show ?thesis
    by (auto simp: same_rows_def upgraded_def list_all2_conv_all_nth list_eq_iff_nth_eq)
qed

lemma commit_db:
  assumes "u_ops u = [(db, UpdateOp a)]" and "run_state (CommitOrRollback e) (w, u) = (Inr y, w', u')"
  shows "db \<noteq> None"
proof -
  obtain q w1 u1 where g: "run_state (run_groups e (group_ops (u_ops u))) (w, u) = (q, w1, u1)" by (rule prod_cases3)
  obtain z where "q = Inr z" using commit_rows [OF assms(2) g] by blast
  from commit_update [OF assms(1) g [unfolded this]] show ?thesis by simp
qed

text \<open>The object of an upgrade against a row of the user's.\<close>

lemma object_card:
  assumes "r \<in> set (rows_of w EntityCards ''TB_CARD'' uid)" and "is_card i r" and "untimed m = untimed (level_up r)"
  shows "TableName m = ''TB_CARD''" "user_column m = uid" "keys m = keys r"
proof -
  show k: "keys m = keys r" using assms(3) keys_level_up [of r] keys_untimed by metis
  have "TableName r = ''TB_CARD''" using assms(2) by (cases r) auto
  moreover have "user_column r = uid" using assms(1) by (auto simp: rows_of_def user_rows_def split: option.splits)
  ultimately show "TableName m = ''TB_CARD''" "user_column m = uid" using k by (simp_all add: keys_def)
qed

section \<open>Properties\<close>

text \<open>C8: without the lock an upgrade is lost.  When the handlers of two upgrades of the same card both run
  before either commits, and both are answered with success, the card is one level up, not two, and both
  answers show the same card; one after the other they would raise it twice.\<close>

theorem overlapping_upgrades_lose_one:
  assumes "coherent w" and "db_inv w"
    and "run_state (UpgradeCardLevel e (Some i)) (w, New uid c) = (Inr m, w1, u1)"
    and "run_state (UpgradeCardLevel e' (Some i)) (w1, New uid c') = (Inr m', w2, u2)"
    and "run_state (CommitOrRollback e) (w2, u1) = (Inr y, w3, u3)"
    and "run_state (CommitOrRollback e') (w3, u2) = (Inr y', w4, u4)"
  shows "same_rows (rows_of w4 EntityCards ''TB_CARD'' uid) (upgraded i (rows_of w EntityCards ''TB_CARD'' uid)) \<and> m' = m"
proof -
  let ?rows = "rows_of w EntityCards ''TB_CARD'' uid"
  have g: "good w" using assms(1,2) by (simp add: good_def)
  obtain a db r where q: "u_ops u1 = [(db, UpdateOp a)]" "db \<noteq> None \<longrightarrow> db = db_of w EntityCards uid" "r \<in> set ?rows" "is_card i r"
    "m = UpgradeCardLevelResponse (toCardData (level_up r))" "untimed (u_heap u1 ! a) = untimed (level_up r)" "w_db w1 = w_db w"
    by (rule upgrade_queued [OF g assms(3)])
  have "reqinv [] w (New uid c)" by (rule reqinv_empty [OF g]) (simp_all add: New_def)
  from settled_good [OF UpgradeCardLevel_step [OF this _ assms(3)]] have g1: "good w1" by (simp add: New_def)
  have same1: "rows_of w1 EntityCards ''TB_CARD'' uid = ?rows" "db_of w1 = db_of w"
    using rows_of_cong [OF q(7)] db_of_cong [OF q(7)] by (simp_all add: fun_eq_iff)
  obtain a' db' r' where q': "u_ops u2 = [(db', UpdateOp a')]" "db' \<noteq> None \<longrightarrow> db' = db_of w1 EntityCards uid"
    "r' \<in> set (rows_of w1 EntityCards ''TB_CARD'' uid)" "is_card i r'" "m' = UpgradeCardLevelResponse (toCardData (level_up r'))"
    "untimed (u_heap u2 ! a') = untimed (level_up r')" "w_db w2 = w_db w1"
    by (rule upgrade_queued [OF g1 assms(4)])
  have dist: "distinct (map primary_key ?rows)" by (rule rows_of_distinct [OF assms(2)])
  have "primary_key r = i" "primary_key r' = i" using q(4) q'(4) by (cases r; cases r'; auto)+
  then have rr: "r' = r" using dist q(3) q'(3) by (auto simp: same1 distinct_map dest: inj_onD)
  obtain d where d: "db = Some d" "db' = Some d" "db_of w EntityCards uid = Some d"
    using commit_db [OF q(1) assms(5)] commit_db [OF q'(1) assms(6)] q(2) q'(2) by (auto simp: same1)
  have R: "user_rows w d ''TB_CARD'' uid = ?rows" by (simp add: rows_of_def d(3))
  have w2: "w_db w2 = w_db w" using q(7) q'(7) by simp
  note card = object_card [OF q(3,4,6)] and card' = object_card [OF q(3,4) q'(6) [unfolded rr]]
  have one: "user_rows w3 d ''TB_CARD'' uid = map (updated_row (u_heap u1 ! a)) ?rows" "db_inv w3" "db_of w3 = db_of w"
    using commit_one_update [OF _ q(1) [unfolded d(1)] refl card(1,2) _ card(3) _ assms(5)] assms(2) q(3)
      db_inv_cong [OF w2] user_rows_cong [OF w2] db_of_cong [OF w2] by (simp_all add: R fun_eq_iff)
  have rows3: "same_rows (user_rows w3 d ''TB_CARD'' uid) (upgraded i ?rows)"
    unfolding one(1) by (rule updated_level_up [OF q(6) dist q(3,4)]) (simp add: same_rows_def)
  have "primary_key r = primary_key (u_heap u1 ! a)" using card(3) by (simp add: keys_def)
  then have r3: "map_times timestamp_column (u_heap u1 ! a) \<in> set (user_rows w3 d ''TB_CARD'' uid)"
    unfolding one(1) set_map image_iff by (intro bexI [OF _ q(3)]) simp
  have "keys (u_heap u2 ! a') = keys (map_times timestamp_column (u_heap u1 ! a))"
    using card(3) card'(3) keys_untimed untimed_times by metis
  note two = commit_one_update [OF one(2) q'(1) [unfolded d(2)] refl card'(1,2) r3 this _ assms(6)]
  have "rows_of w4 EntityCards ''TB_CARD'' uid = map (updated_row (u_heap u2 ! a')) (user_rows w3 d ''TB_CARD'' uid)"
    using two(1,3) by (simp add: rows_of_def one(3) d(3))
  moreover have "same_rows (map (updated_row (u_heap u2 ! a')) (user_rows w3 d ''TB_CARD'' uid)) (upgraded i ?rows)"
    using rows3 by (intro updated_level_up [OF q'(6) [unfolded rr] dist q(3,4)]) simp
  ultimately show ?thesis using q(5) q'(5) rr by simp
qed

text \<open>User 9 sends the upgrade of the card of level three twice.\<close>

lemma overlapping_upgrades_lose_one_witness:
  "\<exists>m w1 u1 w2 u2 w3 u3 w4 u4. run_state (UpgradeCardLevel demo_env (Some 5)) (demo_user, New 9 demo_catalog) = (Inr m, w1, u1)
     \<and> run_state (UpgradeCardLevel demo_env (Some 5)) (w1, New 9 demo_catalog) = (Inr m, w2, u2)
     \<and> run_state (CommitOrRollback demo_env) (w2, u1) = (Inr (), w3, u3)
     \<and> run_state (CommitOrRollback demo_env) (w3, u2) = (Inr (), w4, u4)
     \<and> same_rows (rows_of w4 EntityCards ''TB_CARD'' 9) [MCard (demo_card\<lparr>cr_level := 4\<rparr>)]"
proof -
  obtain m w1 u1 w2 u2 w3 u3 w4 u4 where run:
    "run_state (UpgradeCardLevel demo_env (Some 5)) (demo_user, New 9 demo_catalog) = (Inr m, w1, u1)"
    "run_state (UpgradeCardLevel demo_env (Some 5)) (w1, New 9 demo_catalog) = (Inr m, w2, u2)"
    "run_state (CommitOrRollback demo_env) (w2, u1) = (Inr (), w3, u3)"
    "run_state (CommitOrRollback demo_env) (w3, u2) = (Inr (), w4, u4)"
  proof -
    have "\<exists>m w1 u1 w2 u2 w3 u3 w4 u4. run_state (UpgradeCardLevel demo_env (Some 5)) (demo_user, New 9 demo_catalog) = (Inr m, w1, u1)
      \<and> run_state (UpgradeCardLevel demo_env (Some 5)) (w1, New 9 demo_catalog) = (Inr m, w2, u2)
      \<and> run_state (CommitOrRollback demo_env) (w2, u1) = (Inr (), w3, u3)
      \<and> run_state (CommitOrRollback demo_env) (w3, u2) = (Inr (), w4, u4)"
      by (simp add: request_run uow_run demo_defs)
    with that show ?thesis by blast
  qed
  have "rows_of demo_user EntityCards ''TB_CARD'' 9 = [MCard demo_card]"
    by (simp add: rows_of_def db_of_def user_rows_def demo_defs GameDBShardID_def)
  moreover have "upgraded 5 [MCard demo_card] = [MCard (demo_card\<lparr>cr_level := 4\<rparr>)]"
    by (simp add: upgraded_def level_up_def demo_card_def)
  ultimately show ?thesis
    using overlapping_upgrades_lose_one [OF _ _ run] demo_good(2) run by (auto simp: good_def)
qed

end
