(* ===== verification/MigratorCli.thy ===== *)
theory MigratorCli
  imports AdminApi
begin

text \<open>
  The command line of the migrator, \<^verbatim>\<open>cmd/migrator/main.go\<close>, with the configuration it reads
  (\<^verbatim>\<open>config/config.go\<close>) and Go's flag package as far as it is used (string flags,
  \<^verbatim>\<open>ExitOnError\<close>).  A run is a function from the arguments, the environment and the state of the
  databases and the disk to the lines printed, the exit code and the new state.  The YAML decoder, the
  file system, the MySQL driver, git and goose are fields of the environment.  The locale
  \<open>completing_handler\<close> is the contract of the commands that bring a database up to date.
\<close>

section \<open>Configuration\<close>

record server_config =
  sc_port :: string
  sc_stage :: string

record db_config =
  dbc_name :: string
  dbc_shard_id :: int
  dbc_weight :: int
  dbc_host :: string
  dbc_port :: string
  dbc_user :: string
  dbc_password :: string
  dbc_dbname :: string

record redis_config =
  rc_name :: string
  rc_host :: string
  rc_port :: string
  rc_password :: string
  rc_db :: int

record cdn_config =
  cdn_base_url :: string
  cdn_timeout_seconds :: int

record app_config =
  cfg_server :: server_config
  cfg_databases :: "db_config list"
  cfg_redis :: "redis_config list"
  cfg_cdn :: cdn_config

definition DSN :: "db_config \<Rightarrow> string" where
  "DSN c = dbc_user c @ '':'' @ dbc_password c @ ''@tcp('' @ dbc_host c @ '':'' @ dbc_port c @ '')/''
     @ dbc_dbname c @ ''?charset=utf8mb4&parseTime=True&loc=Local''"

definition validStages :: "string list" where
  "validStages = [''local'', ''dev'', ''qa'', ''staging'', ''live'']"

datatype config_error = ReadConfig string | ParseConfig string | InvalidStage string

definition config_Load ::
  "(string \<Rightarrow> string + string) \<Rightarrow> (string \<Rightarrow> string + app_config) \<Rightarrow> string \<Rightarrow> config_error + app_config" where
  "config_Load rd yaml path =
     (case rd path of
        Inl e \<Rightarrow> Inl (ReadConfig e)
      | Inr data \<Rightarrow> (case yaml data of
            Inl e \<Rightarrow> Inl (ParseConfig e)
          | Inr cfg \<Rightarrow>
              if sc_stage (cfg_server cfg) \<in> set validStages then Inr cfg
              else Inl (InvalidStage (sc_stage (cfg_server cfg)))))"

section \<open>Flags\<close>

text \<open>\<^verbatim>\<open>FlagSet.Parse\<close> for string flags: \<open>-n v\<close>, \<open>--n v\<close>, \<open>-n=v\<close>; it stops at the first
  argument that is no flag, or after \<open>--\<close>.\<close>

datatype flag_error = BadSyntax string | UnknownFlag string | NeedsArgument string | HelpWanted

definition flag_parts :: "string \<Rightarrow> string \<times> string option" where
  "flag_parts name =
     (case index_of (CHR ''='') (tl name) of
        None \<Rightarrow> (name, None)
      | Some i \<Rightarrow> (take (Suc i) name, Some (drop (i + 2) name)))"

fun parse_flags :: "(string \<times> string) list \<Rightarrow> string list \<Rightarrow> flag_error + (string \<times> string) list" where
  "parse_flags vs [] = Inr vs"
| "parse_flags vs (s # args) =
     (if length s < 2 \<or> hd s \<noteq> CHR ''-'' \<or> s = ''--'' then Inr vs
      else let name = (if s ! 1 = CHR ''-'' then drop 2 s else drop 1 s) in
        if hd name = CHR ''-'' \<or> hd name = CHR ''='' then Inl (BadSyntax s)
        else case flag_parts name of (n, v) \<Rightarrow>
          if n \<notin> fst ` set vs then Inl (if n = ''help'' \<or> n = ''h'' then HelpWanted else UnknownFlag n)
          else case v of
            Some x \<Rightarrow> parse_flags (AList.update n x vs) args
          | None \<Rightarrow> (case args of
                [] \<Rightarrow> Inl (NeedsArgument n)
              | x # rest \<Rightarrow> parse_flags (AList.update n x vs) rest))"

declare parse_flags.simps [simp del]

definition flag_value :: "string \<Rightarrow> (string \<times> string) list \<Rightarrow> string" where
  "flag_value n vs = (case map_of vs n of Some x \<Rightarrow> x | None \<Rightarrow> [])"

section \<open>Targets\<close>

record target_set =
  ts_game :: bool
  ts_shard :: bool

definition ts_any :: "target_set \<Rightarrow> bool" where
  "ts_any t \<longleftrightarrow> ts_game t \<or> ts_shard t"

definition targetsFromFlag :: "string \<Rightarrow> target_set" where
  "targetsFromFlag s =
     (if s = ''all'' then \<lparr>ts_game = True, ts_shard = True\<rparr>
      else if s = ''game'' then \<lparr>ts_game = True, ts_shard = False\<rparr>
      else if s = ''shard'' then \<lparr>ts_game = False, ts_shard = True\<rparr>
      else \<lparr>ts_game = False, ts_shard = False\<rparr>)"

record db_target =
  dt_label :: string
  dt_cat :: string
  dt_cfg :: db_config

text \<open>The loop over the configuration and the stable sort: the game database first, then the shards by
  their id.\<close>

fun pick_targets :: "target_set \<Rightarrow> db_config list \<Rightarrow> db_target list" where
  "pick_targets tg [] = []"
| "pick_targets tg (c # cs) =
     (if dbc_shard_id c = GameDBShardID \<and> ts_game tg
      then \<lparr>dt_label = ''GameDB['' @ dbc_dbname c @ '']'', dt_cat = CategoryGame, dt_cfg = c\<rparr> # pick_targets tg cs
      else if dbc_shard_id c \<noteq> GameDBShardID \<and> ts_shard tg
      then \<lparr>dt_label = ''ShardDB['' @ dbc_dbname c @ '']'', dt_cat = CategoryShard, dt_cfg = c\<rparr> # pick_targets tg cs
      else pick_targets tg cs)"

definition dbTargetsFor :: "app_config \<Rightarrow> target_set \<Rightarrow> db_target list" where
  "dbTargetsFor cfg tg =
     sort_key (\<lambda>t. (dt_cat t \<noteq> CategoryGame, dbc_shard_id (dt_cfg t))) (pick_targets tg (cfg_databases cfg))"

section \<open>The environment\<close>

text \<open>What the connection of one target meets: errors of the ping, of the two reads of the version table,
  and of the statements of a baseline.\<close>

record conn_env =
  ce_ping :: "string option"
  ce_query :: "string option"
  ce_query2 :: "string option"
  ce_exec :: "goose_stmt \<Rightarrow> string option"

text \<open>\<open>cl_open\<close> is \<^verbatim>\<open>sql.Open\<close>: the driver reads the data source name and says which
  database it stands for.  \<open>cl_conn i\<close> is what the i-th target of the run meets.\<close>

record ('d, 'p) cli_env =
  cl_read :: "string \<Rightarrow> string + string"
  cl_yaml :: "string \<Rightarrow> string + app_config"
  cl_open :: "string \<Rightarrow> string + 'p"
  cl_conn :: "nat \<Rightarrow> conn_env"
  cl_goose :: "'d goose_lib"
  cl_files :: file_source
  cl_git :: "string option"
  cl_user :: string
  cl_now :: int
  cl_mkdir :: "string option"
  cl_write :: "(string \<times> string option) option"

record ('d, 'p) machine =
  mc_dbs :: "'p \<Rightarrow> 'd goose_db"
  mc_disk :: disk

datatype cli_error =
    FailConfig config_error | FailDbFlag | FailOpen string string | FailPing string string
  | FailCommand string string string | FailAuthor | FailCreate create_error

datatype cli_line =
    UsageText | UnknownCommand string | FlagProblem flag_error | NoTargets
  | Heading string | NothingPending | AppliedCount int nat nat | UpByOneFailed string | AppliedOne
  | RolledBack | NoFiles | FileLine bool string | Totals nat nat | MarkedCount nat | CreatedFile string
  | Failed cli_error

section \<open>Handlers\<close>

type_synonym 'd cli_handler =
  "'d goose_lib \<Rightarrow> file_source \<Rightarrow> conn_env \<Rightarrow> db_target \<Rightarrow> 'd goose_db \<Rightarrow> (cli_line list \<times> string option) \<times> 'd goose_db"

definition upHandler :: "'d cli_handler" where
  "upHandler gl fs ce t db =
     (case CountPending (gl_dialect gl) (ce_query ce) fs (dt_cat t) db of
        Inl e \<Rightarrow> (([Heading (dt_label t)], Some e), db)
      | Inr before \<Rightarrow>
          if before = 0 then (([Heading (dt_label t), NothingPending], None), db)
          else case MigrateUp gl fs (dt_cat t) db of
            ((_, Some e), db') \<Rightarrow> (([Heading (dt_label t)], Some e), db')
          | ((_, None), db') \<Rightarrow> (case CountPending (gl_dialect gl) (ce_query2 ce) fs (dt_cat t) db' of
                Inl e \<Rightarrow> (([Heading (dt_label t)], Some e), db')
              | Inr after \<Rightarrow> (([Heading (dt_label t), AppliedCount (int before - int after) before after], None), db')))"

definition upByOneHandler :: "'d cli_handler" where
  "upByOneHandler gl fs ce t db =
     (case MigrateUpByOne gl fs (dt_cat t) db of
        (Some e, db') \<Rightarrow> (([Heading (dt_label t), UpByOneFailed e], None), db')
      | (None, db') \<Rightarrow> (([Heading (dt_label t), AppliedOne], None), db'))"

definition downHandler :: "'d cli_handler" where
  "downHandler gl fs ce t db =
     (case MigrateDown gl (ce_query ce) fs (dt_cat t) db of
        (Some e, db') \<Rightarrow> (([Heading (dt_label t)], Some e), db')
      | (None, db') \<Rightarrow> (([Heading (dt_label t), RolledBack], None), db'))"

definition status_line :: "migration_status \<Rightarrow> cli_line" where
  "status_line r = FileLine (ms_applied r)
     (if mfile_version (ms_file r) \<noteq> [] then mfile_version (ms_file r) @ ''/'' @ mfile_name (ms_file r)
      else mfile_name (ms_file r))"

definition statusHandler :: "'d cli_handler" where
  "statusHandler gl fs ce t db =
     (case mig_Status (gl_dialect gl) (ce_query ce) fs (dt_cat t) db of
        Inl e \<Rightarrow> (([Heading (dt_label t)], Some e), db)
      | Inr rows \<Rightarrow>
          if rows = [] then (([Heading (dt_label t), NoFiles], None), db)
          else ((Heading (dt_label t) # map status_line rows
                @ [Totals (length rows) (length (filter (\<lambda>r. \<not> ms_applied r) rows))], None), db))"

definition baselineHandler :: "'d cli_handler" where
  "baselineHandler gl fs ce t db =
     (case Baseline (gl_dialect gl) (ce_exec ce) (ce_query ce) fs (dt_cat t) db of
        ((_, Some e), db') \<Rightarrow> (([Heading (dt_label t)], Some e), db')
      | ((n, None), db') \<Rightarrow> (([Heading (dt_label t), MarkedCount n], None), db'))"

section \<open>Running a command on every target\<close>

fun run_targets ::
  "string \<Rightarrow> 'd cli_handler \<Rightarrow> ('d, 'p) cli_env \<Rightarrow> nat \<Rightarrow> db_target list \<Rightarrow> ('p \<Rightarrow> 'd goose_db)
     \<Rightarrow> (cli_line list \<times> int) \<times> ('p \<Rightarrow> 'd goose_db)" where
  "run_targets cmd h env i [] dbs = (([], 0), dbs)"
| "run_targets cmd h env i (t # ts) dbs =
     (case cl_open env (DSN (dt_cfg t)) of
        Inl e \<Rightarrow> (([Failed (FailOpen (dt_label t) e)], 1), dbs)
      | Inr p \<Rightarrow> (case ce_ping (cl_conn env i) of
          Some e \<Rightarrow> (([Failed (FailPing (dt_label t) e)], 1), dbs)
        | None \<Rightarrow> (case h (cl_goose env) (cl_files env) (cl_conn env i) t (dbs p) of
            ((ls, Some e), db') \<Rightarrow> ((ls @ [Failed (FailCommand (dt_label t) cmd e)], 1), dbs(p := db'))
          | ((ls, None), db') \<Rightarrow> (case run_targets cmd h env (Suc i) ts (dbs(p := db')) of
              ((ls', rc), dbs') \<Rightarrow> ((ls @ ls', rc), dbs')))))"

definition db_flags :: "(string \<times> string) list" where
  "db_flags = [(''db'', ''all''), (''config'', ''config.yaml'')]"

text \<open>A flag error ends the process, with code 0 when help was asked for.\<close>

definition flag_exit :: "flag_error \<Rightarrow> cli_line list \<times> int" where
  "flag_exit e = ([FlagProblem e], if e = HelpWanted then 0 else 2)"

definition withDBs ::
  "string \<Rightarrow> 'd cli_handler \<Rightarrow> ('d, 'p) cli_env \<Rightarrow> string list \<Rightarrow> ('d, 'p) machine \<Rightarrow> (cli_line list \<times> int) \<times> ('d, 'p) machine" where
  "withDBs cmd h env args m =
     (case parse_flags db_flags args of
        Inl e \<Rightarrow> (flag_exit e, m)
      | Inr vs \<Rightarrow> (case config_Load (cl_read env) (cl_yaml env) (flag_value ''config'' vs) of
          Inl e \<Rightarrow> (([Failed (FailConfig e)], 1), m)
        | Inr cfg \<Rightarrow> (let tg = targetsFromFlag (flag_value ''db'' vs) in
            if \<not> ts_any tg then (([Failed FailDbFlag], 1), m)
            else let targets = dbTargetsFor cfg tg in
              if targets = [] then (([NoTargets], 0), m)
              else case run_targets cmd h env 0 targets (mc_dbs m) of
                (res, dbs') \<Rightarrow> (res, m\<lparr>mc_dbs := dbs'\<rparr>))))"

lemma withDBs_run:
  assumes "withDBs cmd h env args m = (res, m')"
  obtains (same) "m' = m"
    | (run) vs cfg dbs' where "parse_flags db_flags args = Inr vs"
      "config_Load (cl_read env) (cl_yaml env) (flag_value ''config'' vs) = Inr cfg"
      "run_targets cmd h env 0 (dbTargetsFor cfg (targetsFromFlag (flag_value ''db'' vs))) (mc_dbs m) = (res, dbs')"
      "m' = m\<lparr>mc_dbs := dbs'\<rparr>"
proof (cases "parse_flags db_flags args")
  case (Inl e)
  with assms same show ?thesis by (simp add: withDBs_def)
next
  case (Inr vs)
  note v = this
  show ?thesis
  proof (cases "config_Load (cl_read env) (cl_yaml env) (flag_value ''config'' vs)")
    case (Inl e)
    with assms v same show ?thesis by (simp add: withDBs_def)
  next
    case (Inr cfg)
    obtain r dbs' where t: "run_targets cmd h env 0 (dbTargetsFor cfg (targetsFromFlag (flag_value ''db'' vs))) (mc_dbs m) = (r, dbs')"
      by (rule prod.exhaust)
    show ?thesis
    proof (cases "ts_any (targetsFromFlag (flag_value ''db'' vs)) \<and> dbTargetsFor cfg (targetsFromFlag (flag_value ''db'' vs)) \<noteq> []")
      case True
      with assms v Inr t have "r = res" "m' = m\<lparr>mc_dbs := dbs'\<rparr>" by (simp_all add: withDBs_def Let_def)
      with run [OF v Inr] t show ?thesis by simp
    next
      case False
      with assms v Inr t have "m' = m" by (simp add: withDBs_def Let_def split: if_splits)
      then show ?thesis by (rule same)
    qed
  qed
qed

section \<open>Creating a file\<close>

text \<open>\<open>git\<close> is the output of \<^verbatim>\<open>git config user.email\<close>, None when the command fails; \<open>user\<close> is the
  variable, empty when it is not set.\<close>

definition local_part :: "string \<Rightarrow> string" where
  "local_part email = (case index_of (CHR ''@'') email of Some (Suc i) \<Rightarrow> take (Suc i) email | _ \<Rightarrow> email)"

definition resolveAuthor :: "string option \<Rightarrow> string \<Rightarrow> string \<Rightarrow> string option" where
  "resolveAuthor git user flag =
     (if flag \<noteq> [] then Some (sanitize_author flag)
      else let from_git = (case git of None \<Rightarrow> [] | Some out \<Rightarrow> sanitize_author (local_part (go_TrimSpace out))) in
        if from_git \<noteq> [] then Some from_git
        else if user \<noteq> [] \<and> sanitize_author user \<noteq> [] then Some (sanitize_author user)
        else None)"

definition create_flags :: "(string \<times> string) list" where
  "create_flags = [(''db'', []), (''version'', []), (''name'', []), (''author'', [])]"

definition runCreate ::
  "('d, 'p) cli_env \<Rightarrow> string list \<Rightarrow> ('d, 'p) machine \<Rightarrow> (cli_line list \<times> int) \<times> ('d, 'p) machine" where
  "runCreate env args m =
     (case parse_flags create_flags args of
        Inl e \<Rightarrow> (flag_exit e, m)
      | Inr vs \<Rightarrow> (case resolveAuthor (cl_git env) (cl_user env) (flag_value ''author'' vs) of
          None \<Rightarrow> (([Failed FailAuthor], 1), m)
        | Some author \<Rightarrow>
            (case create_migration_file (cl_now env) (cl_mkdir env) (cl_write env)
                \<lparr>cr_category = flag_value ''db'' vs, cr_version = flag_value ''version'' vs,
                 cr_name = flag_value ''name'' vs, cr_author = author, cr_base_dir = ''sql/migrations'',
                 cr_up_sql = [], cr_down_sql = []\<rparr> (mc_disk m) of
              (Inl e, dk) \<Rightarrow> (([Failed (FailCreate e)], 1), m\<lparr>mc_disk := dk\<rparr>)
            | (Inr path, dk) \<Rightarrow> (([CreatedFile path], 0), m\<lparr>mc_disk := dk\<rparr>))))"

section \<open>The process\<close>

text \<open>\<open>args\<close> are the arguments after the program's name.\<close>

definition cli_main ::
  "('d, 'p) cli_env \<Rightarrow> string list \<Rightarrow> ('d, 'p) machine \<Rightarrow> (cli_line list \<times> int) \<times> ('d, 'p) machine" where
  "cli_main env args m =
     (case args of
        [] \<Rightarrow> (([UsageText], 2), m)
      | cmd # rest \<Rightarrow>
          if cmd = ''create'' then runCreate env rest m
          else if cmd = ''up'' then withDBs cmd upHandler env rest m
          else if cmd = ''up-by-one'' then withDBs cmd upByOneHandler env rest m
          else if cmd = ''down'' then withDBs cmd downHandler env rest m
          else if cmd = ''status'' then withDBs cmd statusHandler env rest m
          else if cmd = ''baseline'' then withDBs cmd baselineHandler env rest m
          else if cmd \<in> {''-h'', ''--help'', ''help''} then (([UsageText], 0), m)
          else (([UnknownCommand cmd, UsageText], 2), m))"

section \<open>Targets\<close>

definition selects :: "target_set \<Rightarrow> db_config \<Rightarrow> bool" where
  "selects tg c \<longleftrightarrow> (if dbc_shard_id c = GameDBShardID then ts_game tg else ts_shard tg)"

definition category_of :: "db_config \<Rightarrow> string" where
  "category_of c = (if dbc_shard_id c = GameDBShardID then CategoryGame else CategoryShard)"

lemma categories [simp]: "CategoryShard \<noteq> CategoryGame"
  by (simp add: CategoryGame_def CategoryShard_def)

lemma pick_targets_configs: "map dt_cfg (pick_targets tg cs) = filter (selects tg) cs"
  by (induction cs) (auto simp: selects_def)

lemma pick_targets_cat: "t \<in> set (pick_targets tg cs) \<Longrightarrow> dt_cat t = category_of (dt_cfg t)"
  by (induction cs) (auto simp: category_of_def split: if_splits)

lemma target_of:
  assumes "c \<in> set (cfg_databases cfg)" and "selects tg c"
  shows "\<exists>t \<in> set (dbTargetsFor cfg tg). dt_cfg t = c \<and> dt_cat t = category_of c"
proof -
  have "c \<in> dt_cfg ` set (pick_targets tg (cfg_databases cfg))"
    using assms unfolding set_map [symmetric] pick_targets_configs by simp
  then show ?thesis by (auto simp: dbTargetsFor_def dest: pick_targets_cat)
qed

lemma target_selected:
  assumes "t \<in> set (dbTargetsFor cfg tg)"
  shows "dt_cfg t \<in> set (cfg_databases cfg) \<and> selects tg (dt_cfg t)"
proof -
  have "dt_cfg t \<in> set (map dt_cfg (pick_targets tg (cfg_databases cfg)))"
    using assms by (simp add: dbTargetsFor_def)
  then show ?thesis unfolding pick_targets_configs by simp
qed

section \<open>Runs\<close>

text \<open>A database that no target stands for is left alone.\<close>

lemma run_targets_frame:
  "run_targets cmd h env i ts dbs = (res, dbs') \<Longrightarrow> \<forall>t \<in> set ts. cl_open env (DSN (dt_cfg t)) \<noteq> Inr p \<Longrightarrow> dbs' p = dbs p"
proof (induction ts arbitrary: i dbs res)
  case Nil
  then show ?case by simp
next
  case (Cons t ts)
  then show ?case by (fastforce split: sum.splits option.splits prod.splits)
qed

text \<open>The run comes to an error at the first target that has one.\<close>

lemma run_targets_fails:
  "run_targets cmd h env i ts dbs = ((ls, rc), dbs') \<Longrightarrow> rc \<noteq> 0 \<Longrightarrow>
     \<exists>us t vs. ts = us @ t # vs \<and> rc = 1 \<and>
       (\<forall>p. (\<forall>u \<in> set us. cl_open env (DSN (dt_cfg u)) \<noteq> Inr p) \<and> cl_open env (DSN (dt_cfg t)) \<noteq> Inr p \<longrightarrow> dbs' p = dbs p)"
proof (induction ts arbitrary: i dbs ls)
  case Nil
  then show ?case by simp
next
  case (Cons t ts)
  show ?case
  proof (cases "\<exists>p ls1 db'. cl_open env (DSN (dt_cfg t)) = Inr p \<and> ce_ping (cl_conn env i) = None
      \<and> h (cl_goose env) (cl_files env) (cl_conn env i) t (dbs p) = ((ls1, None), db')")
    case True
    then obtain p ls1 db' where o: "cl_open env (DSN (dt_cfg t)) = Inr p"
      "h (cl_goose env) (cl_files env) (cl_conn env i) t (dbs p) = ((ls1, None), db')" "ce_ping (cl_conn env i) = None" by blast
    with Cons.prems(1) obtain ls2 where r: "run_targets cmd h env (Suc i) ts (dbs(p := db')) = ((ls2, rc), dbs')"
      by (auto split: prod.splits)
    from Cons.IH [OF r Cons.prems(2)] obtain us u vs where u: "ts = us @ u # vs" "rc = 1"
      "\<forall>q. (\<forall>w \<in> set us. cl_open env (DSN (dt_cfg w)) \<noteq> Inr q) \<and> cl_open env (DSN (dt_cfg u)) \<noteq> Inr q \<longrightarrow> dbs' q = (dbs(p := db')) q"
      by blast
    then show ?thesis using o(1) by (intro exI [of _ "t # us"] exI [of _ u] exI [of _ vs]) auto
  next
    case False
    with Cons.prems show ?thesis
      by (intro exI [of _ "[]"] exI [of _ t] exI [of _ ts]) (auto split: sum.splits option.splits prod.splits)
  qed
qed

section \<open>Commands that complete a database\<close>

definition all_applied :: "file_source \<Rightarrow> string \<Rightarrow> 'd goose_db \<Rightarrow> bool" where
  "all_applied fs cat db \<longleftrightarrow>
     (\<exists>files. walk_migration_files fs cat = Inr files \<and> (\<forall>f \<in> set files. mfile_id f \<in> applied_set db))"

lemma all_applied_pending: "all_applied fs cat db \<Longrightarrow> CountPending None None fs cat db = Inr 0"
  by (auto simp: all_applied_def count_pending_files filter_empty_conv)

lemma all_applied_mono: "all_applied fs cat db \<Longrightarrow> applied_set db \<subseteq> applied_set db' \<Longrightarrow> all_applied fs cat db'"
  unfolding all_applied_def by blast

text \<open>A command that, when it succeeds, leaves every migration of the target applied and takes none
  back, given what goose documents.\<close>

locale completing_handler =
  fixes h :: "'d cli_handler"
  assumes completes: "goose_ok gl \<Longrightarrow> h gl fs ce t db = ((ls, None), db') \<Longrightarrow> all_applied fs (dt_cat t) db'"
    and keeps_applied: "goose_ok gl \<Longrightarrow> h gl fs ce t db = ((ls, None), db') \<Longrightarrow> applied_set db \<subseteq> applied_set db'"
begin

lemma run_keeps_applied:
  "goose_ok (cl_goose env) \<Longrightarrow> run_targets cmd h env i ts dbs = ((ls, 0), dbs') \<Longrightarrow> applied_set (dbs p) \<subseteq> applied_set (dbs' p)"
proof (induction ts arbitrary: i dbs ls)
  case Nil
  then show ?case by simp
next
  case (Cons t ts)
  then obtain q ls1 db' ls2 where o: "h (cl_goose env) (cl_files env) (cl_conn env i) t (dbs q) = ((ls1, None), db')"
    and r: "run_targets cmd h env (Suc i) ts (dbs(q := db')) = ((ls2, 0), dbs')"
    by (auto split: sum.splits option.splits prod.splits)
  from Cons.IH [OF Cons.prems(1) r] keeps_applied [OF Cons.prems(1) o] show ?case
    by (cases "p = q") auto
qed

lemma run_completes:
  "goose_ok (cl_goose env) \<Longrightarrow> run_targets cmd h env i ts dbs = ((ls, 0), dbs') \<Longrightarrow> t \<in> set ts \<Longrightarrow>
     \<exists>p. cl_open env (DSN (dt_cfg t)) = Inr p \<and> all_applied (cl_files env) (dt_cat t) (dbs' p)"
proof (induction ts arbitrary: i dbs ls)
  case Nil
  then show ?case by simp
next
  case (Cons u ts)
  then obtain q ls1 db' ls2 where o: "cl_open env (DSN (dt_cfg u)) = Inr q"
    "h (cl_goose env) (cl_files env) (cl_conn env i) u (dbs q) = ((ls1, None), db')"
    and r: "run_targets cmd h env (Suc i) ts (dbs(q := db')) = ((ls2, 0), dbs')"
    by (auto split: sum.splits option.splits prod.splits)
  show ?case
  proof (cases "t \<in> set ts")
    case True
    with Cons.IH [OF Cons.prems(1) r] show ?thesis by blast
  next
    case False
    with Cons.prems(3) have "t = u" by simp
    with all_applied_mono [OF completes [OF Cons.prems(1) o(2)]] run_keeps_applied [OF Cons.prems(1) r, of q] o(1)
    show ?thesis by auto
  qed
qed

lemma command_completes:
  assumes "goose_ok (cl_goose env)" and "withDBs cmd h env args m = ((ls, 0), m')"
    and "parse_flags db_flags args = Inr vs"
    and "config_Load (cl_read env) (cl_yaml env) (flag_value ''config'' vs) = Inr cfg"
    and "c \<in> set (cfg_databases cfg)" and "selects (targetsFromFlag (flag_value ''db'' vs)) c"
  shows "\<exists>p. cl_open env (DSN c) = Inr p \<and> CountPending None None (cl_files env) (category_of c) (mc_dbs m' p) = Inr 0"
proof -
  let ?ts = "dbTargetsFor cfg (targetsFromFlag (flag_value ''db'' vs))"
  obtain t where t: "t \<in> set ?ts" "dt_cfg t = c" "dt_cat t = category_of c"
    using target_of [OF assms(5,6)] by blast
  then have "?ts \<noteq> []" by auto
  with assms(2-4) obtain dbs' where r: "run_targets cmd h env 0 ?ts (mc_dbs m) = ((ls, 0), dbs')" "m' = m\<lparr>mc_dbs := dbs'\<rparr>"
    by (auto simp: withDBs_def Let_def split: if_splits prod.splits)
  from run_completes [OF assms(1) r(1) t(1)] t(2,3) r(2) show ?thesis by (auto dest: all_applied_pending)
qed

end

lemma counted_none:
  assumes "CountPending d q fs cat db = Inr 0"
  shows "all_applied fs cat db"
proof -
  obtain A files where a: "load_applied_version_ids q db = Inr A" and f: "walk_migration_files fs cat = Inr files"
    and z: "filter (\<lambda>f. mfile_id f \<notin> A) files = []"
    using assms by (auto simp: CountPending_def mig_Status_def filter_map comp_def split: option.splits sum.splits)
  have "A \<subseteq> applied_set db"
    using a by (auto simp: load_applied_version_ids_def query_applied_def applied_set_def split: option.splits if_splits sum.splits)
  with f z show ?thesis by (auto simp: all_applied_def filter_empty_conv)
qed

lemma MigrateUp_keeps:
  assumes "goose_ok gl" and "MigrateUp gl fs cat db = ((n, None), db')"
  shows "applied_set db \<subseteq> applied_set db'"
proof -
  obtain b db1 vs k where r: "(if b then gl_up gl fs cat db else (None, db)) = (None, db1)"
      and u: "up_dirs gl fs cat vs k db1 = ((n, None), db')"
    using assms(2) by (auto simp: MigrateUp_def Let_def split: option.splits sum.splits prod.splits if_splits)
  have "applied_set db \<subseteq> applied_set db1"
    using r goose_okD [OF assms(1), of fs cat db db1] by (cases b) auto
  with up_dirs_applied [OF assms(1) u] show ?thesis by blast
qed

lemma Baseline_completes:
  assumes "Baseline d ex q fs cat db = ((n, None), db')"
  shows "all_applied fs cat db' \<and> applied_set db \<subseteq> applied_set db'"
proof -
  let ?db2 = "exec_stmt SeedRow (exec_stmt CreateTable db)"
  obtain A files where f: "walk_migration_files fs cat = Inr files" and a: "load_applied_version_ids q ?db2 = Inr A"
    and b: "baseline_marks ex A files 0 ?db2 = ((n, None), db')"
    using assms by (auto simp: Baseline_def Let_def simp del: exec_stmt.simps split: option.splits sum.splits)
  have "A \<subseteq> applied_set ?db2"
    using a by (auto simp: load_applied_version_ids_def query_applied_def applied_set_def simp del: exec_stmt.simps
        split: option.splits if_splits sum.splits)
  moreover have "applied_set db \<subseteq> applied_set ?db2"
    by (auto simp: applied_set_def split: option.splits)
  ultimately show ?thesis using baseline_marks_all [OF exec_rows b] f by (auto simp: all_applied_def)
qed

lemma upHandler_cases:
  assumes "upHandler gl fs ce t db = ((ls, None), db')"
  shows "db' = db \<and> all_applied fs (dt_cat t) db
    \<or> (\<exists>n files. MigrateUp gl fs (dt_cat t) db = ((n, None), db') \<and> walk_migration_files fs (dt_cat t) = Inr files)"
proof (cases "CountPending (gl_dialect gl) (ce_query ce) fs (dt_cat t) db")
  case (Inl e)
  with assms show ?thesis by (simp add: upHandler_def)
next
  case (Inr before)
  then have "\<exists>files. walk_migration_files fs (dt_cat t) = Inr files"
    by (auto simp: CountPending_def mig_Status_def split: option.splits sum.splits)
  with assms Inr counted_none [of "gl_dialect gl" "ce_query ce" fs "dt_cat t" db] show ?thesis
    by (auto simp: upHandler_def split: if_splits prod.splits option.splits sum.splits)
qed

interpretation up: completing_handler upHandler
proof
  fix gl :: "'a goose_lib" and fs ce t db ls db'
  assume g: "goose_ok gl" and h: "upHandler gl fs ce t db = ((ls, None), db')"
  show "all_applied fs (dt_cat t) db'"
    using upHandler_cases [OF h] up_applies_all [OF g] by (auto simp: all_applied_def filter_empty_conv)
  show "applied_set db \<subseteq> applied_set db'"
    using upHandler_cases [OF h] MigrateUp_keeps [OF g] by blast
qed

interpretation baseline: completing_handler baselineHandler
proof
  fix gl :: "'a goose_lib" and fs ce t db ls db'
  assume "baselineHandler gl fs ce t db = ((ls, None), db')"
  then obtain n where "Baseline (gl_dialect gl) (ce_exec ce) (ce_query ce) fs (dt_cat t) db = ((n, None), db')"
    by (auto simp: baselineHandler_def split: prod.splits option.splits)
  from Baseline_completes [OF this] show "all_applied fs (dt_cat t) db'" "applied_set db \<subseteq> applied_set db'" by blast+
qed

lemma withDBs_scope:
  assumes "withDBs cmd h env args m = (res, m')"
  shows "mc_disk m' = mc_disk m \<and> (mc_dbs m' p \<noteq> mc_dbs m p \<longrightarrow>
      (\<exists>vs cfg c. parse_flags db_flags args = Inr vs
          \<and> config_Load (cl_read env) (cl_yaml env) (flag_value ''config'' vs) = Inr cfg
          \<and> c \<in> set (cfg_databases cfg) \<and> selects (targetsFromFlag (flag_value ''db'' vs)) c \<and> cl_open env (DSN c) = Inr p))"
  using assms
proof (cases rule: withDBs_run)
  case same
  then show ?thesis by simp
next
  case (run vs cfg dbs')
  show ?thesis
  proof (cases "dbs' p = mc_dbs m p")
    case True
    with run(4) show ?thesis by simp
  next
    case False
    with run_targets_frame [OF run(3), of p] obtain t where t: "t \<in> set (dbTargetsFor cfg (targetsFromFlag (flag_value ''db'' vs)))"
      "cl_open env (DSN (dt_cfg t)) = Inr p" by blast
    from target_selected [OF t(1)] t(2) run(1,2,4) show ?thesis by auto
  qed
qed

lemma status_writes_nothing:
  assumes "withDBs ''status'' statusHandler env args m = (res, m')"
  shows "mc_dbs m' = mc_dbs m"
proof -
  have "dbs' = dbs" if "run_targets cmd statusHandler env i ts dbs = (r, dbs')" for cmd i ts dbs r dbs'
    using that by (induction ts arbitrary: i dbs r)
      (fastforce simp: statusHandler_def split: sum.splits option.splits prod.splits if_splits)+
  from assms this show ?thesis by (cases rule: withDBs_run) auto
qed

lemma runCreate_writes_no_database: "runCreate env args m = (res, m') \<Longrightarrow> mc_dbs m' = mc_dbs m"
  by (auto simp: runCreate_def split: sum.splits option.splits prod.splits)

section \<open>Properties\<close>

text \<open>C26: \<^verbatim>\<open>migrator up\<close> and \<^verbatim>\<open>migrator baseline\<close> do what they say, for every database the flags
  select: whenever the process ends with code 0, each database of the configuration that \<^verbatim>\<open>--db\<close> names
  could be opened and has, at the end of the run, no pending migration of its category.\<close>

theorem command_completes_databases:
  assumes "goose_ok (cl_goose env)" and "cmd \<in> {''up'', ''baseline''}" and "cli_main env (cmd # args) m = ((ls, 0), m')"
    and "parse_flags db_flags args = Inr vs"
    and "config_Load (cl_read env) (cl_yaml env) (flag_value ''config'' vs) = Inr cfg"
    and "c \<in> set (cfg_databases cfg)" and "selects (targetsFromFlag (flag_value ''db'' vs)) c"
  shows "\<exists>p. cl_open env (DSN c) = Inr p \<and> CountPending None None (cl_files env) (category_of c) (mc_dbs m' p) = Inr 0"
  using assms(2,3) up.command_completes [OF assms(1) _ assms(4-7)] baseline.command_completes [OF assms(1) _ assms(4-7)]
  by (auto simp: cli_main_def)

text \<open>C27: a command stays in its scope.  Only \<^verbatim>\<open>up\<close>, \<^verbatim>\<open>up-by-one\<close>, \<^verbatim>\<open>down\<close> and
  \<^verbatim>\<open>baseline\<close> change a database, and only one that the configuration and \<^verbatim>\<open>--db\<close> select; only
  \<^verbatim>\<open>create\<close> writes to the disk.  With every error on the way, a refused flag, stage or target included.\<close>

theorem command_stays_in_scope:
  assumes "cli_main env (cmd # args) m = (res, m')"
  shows "(mc_dbs m' p \<noteq> mc_dbs m p \<longrightarrow> cmd \<in> {''up'', ''up-by-one'', ''down'', ''baseline''}
      \<and> (\<exists>vs cfg c. parse_flags db_flags args = Inr vs
          \<and> config_Load (cl_read env) (cl_yaml env) (flag_value ''config'' vs) = Inr cfg
          \<and> c \<in> set (cfg_databases cfg) \<and> selects (targetsFromFlag (flag_value ''db'' vs)) c \<and> cl_open env (DSN c) = Inr p))
    \<and> (mc_disk m' \<noteq> mc_disk m \<longrightarrow> cmd = ''create'')"
proof -
  consider (writes) "cmd \<in> {''up'', ''up-by-one'', ''down'', ''baseline''}" | (status) "cmd = ''status''" | (create) "cmd = ''create''"
    | (none) "cmd \<notin> {''up'', ''up-by-one'', ''down'', ''baseline''}" "cmd \<noteq> ''status''" "cmd \<noteq> ''create''"
    by argo
  then show ?thesis
  proof cases
    case writes
    with assms have "withDBs cmd upHandler env args m = (res, m') \<or> withDBs cmd upByOneHandler env args m = (res, m')
        \<or> withDBs cmd downHandler env args m = (res, m') \<or> withDBs cmd baselineHandler env args m = (res, m')"
      by (elim insertE) (simp_all add: cli_main_def)
    then obtain h where "withDBs cmd h env args m = (res, m')" by blast
    from withDBs_scope [OF this, of p] writes show ?thesis by simp
  next
    case status
    with assms have w: "withDBs ''status'' statusHandler env args m = (res, m')" by (simp add: cli_main_def)
    with status_writes_nothing [OF w] withDBs_scope [OF w [folded status]] show ?thesis by simp
  next
    case create
    with assms have "runCreate env args m = (res, m')" by (simp add: cli_main_def)
    from runCreate_writes_no_database [OF this] create show ?thesis by simp
  next
    case none
    with assms have "m' = m" by (simp add: cli_main_def split: if_splits)
    then show ?thesis by simp
  qed
qed

text \<open>A failing run stops where it failed.  The targets are visited game database first, then the shards
  by their id; when a command on them ends with another code than 0, the code is 1, the failure is at one
  target, and every database that neither this target nor an earlier one stands for is as before.\<close>

theorem failing_run_stops:
  assumes "withDBs cmd h env args m = ((ls, rc), m')" and "rc \<noteq> 0"
    and "parse_flags db_flags args = Inr vs"
    and "config_Load (cl_read env) (cl_yaml env) (flag_value ''config'' vs) = Inr cfg"
    and "tg = targetsFromFlag (flag_value ''db'' vs)" and "ts_any tg"
  shows "rc = 1 \<and> (\<exists>us t ws. dbTargetsFor cfg tg = us @ t # ws
    \<and> (\<forall>p. (\<forall>u \<in> set (us @ [t]). cl_open env (DSN (dt_cfg u)) \<noteq> Inr p) \<longrightarrow> mc_dbs m' p = mc_dbs m p)
    \<and> (\<forall>u \<in> set us. \<forall>v \<in> set (t # ws). (dt_cat v = CategoryGame \<longrightarrow> dt_cat u = CategoryGame)
         \<and> (dt_cat u = dt_cat v \<longrightarrow> dbc_shard_id (dt_cfg u) \<le> dbc_shard_id (dt_cfg v))))"
proof -
  have r: "run_targets cmd h env 0 (dbTargetsFor cfg tg) (mc_dbs m) = ((ls, rc), mc_dbs m')"
    using assms by (auto simp: withDBs_def Let_def split: if_splits prod.splits)
  from run_targets_fails [OF this assms(2)] obtain us t ws where u: "dbTargetsFor cfg tg = us @ t # ws" "rc = 1"
    "\<forall>p. (\<forall>u \<in> set us. cl_open env (DSN (dt_cfg u)) \<noteq> Inr p) \<and> cl_open env (DSN (dt_cfg t)) \<noteq> Inr p \<longrightarrow> mc_dbs m' p = mc_dbs m p"
    by blast
  let ?k = "\<lambda>t. (dt_cat t \<noteq> CategoryGame, dbc_shard_id (dt_cfg t))"
  have "sorted (map ?k (us @ t # ws))"
    unfolding u(1) [symmetric] dbTargetsFor_def by (rule sorted_sort_key)
  then have "\<forall>u \<in> set us. \<forall>v \<in> set (t # ws). ?k u \<le> ?k v" by (auto simp: sorted_append)
  then have "\<forall>u \<in> set us. \<forall>v \<in> set (t # ws). (dt_cat v = CategoryGame \<longrightarrow> dt_cat u = CategoryGame)
         \<and> (dt_cat u = dt_cat v \<longrightarrow> dbc_shard_id (dt_cfg u) \<le> dbc_shard_id (dt_cfg v))"
    by (fastforce simp: less_eq_prod_def)
  with u show ?thesis by (intro conjI exI [of _ us] exI [of _ t] exI [of _ ws]) auto
qed

lemma up_by_one_runs:
  "\<forall>t \<in> set ts. \<exists>p. cl_open env (DSN (dt_cfg t)) = Inr p \<Longrightarrow> \<forall>i. ce_ping (cl_conn env i) = None \<Longrightarrow>
     \<exists>ls dbs'. run_targets cmd upByOneHandler env i ts dbs = ((ls, 0), dbs')"
proof (induction ts arbitrary: i dbs)
  case Nil
  then show ?case by simp
next
  case (Cons t ts)
  then obtain p where p: "cl_open env (DSN (dt_cfg t)) = Inr p" by auto
  obtain ls db' where h: "upByOneHandler (cl_goose env) (cl_files env) (cl_conn env i) t (dbs p) = ((ls, None), db')"
    by (cases "MigrateUpByOne (cl_goose env) (cl_files env) (dt_cat t) (dbs p)";
        cases "fst (MigrateUpByOne (cl_goose env) (cl_files env) (dt_cat t) (dbs p))") (auto simp: upByOneHandler_def)
  from Cons.prems have "\<forall>t \<in> set ts. \<exists>p. cl_open env (DSN (dt_cfg t)) = Inr p" by simp
  from Cons.IH [OF this Cons.prems(2), of "Suc i" "dbs(p := db')"] obtain ls' dbs'
    where "run_targets cmd upByOneHandler env (Suc i) ts (dbs(p := db')) = ((ls', 0), dbs')" by blast
  with p h Cons.prems show ?case by simp
qed

text \<open>\<^verbatim>\<open>up-by-one\<close> cannot fail.  Once the connections stand, the process ends with code 0
  whatever error goose meets: not only that nothing is left to apply, also that a migration is broken.\<close>

theorem up_by_one_hides_errors:
  assumes "parse_flags db_flags args = Inr vs"
    and "config_Load (cl_read env) (cl_yaml env) (flag_value ''config'' vs) = Inr cfg"
    and "ts_any (targetsFromFlag (flag_value ''db'' vs))"
    and "\<And>c. c \<in> set (cfg_databases cfg) \<Longrightarrow> \<exists>p. cl_open env (DSN c) = Inr p"
    and "\<And>i. ce_ping (cl_conn env i) = None"
  shows "\<exists>ls m'. cli_main env (''up-by-one'' # args) m = ((ls, 0), m')"
proof -
  let ?ts = "dbTargetsFor cfg (targetsFromFlag (flag_value ''db'' vs))"
  have "\<forall>t \<in> set ?ts. \<exists>p. cl_open env (DSN (dt_cfg t)) = Inr p" using target_selected assms(4) by blast
  from up_by_one_runs [OF this, where i = 0 and cmd = "''up-by-one''" and dbs = "mc_dbs m"] assms(5) obtain ls dbs'
    where "run_targets ''up-by-one'' upByOneHandler env 0 ?ts (mc_dbs m) = ((ls, 0), dbs')" by blast
  with assms(1-3) show ?thesis by (cases "?ts = []") (simp_all add: cli_main_def withDBs_def Let_def)
qed

section \<open>Concrete runs\<close>

text \<open>The databases of the repository's \<^verbatim>\<open>config.yaml\<close>: the game database and one shard.\<close>

definition demo_game_config :: db_config where
  "demo_game_config = \<lparr>dbc_name = ''game'', dbc_shard_id = 1, dbc_weight = 0, dbc_host = ''localhost'',
     dbc_port = ''3306'', dbc_user = ''root'', dbc_password = ''pw'', dbc_dbname = ''N_GAME''\<rparr>"

definition demo_config :: app_config where
  "demo_config = \<lparr>cfg_server = \<lparr>sc_port = ''8089'', sc_stage = ''local''\<rparr>,
     cfg_databases = [demo_game_config\<lparr>dbc_name := ''shard_1'', dbc_shard_id := 10, dbc_weight := 100, dbc_dbname := ''N_SHARD_10''\<rparr>,
       demo_game_config],
     cfg_redis = [], cfg_cdn = \<lparr>cdn_base_url = [], cdn_timeout_seconds = 10\<rparr>\<rparr>"

definition demo_cli :: "string option \<Rightarrow> unit goose_lib \<Rightarrow> (unit, bool) cli_env" where
  "demo_cli ping gl = \<lparr>cl_read = (\<lambda>_. Inr []), cl_yaml = (\<lambda>_. Inr demo_config), cl_open = (\<lambda>d. Inr (d = DSN demo_game_config)),
     cl_conn = (\<lambda>_. \<lparr>ce_ping = ping, ce_query = None, ce_query2 = None, ce_exec = (\<lambda>_. None)\<rparr>), cl_goose = gl,
     cl_files = demo_source, cl_git = Some ''mega@com2us.com'', cl_user = [], cl_now = demo_now, cl_mkdir = None, cl_write = None\<rparr>"

definition demo_machine :: "(unit, bool) machine" where
  "demo_machine = \<lparr>mc_dbs = (\<lambda>_. empty_db), mc_disk = Map.empty\<rparr>"

lemma demo_loaded: "config_Load (cl_read (demo_cli p gl)) (cl_yaml (demo_cli p gl)) path = Inr demo_config"
  by (simp add: config_Load_def demo_cli_def demo_config_def validStages_def)

lemma demo_flags: "parse_flags db_flags [''--db'', ''game''] = Inr [(''db'', ''game''), (''config'', ''config.yaml'')]"
  "parse_flags db_flags [''-db=shard''] = Inr [(''db'', ''shard''), (''config'', ''config.yaml'')]"
  "parse_flags db_flags [] = Inr db_flags"
  by (simp_all add: db_flags_def flag_parts_def parse_flags.simps)

lemma demo_tg: "targetsFromFlag (flag_value ''db'' [(''db'', ''game''), (''config'', ''config.yaml'')]) = \<lparr>ts_game = True, ts_shard = False\<rparr>"
  "targetsFromFlag (flag_value ''db'' [(''db'', ''shard''), (''config'', ''config.yaml'')]) = \<lparr>ts_game = False, ts_shard = True\<rparr>"
  "targetsFromFlag (flag_value ''db'' db_flags) = \<lparr>ts_game = True, ts_shard = True\<rparr>"
  by (simp_all add: targetsFromFlag_def flag_value_def db_flags_def)

lemma demo_targets: "dbTargetsFor demo_config \<lparr>ts_game = True, ts_shard = False\<rparr>
    = [\<lparr>dt_label = ''GameDB[N_GAME]'', dt_cat = ''game'', dt_cfg = demo_game_config\<rparr>]"
  by (simp add: dbTargetsFor_def demo_config_def demo_game_config_def GameDBShardID_def CategoryGame_def)

lemma demo_goose_dialect: "gl_dialect demo_goose = None"
  by (simp add: demo_goose_def)

lemma demo_up_run: "\<exists>ls m'. cli_main (demo_cli None demo_goose) [''up'', ''--db'', ''game''] demo_machine = ((ls, 0), m')"
proof -
  let ?t = "\<lparr>dt_label = ''GameDB[N_GAME]'', dt_cat = ''game'', dt_cfg = demo_game_config\<rparr>" and ?env = "demo_cli None demo_goose"
  obtain db' where d: "MigrateUp demo_goose demo_source ''game'' empty_db = ((2, None), db')" using demo_up by blast
  have "CountPending None None demo_source ''game'' empty_db = Inr 3"
    by (simp add: count_pending_files [OF demo_walked]) (simp add: demo_walk_def applied_set_def empty_db_def)
  moreover have "CountPending None None demo_source ''game'' db' = Inr 0"
    using up_applies_all [OF demo_goose_ok d demo_walked] by (simp add: count_pending_files [OF demo_walked])
  ultimately have "upHandler demo_goose demo_source \<lparr>ce_ping = None, ce_query = None, ce_query2 = None, ce_exec = (\<lambda>_. None)\<rparr>
      ?t empty_db = (([Heading ''GameDB[N_GAME]'', AppliedCount 3 3 0], None), db')"
    using d by (simp add: upHandler_def demo_goose_dialect)
  then show ?thesis
    by (simp add: cli_main_def withDBs_def Let_def demo_flags demo_loaded demo_tg demo_targets ts_any_def)
       (simp add: demo_cli_def demo_machine_def)
qed

lemma command_completes_databases_witness:
  "\<exists>ls m'. cli_main (demo_cli None demo_goose) [''up'', ''--db'', ''game''] demo_machine = ((ls, 0), m')
     \<and> CountPending None None demo_source ''game'' (mc_dbs m' True) = Inr 0"
proof -
  obtain ls m' where r: "cli_main (demo_cli None demo_goose) (''up'' # [''--db'', ''game'']) demo_machine = ((ls, 0), m')"
    using demo_up_run by blast
  have "demo_game_config \<in> set (cfg_databases demo_config)" by (simp add: demo_config_def)
  moreover have "selects (targetsFromFlag (flag_value ''db'' [(''db'', ''game''), (''config'', ''config.yaml'')])) demo_game_config"
    by (simp add: demo_tg selects_def demo_game_config_def GameDBShardID_def)
  moreover have "goose_ok (cl_goose (demo_cli None demo_goose))" using demo_goose_ok by (simp add: demo_cli_def)
  ultimately have "\<exists>p. cl_open (demo_cli None demo_goose) (DSN demo_game_config) = Inr p
      \<and> CountPending None None (cl_files (demo_cli None demo_goose)) (category_of demo_game_config) (mc_dbs m' p) = Inr 0"
    using command_completes_databases [OF _ _ r demo_flags(1) demo_loaded] by simp
  with r show ?thesis
    by (auto simp: demo_cli_def category_of_def demo_game_config_def GameDBShardID_def CategoryGame_def)
qed

text \<open>A run on the shards leaves the game database alone.\<close>

lemma command_stays_in_scope_witness:
  "mc_dbs (snd (cli_main (demo_cli None demo_goose) [''up'', ''-db=shard''] demo_machine)) True = empty_db"
proof -
  obtain res m' where r: "cli_main (demo_cli None demo_goose) (''up'' # [''-db=shard'']) demo_machine = (res, m')"
    by (rule prod.exhaust)
  have "\<not> (c \<in> set (cfg_databases demo_config) \<and> selects \<lparr>ts_game = False, ts_shard = True\<rparr> c
      \<and> cl_open (demo_cli None demo_goose) (DSN c) = Inr True)" for c
    by (auto simp: demo_config_def selects_def GameDBShardID_def demo_game_config_def demo_cli_def DSN_def)
  with command_stays_in_scope [OF r, of True] have "mc_dbs m' True = mc_dbs demo_machine True"
    by (auto simp: demo_flags demo_loaded demo_tg)
  with r show ?thesis by (simp add: demo_machine_def)
qed

lemma failing_run_stops_witness:
  "withDBs ''up'' upHandler (demo_cli (Some ''refused'') demo_goose) [''--db'', ''game''] demo_machine
     = (([Failed (FailPing ''GameDB[N_GAME]'' ''refused'')], 1), demo_machine)
   \<and> (\<exists>us t ws. dbTargetsFor demo_config \<lparr>ts_game = True, ts_shard = False\<rparr> = us @ t # ws)"
proof -
  have r: "withDBs ''up'' upHandler (demo_cli (Some ''refused'') demo_goose) [''--db'', ''game''] demo_machine
     = (([Failed (FailPing ''GameDB[N_GAME]'' ''refused'')], 1), demo_machine)"
    by (simp add: withDBs_def Let_def demo_flags demo_loaded demo_tg demo_targets ts_any_def)
       (simp add: demo_cli_def demo_machine_def)
  from failing_run_stops [OF r _ demo_flags(1) demo_loaded demo_tg(1) [symmetric]] r show ?thesis
    by (auto simp: ts_any_def)
qed

text \<open>Goose meets a syntax error in a file; the process reports success.\<close>

lemma up_by_one_hides_errors_witness:
  "let env = demo_cli None (demo_goose\<lparr>gl_up_one := (\<lambda>fs dir db. (Some (''Error 1064'', False), db))\<rparr>) in
     MigrateUpByOne (cl_goose env) demo_source ''game'' empty_db = (Some ''game: Error 1064'', empty_db)
     \<and> (\<exists>ls m'. cli_main env [''up-by-one'', ''--db'', ''game''] demo_machine = ((ls, 0), m'))"
proof -
  define env where "env = demo_cli None (demo_goose\<lparr>gl_up_one := (\<lambda>fs dir db. (Some (''Error 1064'', False), db))\<rparr>)"
  have "\<not> sublist ''no migrations'' ''Error 1064''" by (auto dest: sublist_length_le)
  then have "MigrateUpByOne (cl_goose env) demo_source ''game'' empty_db = (Some ''game: Error 1064'', empty_db)"
    by (simp add: env_def demo_cli_def MigrateUpByOne_def demo_goose_def demo_dirs candidates_def contains_str_def)
  moreover have "\<exists>ls m'. cli_main env (''up-by-one'' # [''--db'', ''game'']) demo_machine = ((ls, 0), m')"
    unfolding env_def
    by (rule up_by_one_hides_errors [OF demo_flags(1) demo_loaded]) (simp_all add: demo_tg ts_any_def demo_cli_def)
  ultimately show ?thesis by (simp add: env_def Let_def)
qed

end
