(* ===== verification/HttpStack.thy ===== *)
theory HttpStack
  imports GameProperties
begin

text \<open>
  The HTTP server around the dispatcher: the routes of \<^verbatim>\<open>main.go\<close> and \<^verbatim>\<open>handler.SetupAll\<close> behind the
  three middlewares of \<^verbatim>\<open>internal/middleware\<close>, recovery outermost, then logging, then maintenance.
  A handler is a function on the state of one request: it returns, returns an error or panics, and may
  have written the response.  Echo's error handler and the handlers of the other routes are parameters.
\<close>

section \<open>One request\<close>

text \<open>A body is what arrives of it, with the error in which it breaks off, if it does.\<close>

record http_body =
  hb_bytes :: string
  hb_error :: "string option"

record http_request_in =
  hr_method :: string
  hr_uri :: string
  hr_path :: string

datatype 'r http_reply = GameMsg game_reply | WelcomeMsg string | HealthMsg string | OtherMsg 'r

text \<open>The log lines: the request line of the log middleware, with action, user, status and size of the
  request, and the line of the recovery middleware.\<close>

datatype log_line = ApiLine uint32 uint64 nat nat | PanicLine string

record 'r http_state =
  hs_request :: http_request_in
  hs_body :: http_body
  hs_response :: "(nat \<times> 'r http_reply) option"
  hs_action :: uint32
  hs_user :: uint64
  hs_world :: world
  hs_log :: "log_line list"

datatype http_result = HReturn | HError string | HPanic string

type_synonym 'r http_handler = "'r http_state \<Rightarrow> http_result \<times> 'r http_state"

text \<open>Writing a response; only the first one is sent.\<close>

definition respond :: "nat \<Rightarrow> 'r http_reply \<Rightarrow> 'r http_state \<Rightarrow> 'r http_state" where
  "respond status body s = (case hs_response s of None \<Rightarrow> s\<lparr>hs_response := Some (status, body)\<rparr> | Some _ \<Rightarrow> s)"

text \<open>\<^verbatim>\<open>c.Error\<close>: echo's error handler turns the error into a response, unless one is committed.\<close>

definition ctx_error :: "(string \<Rightarrow> nat \<times> 'r http_reply) \<Rightarrow> string \<Rightarrow> 'r http_state \<Rightarrow> 'r http_state" where
  "ctx_error eh e s = respond (fst (eh e)) (snd (eh e)) s"

definition hs_status :: "'r http_state \<Rightarrow> nat" where
  "hs_status s = (case hs_response s of None \<Rightarrow> 200 | Some (status, _) \<Rightarrow> status)"

section \<open>Middlewares\<close>

definition RecoverMiddleware :: "(string \<Rightarrow> nat \<times> 'r http_reply) \<Rightarrow> 'r http_handler \<Rightarrow> 'r http_handler" where
  "RecoverMiddleware eh nxt s =
     (case nxt s of
        (HPanic p, s') \<Rightarrow> (HReturn, ctx_error eh p (s'\<lparr>hs_log := hs_log s' @ [PanicLine p]\<rparr>))
      | r \<Rightarrow> r)"

text \<open>The request is read to its end or to an error, and the handlers read what was read, to its end; an
  unread or empty body counts as \<^verbatim>\<open>{}\<close>.\<close>

definition log_size :: "http_body \<Rightarrow> nat" where
  "log_size b = (if hb_error b = None \<and> hb_bytes b \<noteq> [] then length (hb_bytes b) else 2)"

definition LogMiddleware :: "(string \<Rightarrow> nat \<times> 'r http_reply) \<Rightarrow> 'r http_handler \<Rightarrow> 'r http_handler" where
  "LogMiddleware eh nxt s =
     (if hr_uri (hs_request s) \<in> {''/'', ''/favicon.ico'', ''/health''} then nxt s
      else let size = log_size (hs_body s);
               line = (\<lambda>s'. s'\<lparr>hs_log := hs_log s' @ [ApiLine (hs_action s') (hs_user s') (hs_status s') size]\<rparr>)
        in case nxt (s\<lparr>hs_body := \<lparr>hb_bytes = hb_bytes (hs_body s), hb_error = None\<rparr>\<rparr>) of
          (HPanic p, s') \<Rightarrow> (HPanic p, s')
        | (HError e, s') \<Rightarrow> (HReturn, line (ctx_error eh e s'))
        | (HReturn, s') \<Rightarrow> (HReturn, line s'))"

definition maintenance_layer :: "maintenance list \<Rightarrow> int \<Rightarrow> 'r http_handler \<Rightarrow> 'r http_handler" where
  "maintenance_layer st real nxt s =
     (case MaintenanceMiddleware st real (hr_path (hs_request s)) of
        Some m \<Rightarrow> (HReturn, respond 200 (GameMsg (GameError 5001 m)) s)
      | None \<Rightarrow> nxt s)"

section \<open>Routes\<close>

definition panic_text :: string where
  "panic_text = ''runtime error: invalid memory address or nil pointer dereference''"

text \<open>\<^verbatim>\<open>POST /api\<close>: read, decode the envelope (\<open>unmarshal\<close>), note action and user for the log, dispatch.\<close>

definition handle_api ::
  "(string \<Rightarrow> game_request option) \<Rightarrow> env \<Rightarrow> decoders \<Rightarrow> 'b design_store \<Rightarrow> 'r http_handler" where
  "handle_api unmarshal e dc ds s =
     (case hb_error (hs_body s) of
        Some _ \<Rightarrow> (HReturn, respond 200 (GameMsg (GameError 400 ''failed to read body'')) s)
      | None \<Rightarrow>
          (let envelope = unmarshal (hb_bytes (hs_body s));
               s1 = (case envelope of None \<Rightarrow> s | Some req \<Rightarrow> s\<lparr>hs_action := gr_action req, hs_user := gr_user_id req\<rparr>)
           in case dispatch e dc ds envelope (hs_world s) of
                (HttpPanic, w') \<Rightarrow> (HPanic panic_text, s1\<lparr>hs_world := w'\<rparr>)
              | (reply, w') \<Rightarrow> (HReturn, respond 200 (GameMsg reply) (s1\<lparr>hs_world := w'\<rparr>))))"

definition route ::
  "(string \<Rightarrow> game_request option) \<Rightarrow> env \<Rightarrow> decoders \<Rightarrow> 'b design_store \<Rightarrow> 'r http_handler \<Rightarrow> 'r http_handler" where
  "route unmarshal e dc ds others s =
     (let m = hr_method (hs_request s); p = hr_path (hs_request s) in
      if m = ''GET'' \<and> p = ''/'' then (HReturn, respond 200 (WelcomeMsg ''Welcome to Future Next Baseball'') s)
      else if m = ''GET'' \<and> p = ''/health'' then (HReturn, respond 200 (HealthMsg ''ok'') s)
      else if m = ''POST'' \<and> p = ''/api'' then handle_api unmarshal e dc ds s
      else others s)"

text \<open>The chain in the order of \<^verbatim>\<open>e.Use\<close>; an error that comes out of it goes to the error handler.\<close>

definition serve_http ::
  "(string \<Rightarrow> nat \<times> 'r http_reply) \<Rightarrow> (string \<Rightarrow> game_request option) \<Rightarrow> maintenance list \<Rightarrow> int \<Rightarrow> env \<Rightarrow> decoders
     \<Rightarrow> 'b design_store \<Rightarrow> 'r http_handler \<Rightarrow> 'r http_state \<Rightarrow> 'r http_state" where
  "serve_http eh unmarshal st real e dc ds others s =
     (case RecoverMiddleware eh (LogMiddleware eh (maintenance_layer st real (route unmarshal e dc ds others))) s of
        (HReturn, s') \<Rightarrow> s'
      | (HError err, s') \<Rightarrow> ctx_error eh err s'
      | (HPanic p, s') \<Rightarrow> s')"

section \<open>Lemmas\<close>

lemma respond_fields [simp]:
  "hs_log (respond n b s) = hs_log s" "hs_world (respond n b s) = hs_world s" "hs_action (respond n b s) = hs_action s"
  "hs_user (respond n b s) = hs_user s" "\<exists>k c. hs_response (respond n b s) = Some (k, c)" "hs_request (respond n b s) = hs_request s"
  by (simp_all add: respond_def split: option.splits)

lemma respond_first [simp]: "hs_response s = None \<Longrightarrow> hs_response (respond n b s) = Some (n, b)"
  by (simp add: respond_def)

text \<open>A request as it comes from the listener.\<close>

definition arrived :: "string \<Rightarrow> string \<Rightarrow> string \<Rightarrow> http_body \<Rightarrow> world \<Rightarrow> 'r http_state" where
  "arrived meth uri path body w =
     \<lparr>hs_request = \<lparr>hr_method = meth, hr_uri = uri, hr_path = path\<rparr>, hs_body = body, hs_response = None,
      hs_action = 0, hs_user = 0, hs_world = w, hs_log = []\<rparr>"

text \<open>A handler that keeps the promise of an echo handler: it answers, returns an error or panics, and logs
  nothing of the kind the middlewares log.\<close>

definition answers :: "'r http_handler \<Rightarrow> bool" where
  "answers h \<longleftrightarrow> (\<forall>s. hs_log (snd (h s)) = hs_log s \<and> (fst (h s) = HReturn \<longrightarrow> hs_response (snd (h s)) \<noteq> None))"

lemma answersD: "answers h \<Longrightarrow> h s = (r, s') \<Longrightarrow> hs_log s' = hs_log s \<and> (r = HReturn \<longrightarrow> hs_response s' \<noteq> None)"
  unfolding answers_def by (metis fst_conv snd_conv)

lemma answers_api: "answers (handle_api unmarshal e dc ds)"
  unfolding answers_def handle_api_def Let_def
  by (auto split: option.splits prod.splits game_reply.splits)

lemma answers_route: "answers others \<Longrightarrow> answers (route unmarshal e dc ds others)"
  using answers_api [of unmarshal e dc ds] unfolding answers_def route_def Let_def by auto

lemma answers_maintenance: "answers h \<Longrightarrow> answers (maintenance_layer st real h)"
  unfolding answers_def maintenance_layer_def by (auto split: option.splits)

section \<open>Properties\<close>


text \<open>C12: the stack around \<^verbatim>\<open>POST /api\<close> adds nothing and loses nothing but the end of the body.  The
  answer and the databases after it are those of the maintenance check and the dispatcher on the
  envelope in the bytes that arrived, a panic becoming the error handler's answer; that the body broke
  off on the way is not noticed: a cut request is served like a complete one.\<close>

theorem api_ignores_broken_body:
  assumes "s = arrived ''POST'' ''/api'' ''/api'' \<lparr>hb_bytes = bytes, hb_error = broken\<rparr> w"
    and "post_api st real e dc ds (unmarshal bytes) w = (reply, w')"
    and "s' = serve_http eh unmarshal st real e dc ds others s"
  shows "hs_world s' = w'
    \<and> hs_response s' = Some (if reply = HttpPanic then eh panic_text else (200, GameMsg reply))
    \<and> s' = serve_http eh unmarshal st real e dc ds others (s\<lparr>hs_body := \<lparr>hb_bytes = bytes, hb_error = None\<rparr>\<rparr>)
        \<lparr>hs_log := hs_log s'\<rparr>"
  using assms
  by (cases "MaintenanceMiddleware st real ''/api''"; cases reply)
     (auto simp: arrived_def serve_http_def RecoverMiddleware_def LogMiddleware_def maintenance_layer_def route_def handle_api_def
       Let_def post_api_def ctx_error_def respond_def split: prod.splits option.splits game_reply.splits)

section \<open>Concrete runs\<close>


text \<open>The body of an upgrade breaks off where what has arrived is an envelope: the card is upgraded.\<close>

lemma api_ignores_broken_body_witness:
  "\<exists>m sy. hs_response (serve_http (\<lambda>_. (500, OtherMsg ())) (\<lambda>_. Some (demo_game_request 2002 9)) [] 0 demo_env demo_decoders demo_designs
      (\<lambda>s. (HError ''Not Found'', s))
      (arrived ''POST'' ''/api'' ''/api'' \<lparr>hb_bytes = ''up'', hb_error = Some ''unexpected EOF''\<rparr> demo_user)) = Some (200, GameMsg (GameOK m sy))"
proof -
  obtain m sy w' where run: "dispatch demo_env demo_decoders demo_designs (Some (demo_game_request 2002 9)) demo_user = (GameOK m sy, w')"
    by (simp add: request_run uow_run demo_defs lock_free)
  then have "post_api [] 0 demo_env demo_decoders demo_designs ((\<lambda>_. Some (demo_game_request 2002 9)) ''up'') demo_user = (GameOK m sy, w')"
    by (simp add: post_api_def MaintenanceMiddleware_def ActiveMaintenance_def)
  from api_ignores_broken_body [OF refl this refl, THEN conjunct2, THEN conjunct1] show ?thesis
    by (intro exI [of _ m] exI [of _ sy]) simp
qed

end
