(* ===== verification/PotentialJson.thy ===== *)
theory PotentialJson
  imports GoRuntime GameModel "HOL-Library.AList" "HOL-Library.Multiset"
begin

text \<open>
  The JSON columns of a card: \<^verbatim>\<open>internal/model/potential_map.go\<close> and
  \<^verbatim>\<open>internal/model/json_field.go\<close>, on texts.  A map from ids to values is written as an object and
  read from an object, from a list, from \<^verbatim>\<open>null\<close> or from nothing, the forms PHP writes.  Of
  \<^verbatim>\<open>encoding/json\<close> the tokens and the two shapes are modelled that decode here; every other text is an
  error (None).  A Go map is an association list with distinct keys; its iteration order is a parameter.
\<close>

section \<open>Tokens\<close>

datatype json_token = LBrace | RBrace | LBrack | RBrack | Colon | Comma | StrTok string | NumTok nat | NullTok

definition is_hex :: "char \<Rightarrow> bool" where
  "is_hex c \<longleftrightarrow> is_digit c \<or> c \<in> set ''abcdefABCDEF''"

definition hex_val :: "char \<Rightarrow> nat" where
  "hex_val c = (if is_digit c then code c - 48 else if is_lower c then code c - 87 else code c - 55)"

text \<open>The character of an escape \<open>\u....\<close>; outside ASCII any byte that is no digit will do, because the
  keys read here must be digits.\<close>

definition hex_char :: "char \<Rightarrow> char \<Rightarrow> char \<Rightarrow> char \<Rightarrow> char" where
  "hex_char a b c d =
     (let n = ((hex_val a * 16 + hex_val b) * 16 + hex_val c) * 16 + hex_val d
      in char_of (if n < 128 then n else 255))"

definition simple_escape :: "char \<Rightarrow> char option" where
  "simple_escape c =
     (if c = CHR 0x22 \<or> c = CHR 0x5C \<or> c = CHR ''/'' then Some c
      else map_of [(CHR ''b'', char_of (8::nat)), (CHR ''f'', char_of (12::nat)), (CHR ''n'', char_of (10::nat)), (CHR ''r'', char_of (13::nat)),
                   (CHR ''t'', char_of (9::nat))] c)"

text \<open>A string after its opening quote: its value and the rest after the closing quote.\<close>

fun lex_string :: "string \<Rightarrow> (string \<times> string) option" where
  "lex_string [] = None"
| "lex_string (c # s) =
     (if c = CHR 0x22 then Some ([], s)
      else if code c < 32 then None
      else if c \<noteq> CHR 0x5C then map_option (\<lambda>(v, r). (c # v, r)) (lex_string s)
      else case s of
        [] \<Rightarrow> None
      | e # t \<Rightarrow>
          if e = CHR ''u'' then
            (case t of
               h1 # h2 # h3 # h4 # r \<Rightarrow>
                 if is_hex h1 \<and> is_hex h2 \<and> is_hex h3 \<and> is_hex h4
                 then map_option (\<lambda>(v, r'). (hex_char h1 h2 h3 h4 # v, r')) (lex_string r) else None
             | _ \<Rightarrow> None)
          else (case simple_escape e of None \<Rightarrow> None | Some x \<Rightarrow> map_option (\<lambda>(v, r). (x # v, r)) (lex_string t)))"

lemma lex_string_shorter: "lex_string s = Some (v, r) \<Longrightarrow> length r < length s"
  by (induction s arbitrary: v r rule: lex_string.induct)
     (fastforce split: if_splits list.splits option.splits dest: less_SucI)+

definition json_space :: "char \<Rightarrow> bool" where
  "json_space c \<longleftrightarrow> code c \<in> {32, 9, 10, 13}"

definition punctuation :: "char \<Rightarrow> json_token option" where
  "punctuation = map_of [(CHR ''{'', LBrace), (CHR ''}'', RBrace), (CHR ''['', LBrack), (CHR '']'', RBrack),
     (CHR '':'', Colon), (CHR '','', Comma)]"

function lex_json :: "string \<Rightarrow> json_token list option" where
  "lex_json [] = Some []"
| "lex_json (c # s) =
     (if json_space c then lex_json s
      else case punctuation c of
        Some t \<Rightarrow> map_option (Cons t) (lex_json s)
      | None \<Rightarrow>
          if c = CHR 0x22 then (case lex_string s of None \<Rightarrow> None | Some (v, r) \<Rightarrow> map_option (Cons (StrTok v)) (lex_json r))
          else if is_digit c then
            (if c = CHR ''0'' \<and> takeWhile is_digit s \<noteq> [] then None
             else map_option (Cons (NumTok (undec (c # takeWhile is_digit s)))) (lex_json (dropWhile is_digit s)))
          else if prefix ''null'' (c # s) then map_option (Cons NullTok) (lex_json (drop 3 s))
          else None)"
  by pat_completeness auto
termination
  by (relation "measure length") (auto dest: lex_string_shorter intro: le_less_trans [OF length_dropWhile_le])

declare lex_json.simps [simp del]

section \<open>Shapes\<close>

text \<open>A value of type \<^verbatim>\<open>uint32\<close>; null leaves the zero value.\<close>

fun uint_value :: "json_token \<Rightarrow> uint32 option" where
  "uint_value (NumTok n) = (if n < 2 ^ 32 then Some (of_nat n) else None)"
| "uint_value NullTok = Some 0"
| "uint_value _ = None"

fun members :: "json_token list \<Rightarrow> (string \<times> uint32) list option" where
  "members [StrTok k, Colon, v, RBrace] = map_option (\<lambda>x. [(k, x)]) (uint_value v)"
| "members (StrTok k # Colon # v # Comma # ts) =
     (case uint_value v of None \<Rightarrow> None | Some x \<Rightarrow> map_option (Cons (k, x)) (members ts))"
| "members _ = None"

fun elements :: "json_token list \<Rightarrow> uint32 list option" where
  "elements [v, RBrack] = map_option (\<lambda>x. [x]) (uint_value v)"
| "elements (v # Comma # ts) = (case uint_value v of None \<Rightarrow> None | Some x \<Rightarrow> map_option (Cons x) (elements ts))"
| "elements _ = None"

definition json_object :: "string \<Rightarrow> (string \<times> uint32) list option" where
  "json_object data =
     (case lex_json data of
        Some (LBrace # ts) \<Rightarrow> if ts = [RBrace] then Some [] else members ts
      | _ \<Rightarrow> None)"

definition json_array :: "string \<Rightarrow> uint32 list option" where
  "json_array data =
     (case lex_json data of
        Some (LBrack # ts) \<Rightarrow> if ts = [RBrack] then Some [] else elements ts
      | _ \<Rightarrow> None)"

section \<open>The map\<close>

definition parse_uint32 :: "string \<Rightarrow> uint32 option" where
  "parse_uint32 s =
     (if s \<noteq> [] \<and> list_all is_digit s \<and> undec s < 2 ^ 32 then Some (of_nat (undec s)) else None)"

text \<open>Decoding into a Go map: the last of equal keys stays.\<close>

definition raw_map :: "(string \<times> uint32) list \<Rightarrow> (string \<times> uint32) list" where
  "raw_map ps = fold (\<lambda>(k, v). AList.update k v) ps []"

text \<open>The loop over the raw map, in the order in which Go gives its entries.\<close>

fun number_keys :: "(string \<times> uint32) list \<Rightarrow> (uint32 \<rightharpoonup> uint32) \<Rightarrow> (uint32 \<rightharpoonup> uint32) option" where
  "number_keys [] out = Some out"
| "number_keys ((k, v) # ps) out = (case parse_uint32 k of None \<Rightarrow> None | Some i \<Rightarrow> number_keys ps (out(i \<mapsto> v)))"

definition list_map :: "uint32 list \<Rightarrow> (uint32 \<rightharpoonup> uint32)" where
  "list_map vs = fold (\<lambda>(i, v) m. m(of_nat i \<mapsto> v)) (enumerate 0 vs) Map.empty"

definition PotentialMap_UnmarshalJSON ::
  "((string \<times> uint32) list \<Rightarrow> (string \<times> uint32) list) \<Rightarrow> string \<Rightarrow> (uint32 \<rightharpoonup> uint32) option" where
  "PotentialMap_UnmarshalJSON order data =
     (let d = go_TrimSpace data in
      if d = [] \<or> d = ''null'' then Some Map.empty
      else if hd d = CHR ''{'' then
        (case json_object d of None \<Rightarrow> None | Some ps \<Rightarrow> number_keys (order (raw_map ps)) Map.empty)
      else if hd d = CHR ''['' then map_option list_map (json_array d)
      else None)"

text \<open>\<^verbatim>\<open>json.Marshal\<close> sorts the keys as strings.\<close>

definition json_entry :: "uint32 \<times> uint32 \<Rightarrow> string" where
  "json_entry e = CHR 0x22 # dec (unat (fst e)) @ [CHR 0x22, CHR '':''] @ dec (unat (snd e))"

definition PotentialMap_MarshalJSON :: "(uint32 \<times> uint32) list \<Rightarrow> string" where
  "PotentialMap_MarshalJSON kvs =
     ''{'' @ join_with '','' (map json_entry (sort_key (\<lambda>e. dec (unat (fst e))) kvs)) @ ''}''"

section \<open>The column\<close>

text \<open>What the driver hands to \<^verbatim>\<open>Scan\<close>: bytes, a string, or something else, such as NULL.\<close>

datatype scan_source = SrcBytes string | SrcString string | SrcOther

definition JSONField_Scan ::
  "((string \<times> uint32) list \<Rightarrow> (string \<times> uint32) list) \<Rightarrow> scan_source \<Rightarrow> (uint32 \<rightharpoonup> uint32) option" where
  "JSONField_Scan order src =
     (let unmarshal = (\<lambda>data. let v = dropWhile json_space (rev (dropWhile json_space (rev data))) in
            if v = [] \<or> go_TrimSpace v \<noteq> v then None else PotentialMap_UnmarshalJSON order v)
      in case src of SrcBytes b \<Rightarrow> unmarshal b | SrcString s \<Rightarrow> unmarshal s | SrcOther \<Rightarrow> None)"

definition JSONField_Value :: "(uint32 \<times> uint32) list \<Rightarrow> string" where
  "JSONField_Value kvs = PotentialMap_MarshalJSON kvs"

section \<open>Reading what was written\<close>

lemma lex_punctuation [simp]:
  "lex_json (CHR ''{'' # s) = map_option (Cons LBrace) (lex_json s)"
  "lex_json (CHR ''}'' # s) = map_option (Cons RBrace) (lex_json s)"
  "lex_json (CHR ''['' # s) = map_option (Cons LBrack) (lex_json s)"
  "lex_json (CHR '']'' # s) = map_option (Cons RBrack) (lex_json s)"
  "lex_json (CHR '':'' # s) = map_option (Cons Colon) (lex_json s)"
  "lex_json (CHR '','' # s) = map_option (Cons Comma) (lex_json s)"
  "lex_json [] = Some []"
  by (simp_all add: lex_json.simps json_space_def punctuation_def)

lemma lex_string_digits: "list_all is_digit ds \<Longrightarrow> lex_string (ds @ CHR 0x22 # r) = Some (ds, r)"
  by (induction ds) (auto simp: is_digit_def)

lemma lex_key: "lex_json (CHR 0x22 # dec n @ CHR 0x22 # r) = map_option (Cons (StrTok (dec n))) (lex_json r)"
  by (simp add: lex_json.simps json_space_def punctuation_def lex_string_digits)

lemma hd_dec: "0 < n \<Longrightarrow> hd (dec n) \<noteq> CHR ''0''"
proof (induction n rule: dec.induct)
  case (1 n)
  show ?case
  proof (cases "n < 10")
    case True
    with 1(2) have "n \<in> {1, 2, 3, 4, 5, 6, 7, 8, 9}" by auto
    then show ?thesis by (elim insertE emptyE; hypsubst) (simp_all add: dec_eval)
  next
    case False
    then have "0 < n div 10" by linarith
    with 1(1) [OF False] False show ?thesis by (subst dec.simps) simp
  qed
qed

lemma lex_number:
  assumes "\<not> is_digit c"
  shows "lex_json (dec n @ c # r) = map_option (Cons (NumTok n)) (lex_json (c # r))"
proof -
  obtain d ds where d: "dec n = d # ds" by (cases "dec n") auto
  have digits: "is_digit d" "list_all is_digit ds" using list_all_dec [of n] by (simp_all add: d)
  have "dec 0 = ''0''" by (simp add: dec_eval)
  then have zero: "d = CHR ''0'' \<Longrightarrow> ds = []"
    using hd_dec [of n] d by (cases "n = 0") auto
  have plain: "\<not> json_space d" "punctuation d = None" "d \<noteq> CHR 0x22"
    using digits(1) by (auto simp: json_space_def punctuation_def is_digit_def)
  have tw: "takeWhile is_digit (ds @ c # r) = ds" "dropWhile is_digit (ds @ c # r) = c # r"
    using digits(2) assms by (simp_all add: list_all_iff takeWhile_append dropWhile_append)
  have "d # ds = dec n" by (simp add: d)
  then have "undec (d # ds) = n" by simp
  with plain digits tw zero show ?thesis by (auto simp: d lex_json.simps(2) [of d "ds @ c # r"])
qed

lemma unat_uint32 [simp]: "unat v < 4294967296" for v :: uint32
  using unsigned_less [of v] by simp

lemma not_digits [simp]: "\<not> is_digit CHR ''}''" "\<not> is_digit CHR '']''" "\<not> is_digit CHR '',''"
  by (simp_all add: is_digit_def)

lemma lex_entries:
  "kvs \<noteq> [] \<Longrightarrow> \<exists>ts. lex_json (join_with '','' (map json_entry kvs) @ ''}'') = Some ts \<and> ts \<noteq> [RBrace]
     \<and> members ts = Some (map (\<lambda>e. (dec (unat (fst e)), snd e)) kvs)"
proof (induction kvs)
  case Nil
  then show ?case by simp
next
  case (Cons e kvs)
  show ?case
  proof (cases kvs)
    case Nil
    then show ?thesis by (simp add: json_entry_def lex_key lex_number)
  next
    case (Cons e' kvs')
    with Cons.IH obtain ts where "lex_json (join_with '','' (map json_entry kvs) @ ''}'') = Some ts"
      "members ts = Some (map (\<lambda>e. (dec (unat (fst e)), snd e)) kvs)" by auto
    with Cons show ?thesis by (simp add: json_entry_def [of e] lex_key lex_number)
  qed
qed

lemma lex_elements:
  "vs \<noteq> [] \<Longrightarrow> \<exists>ts. lex_json (join_with '','' (map (\<lambda>v. dec (unat v)) vs) @ '']'') = Some ts \<and> ts \<noteq> [RBrack]
     \<and> elements ts = Some vs"
  for vs :: "uint32 list"
proof (induction vs)
  case Nil
  then show ?case by simp
next
  case (Cons v vs)
  show ?case
  proof (cases vs)
    case Nil
    then show ?thesis by (simp add: lex_number)
  next
    case (Cons v' vs')
    with Cons.IH obtain ts where "lex_json (join_with '','' (map (\<lambda>v. dec (unat v)) vs) @ '']'') = Some ts"
      "elements ts = Some vs" by auto
    with Cons show ?thesis by (simp add: lex_number)
  qed
qed

lemma parse_uint32_dec [simp]: "parse_uint32 (dec (unat k)) = Some k" for k :: uint32
  by (simp add: parse_uint32_def)

lemma assoc_update_new: "k \<notin> fst ` set ps \<Longrightarrow> AList.update k v ps = ps @ [(k, v)]"
  by (induction ps) auto

lemma raw_map_distinct:
  assumes "distinct (map fst ps)"
  shows "raw_map ps = ps"
proof -
  have "fold (\<lambda>(k, v). AList.update k v) ps acc = acc @ ps" if "distinct (map fst (acc @ ps))" for acc
    using that
  proof (induction ps arbitrary: acc)
    case Nil
    then show ?case by simp
  next
    case (Cons p ps)
    then have "fst p \<notin> fst ` set acc" by auto
    moreover have "distinct (map fst ((acc @ [p]) @ ps))" using Cons.prems by simp
    ultimately show ?case using Cons.IH [of "acc @ [p]"] by (cases p) (simp add: assoc_update_new)
  qed
  with assms show ?thesis by (simp add: raw_map_def)
qed

lemma number_keys_all:
  "\<forall>(k, v) \<in> set qs. parse_uint32 k \<noteq> None \<Longrightarrow>
     number_keys qs out = Some (out ++ map_of (rev (map (\<lambda>(k, v). (the (parse_uint32 k), v)) qs)))"
  by (induction qs arbitrary: out) auto

text \<open>The order in which Go walks the raw map does not matter when its keys are different numbers.\<close>

lemma number_keys_order:
  assumes "mset qs = mset (map (\<lambda>e. (dec (unat (fst e)), snd e)) kvs)" and "distinct (map fst kvs)"
  shows "number_keys qs Map.empty = Some (map_of kvs)"
proof -
  let ?g = "\<lambda>(k, v). (the (parse_uint32 k), v :: uint32)"
  have "set qs = set (map (\<lambda>e. (dec (unat (fst e)), snd e)) kvs)" using assms(1) by (rule mset_eq_setD)
  then have "\<forall>(k, v) \<in> set qs. parse_uint32 k \<noteq> None" by auto
  note n = number_keys_all [OF this, of Map.empty]
  have m: "mset (map ?g qs) = mset kvs"
  proof -
    have "mset (map ?g qs) = image_mset ?g (mset (map (\<lambda>e. (dec (unat (fst e)), snd e)) kvs))"
      by (simp only: mset_map assms(1))
    also have "\<dots> = mset (map (\<lambda>e. ?g (dec (unat (fst e)), snd e)) kvs)" by (simp add: image_mset.compositionality comp_def)
    finally show ?thesis by simp
  qed
  have "mset (map fst (map ?g qs)) = mset (map fst kvs)" using arg_cong [OF m, of "image_mset fst"] by (simp only: mset_map)
  then have d: "distinct (map fst (rev (map ?g qs)))"
    using assms(2) mset_eq_imp_distinct_iff unfolding rev_map [symmetric] distinct_rev by blast
  have "set (rev (map ?g qs)) = set kvs" using mset_eq_setD [OF m] by simp
  with map_of_inject_set [OF d assms(2)] n show ?thesis by simp
qed

lemma js_ws_ends: "w \<in> set js_ws \<Longrightarrow> code (hd w) \<notin> {91, 93, 123, 125} \<and> code (last w) \<notin> {91, 93, 123, 125}"
  by (auto simp: js_ws_def utf8_def of_char_of)

lemma go_ws_ends:
  assumes "w \<in> set go_ws"
  shows "w \<noteq> [] \<and> hd w \<notin> set ''{[}]'' \<and> last w \<notin> set ''{[}]''"
proof -
  have "w = utf8 [0xC2, 0x85] \<or> w \<in> set js_ws" using assms by (auto simp: go_ws_def)
  then have "code (hd w) \<notin> {91, 93, 123, 125} \<and> code (last w) \<notin> {91, 93, 123, 125}"
    using js_ws_ends [of w] by (auto simp: utf8_def of_char_of)
  moreover have "c \<in> set ''{[}]'' \<Longrightarrow> code c \<in> {91, 93, 123, 125}" for c by auto
  ultimately show ?thesis using go_ws_nonempty [OF assms] by blast
qed

lemma go_TrimSpace_bracketed:
  assumes "s \<noteq> []" and "hd s \<in> set ''{[}]''" and "last s \<in> set ''{[}]''"
  shows "go_TrimSpace s = s"
proof -
  have "\<not> prefix w s" "\<not> suffix w s" if "w \<in> set go_ws" for w
    using go_ws_ends [OF that] assms by (auto simp: prefix_def suffix_def)
  then have "find (\<lambda>w. prefix w s) go_ws = None" "find (\<lambda>w. suffix w s) go_ws = None" by (auto simp: find_None_iff)
  then show ?thesis by (simp add: go_TrimSpace_def go_trim_start.simps [of s] go_trim_end.simps [of s])
qed

lemma scan_bracketed:
  assumes "s \<noteq> []" and "hd s \<in> set ''{[}]''" and "last s \<in> set ''{[}]''"
  shows "JSONField_Scan order (SrcBytes s) = PotentialMap_UnmarshalJSON order s"
proof -
  have ns: "\<not> json_space c" if "c \<in> set ''{[}]''" for c using that by (auto simp: json_space_def)
  obtain a t where a: "s = a # t" using assms(1) by (cases s) auto
  obtain u b where b: "s = u @ [b]" using assms(1) by (cases s rule: rev_cases) auto
  have "dropWhile json_space (rev s) = rev s" using ns assms(3) by (simp add: b)
  moreover have "dropWhile json_space s = s" "\<not> Ball (set s) json_space" using ns assms(2) by (simp_all add: a)
  ultimately show ?thesis using assms(1) go_TrimSpace_bracketed [OF assms] by (auto simp: JSONField_Scan_def Let_def)
qed

lemma list_map_nth:
  assumes "length vs \<le> 2 ^ 32"
  shows "list_map vs i = (if unat i < length vs then Some (vs ! unat i) else None)"
  using assms
proof (induction vs rule: rev_induct)
  case Nil
  then show ?case by (simp add: list_map_def)
next
  case (snoc v vs)
  have m: "list_map (vs @ [v]) = (list_map vs)(of_nat (length vs) \<mapsto> v)"
    by (simp add: list_map_def enumerate_append_eq)
  have "i = of_nat (length vs) \<longleftrightarrow> unat i = length vs"
  proof
    assume "unat i = length vs"
    then have "of_nat (length vs) = (of_nat (unat i) :: uint32)" by simp
    then show "i = of_nat (length vs)" by simp
  qed (use snoc.prems in \<open>simp add: unat_of_nat\<close>)
  with snoc m show ?case by (auto simp: nth_append)
qed

lemma read_object:
  assumes "distinct (map fst kvs)" and "\<And>ps. mset (order ps) = mset ps"
  shows "PotentialMap_UnmarshalJSON order (PotentialMap_MarshalJSON kvs) = Some (map_of kvs)"
proof -
  let ?kvs = "sort_key (\<lambda>e. dec (unat (fst e))) kvs" and ?t = "PotentialMap_MarshalJSON kvs"
  let ?ps = "map (\<lambda>e. (dec (unat (fst e)), snd e)) ?kvs"
  have t: "?t \<noteq> []" "hd ?t \<in> set ''{[}]''" "last ?t \<in> set ''{[}]''" by (simp_all add: PotentialMap_MarshalJSON_def)
  have "json_object ?t = Some ?ps"
    using lex_entries [of ?kvs] by (cases "?kvs = []") (auto simp: PotentialMap_MarshalJSON_def json_object_def)
  moreover have "raw_map ?ps = ?ps"
  proof (rule raw_map_distinct)
    have "distinct (map fst ?kvs)"
      using assms(1) mset_eq_imp_distinct_iff [of "map fst ?kvs" "map fst kvs"] by simp
    then have "distinct (map (\<lambda>k. dec (unat k)) (map fst ?kvs))"
      unfolding distinct_map [of "\<lambda>k. dec (unat k)"] by (simp only: inj_on_def dec_inject word_unat_eq_iff [symmetric]) simp
    moreover have "map fst ?ps = map (\<lambda>k. dec (unat k)) (map fst ?kvs)" by simp
    ultimately show "distinct (map fst ?ps)" by (simp only:)
  qed
  moreover have "mset (order ?ps) = mset (map (\<lambda>e. (dec (unat (fst e)), snd e)) kvs)" by (simp add: assms(2))
  ultimately show ?thesis
    using number_keys_order [OF _ assms(1)] t(1) go_TrimSpace_bracketed [OF t]
    by (simp add: PotentialMap_UnmarshalJSON_def Let_def) (simp add: PotentialMap_MarshalJSON_def)
qed

lemma read_list:
  "PotentialMap_UnmarshalJSON order (''['' @ join_with '','' (map (\<lambda>v. dec (unat v)) vs) @ '']'') = Some (list_map vs)"
  for vs :: "uint32 list"
proof -
  let ?t = "''['' @ join_with '','' (map (\<lambda>v. dec (unat v)) vs) @ '']''"
  have a: "?t \<noteq> []" "hd ?t \<in> set ''{[}]''" "last ?t \<in> set ''{[}]''" by simp_all
  have "json_array ?t = Some vs"
    using lex_elements [of vs] by (cases "vs = []") (auto simp: json_array_def)
  then show ?thesis
    using go_TrimSpace_bracketed [OF a] by (simp add: PotentialMap_UnmarshalJSON_def Let_def)
qed

section \<open>Properties\<close>

text \<open>C13: the potential column of a card survives being stored.  Whatever order Go walks its maps in, the
  text written for a map of ids to values, read by \<^verbatim>\<open>UnmarshalJSON\<close> or from the column by
  \<^verbatim>\<open>Scan\<close>, gives the same map; and PHP's list form of values is read as the map that numbers them
  from zero.\<close>

theorem potential_roundtrip:
  assumes "distinct (map fst kvs)" and "\<And>ps. mset (order ps) = mset ps" and "length vs \<le> 2 ^ 32"
  shows "PotentialMap_UnmarshalJSON order (PotentialMap_MarshalJSON kvs) = Some (map_of kvs)
    \<and> JSONField_Scan order (SrcBytes (JSONField_Value kvs)) = Some (map_of kvs)
    \<and> JSONField_Scan order (SrcBytes (''['' @ join_with '','' (map (\<lambda>v. dec (unat v)) vs) @ '']''))
       = Some (\<lambda>i. if unat i < length vs then Some (vs ! unat i) else None)"
proof -
  let ?t = "PotentialMap_MarshalJSON kvs" and ?a = "''['' @ join_with '','' (map (\<lambda>v. dec (unat v)) vs) @ '']''"
  have ends: "?t \<noteq> []" "hd ?t \<in> set ''{[}]''" "last ?t \<in> set ''{[}]''" "?a \<noteq> []" "hd ?a \<in> set ''{[}]''" "last ?a \<in> set ''{[}]''"
    by (simp_all add: PotentialMap_MarshalJSON_def)
  have "list_map vs = (\<lambda>i. if unat i < length vs then Some (vs ! unat i) else None)"
    using list_map_nth [OF assms(3)] by blast
  then show ?thesis
    using read_object [OF assms(1,2)] read_list [of order vs] scan_bracketed [OF ends(1-3), of order] scan_bracketed [OF ends(4-6), of order]
    by (simp add: JSONField_Value_def)
qed

lemma potential_roundtrip_witness:
  "PotentialMap_MarshalJSON [(2, 7), (10, 1)] = CHR ''{'' # concat [[CHR 0x22], ''10'', [CHR 0x22], '':1,'', [CHR 0x22], ''2'', [CHR 0x22], '':7}'']
   \<and> JSONField_Scan rev (SrcBytes (PotentialMap_MarshalJSON [(2, 7), (10, 1)])) = Some (map_of [(2, 7), (10, 1)])
   \<and> JSONField_Scan rev (SrcBytes ''[5,6]'') = Some (\<lambda>i. if unat i < length [5, 6 :: uint32] then Some ([5, 6] ! unat i) else None)"
proof -
  have "PotentialMap_MarshalJSON [(2, 7), (10, 1)] = CHR ''{'' # concat [[CHR 0x22], ''10'', [CHR 0x22], '':1,'', [CHR 0x22], ''2'', [CHR 0x22], '':7}'']"
    by (simp add: PotentialMap_MarshalJSON_def json_entry_def dec_eval)
  with potential_roundtrip [of "[(2, 7), (10, 1)]" rev "[5, 6]"] show ?thesis
    by (simp add: JSONField_Value_def dec_eval)
qed

text \<open>Two spellings of one id: which value stays depends on the order in which Go walks the map.\<close>

lemma spellings_depend_on_order:
  "number_keys [(''1'', 5), (''01'', 6)] Map.empty \<noteq> number_keys (rev [(''1'', 5), (''01'', 6)]) Map.empty"
  by (simp add: parse_uint32_def is_digit_def undec_def digit_val_def fun_eq_iff)

end
