(* ===== verification/Startup.thy ===== *)
theory Startup
  imports MigratorCli AdminClock Maintenance
begin

text \<open>
  Starting the server, \<^verbatim>\<open>main.go\<close> up to the routes, with \<^verbatim>\<open>internal/cache/redis.go\<close>: the
  configuration, the databases, the Redis instances, the design data, the maintenance windows and the
  clock, each step over what the earlier ones have set up.  What the outside answers is an environment.
\<close>

section \<open>The environment and the server\<close>

record 'b boot_env =
  bo_read :: "string \<Rightarrow> string + string"
  bo_yaml :: "string \<Rightarrow> string + app_config"
  bo_connect :: "string \<Rightarrow> string option"
  bo_ping :: "redis_config \<Rightarrow> string option"
  bo_versions :: "string + version_model list"
  bo_cdn :: "'b cdn"
  bo_maintenance :: "string + maintenance list"
  bo_clock_error :: "string option"
  bo_clock_rows :: "(int \<times> string) list"

record 'b game_server =
  gs_stage :: string
  gs_disk_source :: bool
  gs_registry :: "unit registry"
  gs_redis :: "string \<rightharpoonup> redis_config"
  gs_designs :: "'b design_store"
  gs_maintenance :: "maintenance list"
  gs_clock :: clock_server

datatype boot_error =
    BootConfig config_error | BootDatabase string string | BootRedis string string | BootNoGameDB
  | BootDesign string | BootResource string

section \<open>Steps\<close>

definition db_entry :: "db_config \<Rightarrow> int \<times> unit database \<times> int" where
  "db_entry c = (dbc_shard_id c, \<lparr>db_dbName = dbc_dbname c, db_handle = ()\<rparr>, dbc_weight c)"

fun connect_databases :: "(string \<Rightarrow> string option) \<Rightarrow> db_config list \<Rightarrow> unit registry \<Rightarrow> boot_error + unit registry" where
  "connect_databases conn [] rg = Inr rg"
| "connect_databases conn (c # cs) rg =
     (case conn (DSN c) of
        Some e \<Rightarrow> Inl (BootDatabase (dbc_name c) e)
      | None \<Rightarrow> (case db_entry c of (i, d, w) \<Rightarrow> connect_databases conn cs (RegisterShard i d w rg)))"

definition cache_Init :: "(redis_config \<Rightarrow> string option) \<Rightarrow> redis_config \<Rightarrow> (string \<rightharpoonup> redis_config) \<Rightarrow> string + (string \<rightharpoonup> redis_config)" where
  "cache_Init ping rc m =
     (case ping rc of
        Some e \<Rightarrow> Inl (''failed to connect redis ['' @ rc_name rc @ '']: '' @ e)
      | None \<Rightarrow> Inr (m(rc_name rc \<mapsto> rc)))"

fun connect_redis :: "(redis_config \<Rightarrow> string option) \<Rightarrow> redis_config list \<Rightarrow> (string \<rightharpoonup> redis_config) \<Rightarrow> boot_error + (string \<rightharpoonup> redis_config)" where
  "connect_redis ping [] m = Inr m"
| "connect_redis ping (rc # rcs) m =
     (case cache_Init ping rc m of
        Inl e \<Rightarrow> Inl (BootRedis (rc_name rc) e)
      | Inr m' \<Rightarrow> connect_redis ping rcs m')"

text \<open>Every \<^verbatim>\<open>log.Fatal\<close> ends the process.\<close>

definition boot :: "'b boot_env \<Rightarrow> boot_error + 'b game_server" where
  "boot env =
     (case config_Load (bo_read env) (bo_yaml env) ''config.yaml'' of
        Inl e \<Rightarrow> Inl (BootConfig e)
      | Inr cfg \<Rightarrow> (case connect_databases (bo_connect env) (cfg_databases cfg) new_registry of
          Inl e \<Rightarrow> Inl e
        | Inr rg \<Rightarrow> (case connect_redis (bo_ping env) (cfg_redis cfg) Map.empty of
            Inl e \<Rightarrow> Inl e
          | Inr rds \<Rightarrow>
              if GetGameDB rg = None then Inl BootNoGameDB
              else case LoadActive (Load (bo_cdn env) (cdn_base_url (cfg_cdn cfg))) (bo_versions env) Map.empty of
                (Some e, _) \<Rightarrow> Inl (BootDesign e)
              | (None, designs) \<Rightarrow> (case resource_LoadAll (bo_maintenance env) [] of
                  (Some e, _) \<Rightarrow> Inl (BootResource e)
                | (None, windows) \<Rightarrow>
                    Inr \<lparr>gs_stage = sc_stage (cfg_server cfg), gs_disk_source = (sc_stage (cfg_server cfg) = ''local''),
                         gs_registry = rg, gs_redis = rds, gs_designs = designs, gs_maintenance = windows,
                         gs_clock = boot_clock (bo_clock_error env) \<lparr>cs_offset = 0, cs_rows = bo_clock_rows env\<rparr>\<rparr>))))"

section \<open>Lemmas\<close>

lemma connect_databases_all:
  "connect_databases conn cs rg = Inr rg' \<Longrightarrow>
     rg' = fold (\<lambda>(i, d, w) rg. RegisterShard i d w rg) (map db_entry cs) rg \<and> (\<forall>c \<in> set cs. conn (DSN c) = None)"
  by (induction cs arbitrary: rg) (auto simp: db_entry_def split: option.splits)

lemma registered_ids: "fst ` set (rg_map (register_all cfg)) = fst ` set cfg"
proof (induction cfg rule: rev_induct)
  case Nil
  then show ?case by (simp add: register_all_def new_registry_def)
next
  case (snoc c cfg)
  then show ?case by (cases c) (auto simp: register_all_def RegisterShard_def Let_def dom_update)
qed

lemma connect_redis_all:
  "connect_redis ping rcs m = Inr m' \<Longrightarrow>
     dom m' = dom m \<union> rc_name ` set rcs \<and> (\<forall>rc \<in> set rcs. ping rc = None)"
  by (induction rcs arbitrary: m) (auto simp: cache_Init_def split: option.splits)

lemma pick_shard_ready: "(\<forall>r. PickShard r (register_all cfg) \<noteq> None) \<longleftrightarrow> (\<exists>c \<in> set cfg. 0 < snd (snd c))"
proof -
  have "rg_total (register_all cfg) = 0 \<longleftrightarrow> \<not> (\<exists>c \<in> set cfg. 0 < snd (snd c))"
    by (auto simp: register_pool weights_def)
  moreover have "(\<forall>r. PickShard r (register_all cfg) \<noteq> None) \<longleftrightarrow> rg_total (register_all cfg) \<noteq> 0"
    by (auto simp: PickShard_def split: option.splits)
  ultimately show ?thesis by simp
qed

lemma newest_served:
  assumes "LoadActive ld (Inr rows) st = (None, st')"
  shows "GetByClientVersion st' (gv_client_version (hd rows)) \<noteq> None"
proof -
  let ?sv = "gv_server_version (hd rows)" and ?cv = "gv_client_version (hd rows)"
  note l = LoadActive_loaded [OF assms, of ?cv]
  then have r: "rows \<noteq> []" by blast
  then have "?cv \<in> set (cv_by_sv rows ?sv)" by (cases rows) (auto simp: cv_by_sv_def)
  moreover have "?sv \<in> set (take 2 (ordered_sv rows []))"
    using ordered_sv_hd [OF r] by (cases "ordered_sv rows []") (auto simp: take_Cons')
  ultimately have "serving ld rows (take 2 (ordered_sv rows [])) ?cv \<noteq> None"
    using l by (auto simp: serving_def find_None_iff)
  with l show ?thesis by (auto simp: GetByClientVersion_def)
qed

lemma boot_steps:
  assumes "boot env = Inr s"
  obtains cfg rds rows where "config_Load (bo_read env) (bo_yaml env) ''config.yaml'' = Inr cfg"
    "connect_databases (bo_connect env) (cfg_databases cfg) new_registry = Inr (gs_registry s)"
    "connect_redis (bo_ping env) (cfg_redis cfg) Map.empty = Inr (gs_redis s)" "GetGameDB (gs_registry s) \<noteq> None"
    "bo_versions env = Inr rows"
    "LoadActive (Load (bo_cdn env) (cdn_base_url (cfg_cdn cfg))) (Inr rows) Map.empty = (None, gs_designs s)"
    "bo_maintenance env = Inr (gs_maintenance s)" "gs_stage s = sc_stage (cfg_server cfg)"
    "gs_clock s = boot_clock (bo_clock_error env) \<lparr>cs_offset = 0, cs_rows = bo_clock_rows env\<rparr>"
proof -
  obtain cfg where c: "config_Load (bo_read env) (bo_yaml env) ''config.yaml'' = Inr cfg"
    using assms by (cases "config_Load (bo_read env) (bo_yaml env) ''config.yaml''") (simp_all add: boot_def)
  obtain rg where g: "connect_databases (bo_connect env) (cfg_databases cfg) new_registry = Inr rg"
    using assms by (cases "connect_databases (bo_connect env) (cfg_databases cfg) new_registry") (simp_all add: boot_def c)
  obtain rds where r: "connect_redis (bo_ping env) (cfg_redis cfg) Map.empty = Inr rds"
    using assms by (cases "connect_redis (bo_ping env) (cfg_redis cfg) Map.empty") (simp_all add: boot_def c g)
  have n: "GetGameDB rg \<noteq> None"
  proof
    assume "GetGameDB rg = None"
    with assms show False by (simp add: boot_def c g r)
  qed
  let ?ld = "Load (bo_cdn env) (cdn_base_url (cfg_cdn cfg))"
  obtain e1 designs where d: "LoadActive ?ld (bo_versions env) Map.empty = (e1, designs)" by (rule prod.exhaust)
  obtain e2 windows where w: "resource_LoadAll (bo_maintenance env) [] = (e2, windows)" by (rule prod.exhaust)
  have e: "e1 = None" "e2 = None" using assms n by (cases e1; cases e2; simp add: boot_def c g r d w)+
  obtain rows where "bo_versions env = Inr rows" using d e by (cases "bo_versions env") (auto simp: LoadActive_def)
  moreover have "bo_maintenance env = Inr windows"
    using w e by (cases "bo_maintenance env") (auto simp: resource_LoadAll_def resource_Load_def)
  moreover have "s = \<lparr>gs_stage = sc_stage (cfg_server cfg), gs_disk_source = (sc_stage (cfg_server cfg) = ''local''),
      gs_registry = rg, gs_redis = rds, gs_designs = designs, gs_maintenance = windows,
      gs_clock = boot_clock (bo_clock_error env) \<lparr>cs_offset = 0, cs_rows = bo_clock_rows env\<rparr>\<rparr>"
    using assms n by (simp add: boot_def c g r d w e)
  ultimately show thesis using that [of cfg rows] c g r n d e by simp
qed

section \<open>Properties\<close>


section \<open>A start\<close>

text \<open>The repository's configuration, but of the Redis instances only the one for reload messages: the process
  comes up all the same, and the locks, sessions and caches are left without a client.\<close>

definition demo_boot_config :: app_config where
  "demo_boot_config = demo_config\<lparr>cfg_redis := [\<lparr>rc_name = ''reload_pubsub'', rc_host = ''localhost'', rc_port = ''6379'',
     rc_password = [], rc_db = 15\<rparr>]\<rparr>"

definition demo_boot :: "unit boot_env" where
  "demo_boot = \<lparr>bo_read = (\<lambda>_. Inr []), bo_yaml = (\<lambda>_. Inr demo_boot_config), bo_connect = (\<lambda>_. None), bo_ping = (\<lambda>_. None),
     bo_versions = Inr demo_active, bo_cdn = demo_cdn, bo_maintenance = Inr [], bo_clock_error = None,
     bo_clock_rows = [(3600, ''qa'')]\<rparr>"

lemma demo_boots: "\<exists>s. boot demo_boot = Inr s \<and> gs_redis s ''lock'' = None"
proof -
  have c: "config_Load (bo_read demo_boot) (bo_yaml demo_boot) ''config.yaml'' = Inr demo_boot_config"
    by (simp add: config_Load_def demo_boot_def demo_boot_config_def demo_config_def validStages_def)
  obtain rg where g: "connect_databases (bo_connect demo_boot) (cfg_databases demo_boot_config) new_registry = Inr rg"
    by (simp add: demo_boot_def demo_boot_config_def demo_config_def db_entry_def)
  then have "GetGameDB rg \<noteq> None"
    by (auto simp: demo_boot_def demo_boot_config_def demo_config_def db_entry_def demo_game_config_def RegisterShard_def new_registry_def Let_def
        GetGameDB_def GetShard_def GameDBShardID_def)
  moreover have "\<exists>d. LoadActive (Load (bo_cdn demo_boot) (cdn_base_url (cfg_cdn demo_boot_config))) (bo_versions demo_boot) Map.empty = (None, d)"
  proof -
    have "ordered_sv demo_active [] = [''2'', ''1'']" by (simp add: demo_active_def)
    then show ?thesis by (simp add: demo_boot_def demo_boot_config_def demo_config_def LoadActive_def demo_load MaxActiveVersions_def Let_def)
  qed
  ultimately show ?thesis
    by (auto simp: boot_def c g) (auto simp: demo_boot_def demo_boot_config_def demo_config_def resource_LoadAll_def resource_Load_def cache_Init_def)
qed


end
