(* ===== verification/Spec2Isabelle.thy ===== *)
theory Spec2Isabelle
  imports Prelude Regex JsRuntime Texts ApiClient Ui ClockPage DataTable VersionPage CreateModal
    MigrationsPage AdminApp GoRuntime GoTime AdminClock MigrationFiles Migrator Database AdminApi UrlQuery Design AdminStack
    GameModel Uow UowInvariant UowLoad UowWrite UowCommit UowCoherence GameServices GameApi GameCoherence GameSpec
    GameLogin Maintenance GameProperties Redis RedisStores RedisWorld Lease Overlap MigratorCli HttpStack PotentialJson Startup
begin

text \<open>
  A verification development of the game server and its admin console: the Go server under
  \<^verbatim>\<open>internal/\<close>, \<^verbatim>\<open>router/\<close> and \<^verbatim>\<open>sql/migrations/\<close>, and the React
  single-page application under \<^verbatim>\<open>web/admin/src/\<close>.

  \<^bold>\<open>The program.\<close>  Game clients post protobuf envelopes to one endpoint
  (\<^verbatim>\<open>internal/handler/dispatch.go\<close>).  The dispatcher picks the handler by the action and the
  design catalog by the client version, checks the session, takes the lock of the user, runs the
  handler on a fresh unit of work and commits it.  The unit of work (\<^verbatim>\<open>internal/uow\<close>) loads
  entities through its own store, a Redis cache per user and the databases (a game database with the
  accounts, and shards with everything else, chosen by the account's row), queues writes, runs them in
  one transaction per database and then writes the cache, or empties it when the commit failed.
  Operators use the admin console: five pages over the endpoints of \<^verbatim>\<open>router/admin.go\<close>, which
  shift the server's clock, edit the version table that decides which design catalogs are served, and
  list, view and create migration files; the migrator applies them with goose.

  \<^bold>\<open>Theories, from the bottom.\<close>
  \<^item> \<open>Prelude\<close>, \<open>Regex\<close>, \<open>Texts\<close>: strings as byte lists, decimal numerals, an executable matcher for the
    anchored patterns of the sources and what they accept, the Korean texts.
  \<^item> \<open>JsRuntime\<close>, \<open>GoRuntime\<close>, \<open>GoTime\<close>, \<open>UrlQuery\<close>: what the code uses of JavaScript, of Go and of the
    query-string rules on both sides; printing and reading times and queries are inverse.
  \<^item> \<open>Ui\<close>: rendered trees, the events a user can raise in one, pending promises, and two contracts of
    pages as locales, \<open>guarded_page\<close> (no second guarded request while one is in flight) and
    \<open>settling_page\<close> (when the open requests settle, the page is idle).  The clock, version and
    migrations pages interpret them.
  \<^item> \<open>ApiClient\<close> (\<^verbatim>\<open>api/client.ts\<close>), \<open>ClockPage\<close>, \<open>VersionPage\<close>, \<open>MigrationsPage\<close>,
    \<open>CreateModal\<close> (\<^verbatim>\<open>pages/*.tsx\<close>), \<open>DataTable\<close> (\<^verbatim>\<open>components/DataTable.tsx\<close>),
    \<open>AdminApp\<close> (\<^verbatim>\<open>App.tsx\<close>, \<^verbatim>\<open>main.tsx\<close>, \<^verbatim>\<open>vite.config.ts\<close>): one record per
    component for its hooks, one definition per handler and per continuation after an \<^verbatim>\<open>await\<close>,
    the rendered tree, and an inductive step relation in which the user clicks what is enabled and
    requests settle in any order.
  \<^item> \<open>AdminClock\<close> (\<^verbatim>\<open>internal/clock\<close>, the clock endpoints, the start-up code), \<open>MigrationFiles\<close>
    (\<^verbatim>\<open>sql/migrations/create.go\<close> and the walkers), \<open>Migrator\<close>
    (\<^verbatim>\<open>sql/migrations/migrator.go\<close>), \<open>Database\<close> (\<^verbatim>\<open>internal/database\<close>: registry, weighted
    choice, SQL texts), \<open>MigratorCli\<close> (\<^verbatim>\<open>cmd/migrator/main.go\<close>, \<^verbatim>\<open>config/config.go\<close>: flags,
    targets, commands and exit codes; the locale \<open>completing_handler\<close> is the contract of the commands that
    bring a database up to date), \<open>AdminApi\<close> (the other endpoints), \<open>Design\<close> (\<^verbatim>\<open>internal/design\<close>).
  \<^item> \<open>AdminStack\<close> and this theory: pages and endpoints together.
  \<^item> \<open>GameModel\<close>, \<open>Uow\<close>, \<open>GameServices\<close>, \<open>GameApi\<close>: the game server, definitions only.  A request is a
    state monad over the world (tables, cache, sessions, locks) and the unit of work; Go pointers are
    positions in \<open>u_heap\<close>, so that the store, the queue and the handler share objects as the code does.
  \<^item> \<open>PotentialJson\<close> (\<^verbatim>\<open>model/potential_map.go\<close>, \<^verbatim>\<open>model/json_field.go\<close>): the JSON column of a card as text,
    written and read back.
  \<^item> \<open>UowInvariant\<close>, \<open>UowLoad\<close>, \<open>UowWrite\<close>, \<open>UowCommit\<close>, \<open>UowCoherence\<close>, \<open>GameCoherence\<close>: the invariant
    \<open>reqinv\<close> of a request (which rows its objects stand for, which writes they have queued, and that the
    cache agrees with the database) through loading, changing, queuing, the transactions, the
    services, the handlers and the dispatcher.
    The locale \<open>entity_list\<close> is the contract of the services on lists of entities (load, pick by id, change);
    assets, items and cards interpret it.
  \<^item> \<open>Maintenance\<close> (\<^verbatim>\<open>internal/resource\<close>, \<^verbatim>\<open>internal/middleware/maintenance.go\<close>): the
    windows that close the game API, and the locale \<open>reloading\<close>, how data reloads over a fleet of servers;
    resources and design data interpret it.
  \<^item> \<open>GameSpec\<close>, \<open>GameLogin\<close>, \<open>GameProperties\<close>: what that gives a client; \<open>Overlap\<close>: what two upgrades do to
    each other when the lock does not keep them apart; \<open>HttpStack\<close>: the routes of \<^verbatim>\<open>main.go\<close> behind
    the middlewares of \<^verbatim>\<open>internal/middleware\<close>; \<open>Startup\<close>: what \<^verbatim>\<open>main.go\<close> does before them.
  \<^item> \<open>Redis\<close>, \<open>RedisStores\<close> (\<^verbatim>\<open>internal/cache\<close>, \<^verbatim>\<open>uow/helper.go\<close>): a Redis with time, its commands and
    scripts, the locks, sessions and caches on it; the locale \<open>entity_cache\<close> is the Go interface of that name.
    \<open>RedisWorld\<close> relates the stores to the world of \<open>GameModel\<close>; \<open>Lease\<close> is the system of many requests
    at one Redis, a step per call.

  \<^bold>\<open>What the theorems show.\<close>  For the game server: the cache stays coherent over any sequence of
  requests and faults; answers are a function of the databases alone; rows change only through a login or
  with the owner's session and lock, and never in a maintenance window; an answered upgrade is in the
  database, once; a first login creates the account with exactly the starting assets; consuming takes exactly what is there.  The keys and
  scripts in Redis implement what these theorems assume of sessions, locks and cached values; a lock keeps
  requests apart for ten seconds, and two upgrades that it does not keep apart lose one.  Every request is answered,
  a panic included; a body that breaks off is served like a complete one.  For the console:
  what is sent and when (only selected rows, only valid names, no second request in flight), that every
  page comes to rest, where a late answer lands in the wrong place, that a picked time is reached,
  that files and versions entered in a page are what the server then serves.  For the admin side of the
  server: the clock survives a restart, files are created safely and listed in order, a
  migrator run that ends with code 0 leaves nothing pending in any selected database and touches no other,
  a server that has come up is ready to serve, shards are chosen in proportion to their weights, the version
  table is a map, and the JSON column of a card survives being stored.

  \<^bold>\<open>Parameters and bounds.\<close>  Outside code is an argument: \<^verbatim>\<open>fetch\<close>, the router, TanStack Table,
  goose, the file system, git, the MySQL driver's reading of a data source name, HTTP, SHA-256, JSON, YAML and
  protobuf decoding (but for the column of \<open>PotentialJson\<close>), and, for the game server, an
  environment \<open>env\<close> that says for the n-th call to the outside which error it meets, the time, the
  random number, the token, whether a held lock has been let go and whether a failing \<^verbatim>\<open>COMMIT\<close>
  took effect all the same.  All faults are arbitrary in the theorems, with one exception: coherence needs
  that deleting cache keys works, because \<^verbatim>\<open>CommitOrRollback\<close> ignores that error.  JavaScript
  numbers are exact below 2^53; durations wrap at 64 bits and theorems that need it say \<open>no_wrap\<close>; the
  version list is cut at 200 rows; Go's sized integers are words, automatic keys stop at 2^64.  Loops over
  lists are structural recursion; the only bounded one is the wait for a lock, with the 60 attempts of the
  code (\<open>userLockMaxRetries\<close>), after which the request is refused.

  \<^bold>\<open>Abstractions.\<close>  A \<^verbatim>\<open>TIMESTAMP\<close> column keeps whole seconds, the cache the full time, so
  rows are compared with their time columns set to zero (\<open>untimed\<close>).  Requests of the game server run
  one after another in \<open>served\<close>; \<open>Lease\<close> shows for how long the lock makes them do so, \<open>Overlap\<close> what
  happens after that.  A login, which takes no lock, beside another request is not covered.  In \<open>Lease\<close> the
  tokens drawn are distinct.  Encoding a cached value and marshalling a reply cannot fail.  The
  tables have exactly the columns of the models; a schema with other columns makes every load an error,
  which the environment can express.  Go's iteration over a map is a list, in an order the
  theorems do not depend on (where the program does, in \<open>PotentialJson\<close>, the order is a parameter).

  \<^bold>\<open>Not modelled.\<close>  The club scope of the unit of work (no model type and no handler uses it; the club's cache, lock
  and queries are modelled), the goroutines of the syncers, shutdown and log files,
  generated protobuf code, the test client, the converters under \<^verbatim>\<open>tools/\<close>, tests, style sheets
  and the built bundle.
\<close>

section \<open>The clock page and the server's clock\<close>

lemma rfc3339_not_local: "parse_local (format_rfc3339 z ns) = None" if "year_fits (civil_in z ns)" for z ns
proof -
  have "read_civil (format_rfc3339 z ns) = Some (civil_in z ns, zone_suffix z)"
    unfolding format_rfc3339_def Let_def by (rule read_format [OF civil_in_ok that])
  moreover have "zone_suffix z \<noteq> []" by (simp add: zone_suffix_def Let_def)
  ultimately show ?thesis by (simp add: parse_local_def)
qed

lemma date_ms_rfc3339:
  "zone_ok z \<Longrightarrow> year_fits (civil_in z ns) \<Longrightarrow> date_ms br (format_rfc3339 z ns) = Some (sec_of_ns ns * 1000)"
  by (simp add: date_ms_def rfc3339_not_local parse_format_rfc3339)

text \<open>C17: picking a target time on the page and applying it makes the server's clock show that time:
  if the page's data was read at real time \<open>T\<close> and the request is handled at real time \<open>real\<close>,
  the server's logical clock is then the target plus the time passed since, between half a second
  early and one and a half seconds late, and the same after a restart.\<close>

theorem picked_time_reached:
  assumes "zone_ok z" and "year_fits (civil_in z T)" and "get_clock z T T' srv = ReplyJson 200 i"
    and "cp_info s = Some i" and "cp_user s = user" and "js_trim user \<noteq> []"
    and "civil_ok c" and "1000 \<le> c_year c" and "c_year c \<le> 9999"
    and "\<bar>br_local_ms br c * 1000000 - T\<bar> \<le> 9000000000 * 1000000000"
  shows "\<exists>n srv' r. cp_pending (clock_handle br now' ApplyClick (clock_handle br now (Pick (Some c)) s))
          = cp_pending s @ [JumpOp (Fin n) (js_trim user)]
      \<and> post_clock_jump z real be None (the (rq_body (clock_request (JumpOp (Fin n) (js_trim user))))) srv
          = (ReplyJson 200 r, srv')
      \<and> br_local_ms br c * 1000000 + (real - T) - 500000000 \<le> clock_Now real srv'
      \<and> clock_Now real srv' < br_local_ms br c * 1000000 + (real - T) + 1500000000
      \<and> clock_Now real (boot_clock None srv') = clock_Now real srv'"
proof -
  let ?L = "br_local_ms br c" and ?r = "sec_of_ns T * 1000"
  have i: "ci_real_time i = format_rfc3339 z T" using assms(3) by (auto simp: get_clock_def)
  have T: "?r * 1000000 \<le> T" "T < ?r * 1000000 + 1000000000" unfolding sec_of_ns_def by linarith+
  have near: "\<bar>?L - ?r\<bar> \<le> 9000000001000"
    using assms(10) T by (simp add: abs_le_iff)
  have "format_rfc3339 z T \<noteq> []" by (simp add: format_rfc3339_def Let_def)
  moreover have "\<bar>?L - ?r\<bar> \<le> 2 ^ 53" by (rule order.trans [OF near]) simp
  ultimately obtain n where n: "cp_pending (clock_handle br now' ApplyClick (clock_handle br now (Pick (Some c)) s))
          = cp_pending s @ [JumpOp (Fin n) (js_trim user)]" "\<bar>?r + 1000 * n - ?L\<bar> \<le> 500"
    using pick_apply_sends [OF assms(4) _ _ assms(7-9), where br = br and r = ?r and now = now and now' = now']
      date_ms_rfc3339 [OF assms(1,2)] i assms(5,6) by auto
  have nw: "no_wrap n" using n(2) near by (simp add: no_wrap_def abs_le_iff)
  have body: "the (rq_body (clock_request (JumpOp (Fin n) (js_trim user)))) = jump_body (Fin n) (js_trim user)"
    by (simp add: request_jump_body)
  have bind: "bind_jump (jump_body (Fin n) (js_trim user)) = Some \<lparr>jr_add_second = n, jr_user = js_trim user\<rparr>"
    using no_wrap_int64 [OF nw] by (intro bind_jump_body) simp_all
  define srv' where "srv' = SetOffset (duration_of_seconds (word_of_int n)) (srv\<lparr>cs_rows := cs_rows srv @ [(n, js_trim user)]\<rparr>)"
  have post: "\<exists>r. post_clock_jump z real be None (jump_body (Fin n) (js_trim user)) srv = (ReplyJson 200 r, srv')"
    using assms(6) by (simp add: post_clock_jump_def jump_insert_def bind time_Create_def jump_apply_def srv'_def Let_def)
  have now: "clock_Now real srv' = real + n * 1000000000" unfolding srv'_def by (rule clock_Now_jumped [OF nw])
  have "clock_Now real (boot_clock None srv') = clock_Now real srv'"
    by (simp add: srv'_def boot_clock_def Reset_def SetOffset_def time_FindLatest_def clock_Now_def)
  moreover have "?L * 1000000 + (real - T) - 500000000 \<le> real + n * 1000000000"
    "real + n * 1000000000 < ?L * 1000000 + (real - T) + 1500000000"
    using n(2) T by linarith+
  ultimately show ?thesis using n(1) post body now by metis
qed

definition demo_clock :: clock_server where
  "demo_clock = \<lparr>cs_offset = 0, cs_rows = []\<rparr>"

definition demo_clock_read :: clock_info where
  "demo_clock_read = (case get_clock kst_zone demo_now demo_now demo_clock of ReplyJson c i \<Rightarrow> i)"

lemma picked_time_reached_witness:
  "\<exists>n srv' r. cp_pending (clock_handle utc_browser 0 ApplyClick
      (clock_handle utc_browser 0 (Pick (Some demo_civil)) (demo_named\<lparr>cp_info := Some demo_clock_read\<rparr>)))
      = [RefreshOp, JumpOp (Fin n) ''qa'']
    \<and> post_clock_jump kst_zone demo_now [] None (the (rq_body (clock_request (JumpOp (Fin n) ''qa'')))) demo_clock
       = (ReplyJson 200 r, srv')
    \<and> 1741507500500000000 \<le> clock_Now demo_now srv' \<and> clock_Now demo_now srv' < 1741507502500000000"
proof -
  have ms: "br_local_ms utc_browser demo_civil = 1741507501000"
    by (simp add: utc_browser_def demo_civil_def civil_ms_def days_before_month_def day_from_year_def leap_def)
  have "get_clock kst_zone demo_now demo_now demo_clock = ReplyJson 200 demo_clock_read"
    by (simp add: demo_clock_read_def get_clock_def)
  moreover have "zone_ok kst_zone" by (simp add: zone_ok_def kst_zone_def)
  moreover have "\<bar>br_local_ms utc_browser demo_civil * 1000000 - demo_now\<bar> \<le> 9000000000 * 1000000000"
    by (simp add: ms demo_now_def)
  ultimately have "\<exists>n srv' r. cp_pending (clock_handle utc_browser 0 ApplyClick
          (clock_handle utc_browser 0 (Pick (Some demo_civil)) (demo_named\<lparr>cp_info := Some demo_clock_read\<rparr>)))
          = cp_pending (demo_named\<lparr>cp_info := Some demo_clock_read\<rparr>) @ [JumpOp (Fin n) (js_trim ''qa'')]
      \<and> post_clock_jump kst_zone demo_now [] None (the (rq_body (clock_request (JumpOp (Fin n) (js_trim ''qa''))))) demo_clock
          = (ReplyJson 200 r, srv')
      \<and> br_local_ms utc_browser demo_civil * 1000000 + (demo_now - demo_now) - 500000000 \<le> clock_Now demo_now srv'
      \<and> clock_Now demo_now srv' < br_local_ms utc_browser demo_civil * 1000000 + (demo_now - demo_now) + 1500000000
      \<and> clock_Now demo_now (boot_clock None srv') = clock_Now demo_now srv'"
    by (intro picked_time_reached [OF _ demo_year_fits]) (simp_all add: demo_civil_def civil_ok_def demo_named_def)
  then show ?thesis unfolding ms js_trim_qa by (auto simp: demo_named_def demo_start_def)
qed

end
